theory Spec2Isabelle
  imports Complex_Main
begin

section \<open>Tensors and the framework primitives the notebooks call\<close>

text \<open>
  A tensor is its shape together with its elements in row-major order.  Elements are
  idealised as real numbers: rounding of the floating-point arithmetic of the framework
  is not modelled.  Python exceptions are values of type \<open>error\<close>.
\<close>

datatype error = ValueError string | RuntimeError string | TypeError string | AttributeError string
  | ZeroDivisionError string

record tensor =
  shape :: "nat list"
  data :: "real list"

definition numel :: "tensor \<Rightarrow> nat" where
  "numel x = prod_list (shape x)"

definition wf_tensor :: "tensor \<Rightarrow> bool" where
  "wf_tensor x = (length (data x) = numel x)"

text \<open>\<open>x.view(shp)\<close> on a contiguous tensor: same elements, new shape of equal size.\<close>

definition view :: "tensor \<Rightarrow> nat list \<Rightarrow> error + tensor" where
  "view x shp =
     (if prod_list shp = numel x then Inr (x\<lparr>shape := shp\<rparr>)
      else Inl (RuntimeError ''shape is invalid for input size''))"

text \<open>\<open>x.t()\<close>: the transpose of a 2-dimensional tensor.\<close>

definition tensor_t :: "tensor \<Rightarrow> error + tensor" where
  "tensor_t x =
     (case shape x of
        [m, n] \<Rightarrow>
          Inr \<lparr>shape = [n, m],
               data = concat (map (\<lambda>j. map (\<lambda>i. data x ! (i * n + j)) [0..<m]) [0..<n])\<rparr>
      | _ \<Rightarrow> Inl (RuntimeError ''t() expects a 2D tensor''))"

text \<open>\<open>torch.mm(x, y)\<close>: the matrix product of two 2-dimensional tensors.\<close>

definition mm :: "tensor \<Rightarrow> tensor \<Rightarrow> error + tensor" where
  "mm x y =
     (case (shape x, shape y) of
        ([m, n], [n', p]) \<Rightarrow>
          if n = n' then
            Inr \<lparr>shape = [m, p],
                 data = concat (map (\<lambda>i. map (\<lambda>j.
                          sum_list (map (\<lambda>k. data x ! (i * n + k) * data y ! (k * p + j)) [0..<n]))
                          [0..<p]) [0..<m])\<rparr>
          else Inl (RuntimeError ''size mismatch'')
      | _ \<Rightarrow> Inl (RuntimeError ''matrices expected''))"

text \<open>\<open>x.div(s)\<close> for a Python integer \<open>s\<close>: every element divided by \<open>s\<close>.\<close>

definition tensor_div :: "tensor \<Rightarrow> nat \<Rightarrow> tensor" where
  "tensor_div x s = x\<lparr>data := map (\<lambda>v. v / real s) (data x)\<rparr>"

section \<open>The Gram matrix\<close>

text \<open>
  \<^verbatim>\<open>
  def gram_matrix(input):
      a, b, c, d = input.size()
      features = input.view(a * b, c * d)
      G = torch.mm(features, features.t())
      return G.div(a * b * c * d)
  \<close>
  Unpacking \<open>input.size()\<close> into four names raises \<open>ValueError\<close> unless the tensor has
  exactly four dimensions.
\<close>

definition gram_matrix :: "tensor \<Rightarrow> error + tensor" where
  "gram_matrix input =
     (case shape input of
        [a, b, c, d] \<Rightarrow>
          (case view input [a * b, c * d] of
             Inl e \<Rightarrow> Inl e
           | Inr features \<Rightarrow>
               (case tensor_t features of
                  Inl e \<Rightarrow> Inl e
                | Inr ft \<Rightarrow>
                    (case mm features ft of
                       Inl e \<Rightarrow> Inl e
                     | Inr G \<Rightarrow> Inr (tensor_div G (a * b * c * d)))))
      | _ \<Rightarrow> Inl (ValueError ''wrong number of values to unpack (expected 4)''))"

text \<open>
  The Gram matrix as the glossary words it: the matrix of inner products of the flattened
  feature maps (the rows of the reshaped input), normalised by the number of elements.
\<close>

definition inner :: "real list \<Rightarrow> real list \<Rightarrow> real" where
  "inner u v = sum_list (map (\<lambda>(p, q). p * q) (zip u v))"

definition feature_rows :: "tensor \<Rightarrow> nat \<Rightarrow> nat \<Rightarrow> real list list" where
  "feature_rows x r n = map (\<lambda>i. take n (drop (i * n) (data x))) [0..<r]"

definition gram_spec :: "tensor \<Rightarrow> nat \<Rightarrow> nat \<Rightarrow> nat \<Rightarrow> nat \<Rightarrow> tensor" where
  "gram_spec x a b c d =
     (let F = feature_rows x (a * b) (c * d) in
      \<lparr>shape = [a * b, a * b],
       data = concat (map (\<lambda>i. map (\<lambda>j. inner (F ! i) (F ! j) / real (a * b * c * d))
                [0..<a * b]) [0..<a * b])\<rparr>)"



section \<open>Loss modules\<close>

text \<open>
  \<open>F.mse_loss(input, target)\<close> with the default reduction: the mean of the squared
  differences of two tensors of one shape.  Unequal shapes are reported as the framework's
  \<open>RuntimeError\<close>; the broadcasting that some framework versions attempt for them is not
  modelled, and nothing below relies on that branch.
\<close>

definition mse_loss :: "tensor \<Rightarrow> tensor \<Rightarrow> error + real" where
  "mse_loss input tgt =
     (if shape input = shape tgt then
        Inr (sum_list (map (\<lambda>(p, q). (p - q)\<^sup>2) (zip (data input) (data tgt)))
             / real (numel input))
      else Inl (RuntimeError ''input and target shapes do not match''))"

text \<open>
  \<^verbatim>\<open>
  class ContentLoss(nn.Module):
      def __init__(self, target,):
          self.target = target.detach()
      def forward(self, input):
          self.loss = F.mse_loss(input, self.target)
          return input

  class StyleLoss(nn.Module):
      def __init__(self, target_feature):
          self.target = gram_matrix(target_feature).detach()
      def forward(self, input):
          G = gram_matrix(input)
          self.loss = F.mse_loss(G, self.target)
          return input
  \<close>
  A loss module is its \<open>target\<close> and its \<open>loss\<close> attribute, which does not exist before
  the first call of \<open>forward\<close>.  \<open>forward\<close> returns its result together with the updated
  module.  \<open>detach\<close> only cuts the gradient graph and is the identity on values.
\<close>

record loss_module =
  target :: tensor
  loss :: "real option"

definition ContentLoss_init :: "tensor \<Rightarrow> loss_module" where
  "ContentLoss_init tgt = \<lparr>target = tgt, loss = None\<rparr>"

definition ContentLoss_forward :: "loss_module \<Rightarrow> tensor \<Rightarrow> error + tensor \<times> loss_module" where
  "ContentLoss_forward self input =
     (case mse_loss input (target self) of
        Inl e \<Rightarrow> Inl e
      | Inr l \<Rightarrow> Inr (input, self\<lparr>loss := Some l\<rparr>))"

definition StyleLoss_init :: "tensor \<Rightarrow> error + loss_module" where
  "StyleLoss_init target_feature =
     (case gram_matrix target_feature of
        Inl e \<Rightarrow> Inl e
      | Inr G \<Rightarrow> Inr \<lparr>target = G, loss = None\<rparr>)"

definition StyleLoss_forward :: "loss_module \<Rightarrow> tensor \<Rightarrow> error + tensor \<times> loss_module" where
  "StyleLoss_forward self input =
     (case gram_matrix input of
        Inl e \<Rightarrow> Inl e
      | Inr G \<Rightarrow>
          (case mse_loss G (target self) of
             Inl e \<Rightarrow> Inl e
           | Inr l \<Rightarrow> Inr (input, self\<lparr>loss := Some l\<rparr>)))"

section \<open>Objects, the heap and the framework\<close>

text \<open>
  Modules and the optimised image are Python objects that are shared and mutated in place,
  so they live in a heap: a list of objects, an address being an index.  A network layer
  is its class (one of the four the scan recognises, or any other class, with its name)
  and its state, the list of its parameter and buffer tensors.  A tensor object carries
  its value and its \<open>grad\<close> attribute.
\<close>

datatype layer_kind = Conv2d | ReLU bool | MaxPool2d | BatchNorm2d | Other string

datatype obj =
    Tensor tensor "tensor option"
  | Layer layer_kind "tensor list"
  | Normalization tensor tensor
  | ContentLoss loss_module
  | StyleLoss loss_module

type_synonym heap = "obj list"

definition alloc :: "heap \<Rightarrow> obj \<Rightarrow> nat \<times> heap" where
  "alloc h ob = (length h, h @ [ob])"

fun class_name :: "obj \<Rightarrow> string" where
  "class_name (Tensor _ _) = ''Tensor''"
| "class_name (Layer Conv2d _) = ''Conv2d''"
| "class_name (Layer (ReLU _) _) = ''ReLU''"
| "class_name (Layer MaxPool2d _) = ''MaxPool2d''"
| "class_name (Layer BatchNorm2d _) = ''BatchNorm2d''"
| "class_name (Layer (Other c) _) = c"
| "class_name (Normalization _ _) = ''Normalization''"
| "class_name (ContentLoss _) = ''ContentLoss''"
| "class_name (StyleLoss _) = ''StyleLoss''"

text \<open>\<open>isinstance(m, ContentLoss) or isinstance(m, StyleLoss)\<close>\<close>

fun is_loss :: "obj \<Rightarrow> bool" where
  "is_loss (ContentLoss _) = True"
| "is_loss (StyleLoss _) = True"
| "is_loss _ = False"

text \<open>
  What the notebooks take from the framework without defining it is a parameter of the
  model: the forward pass of a layer (which may fail on a tensor it does not accept, and
  may update the layer's buffers), the broadcasting arithmetic of \<open>(img - mean) / std\<close>,
  automatic differentiation, and the quasi-Newton update of L-BFGS.
  \<open>autograd F h ms x sw cw\<close> is the gradient, with respect to the input \<open>x\<close>, of the weighted
  loss of the model \<open>ms\<close>, together with the states of the modules of \<open>ms\<close> after their
  parameters have received their gradients.  \<open>lbfgs F st l ps\<close> takes the state of the
  optimiser, the current loss and the parameters with their gradients, and gives whether
  the step is finished, the new values of the parameters and the new state.
\<close>

record framework =
  apply_layer :: "layer_kind \<Rightarrow> tensor list \<Rightarrow> tensor \<Rightarrow> error + tensor \<times> tensor list"
  sub_div :: "tensor \<Rightarrow> tensor \<Rightarrow> tensor \<Rightarrow> error + tensor"
  autograd :: "heap \<Rightarrow> nat list \<Rightarrow> tensor \<Rightarrow> real \<Rightarrow> real \<Rightarrow> tensor \<times> tensor list list"
  lbfgs :: "tensor list \<Rightarrow> real \<Rightarrow> (tensor \<times> tensor option) list
              \<Rightarrow> bool \<times> tensor list \<times> tensor list"

text \<open>
  \<^verbatim>\<open>
  class Normalization(nn.Module):
      def __init__(self, mean, std):
          self.mean = torch.tensor(mean).view(-1, 1, 1)
          self.std = torch.tensor(std).view(-1, 1, 1)
      def forward(self, img):
          return (img - self.mean) / self.std
  \<close>
\<close>

definition Normalization_init :: "tensor \<Rightarrow> tensor \<Rightarrow> obj" where
  "Normalization_init mean std =
     Normalization (mean\<lparr>shape := [numel mean, 1, 1]\<rparr>) (std\<lparr>shape := [numel std, 1, 1]\<rparr>)"

text \<open>
  Calling the module at address \<open>a\<close> on \<open>x\<close>: the result and the heap after the call.
  Only the called module itself is written.
\<close>

definition module_forward :: "framework \<Rightarrow> heap \<Rightarrow> nat \<Rightarrow> tensor \<Rightarrow> error + tensor \<times> heap" where
  "module_forward F h a x =
     (case h ! a of
        Layer k ps \<Rightarrow>
          (case apply_layer F k ps x of
             Inl e \<Rightarrow> Inl e
           | Inr (y, ps') \<Rightarrow> Inr (y, h[a := Layer k ps']))
      | Normalization mean std \<Rightarrow>
          (case sub_div F x mean std of
             Inl e \<Rightarrow> Inl e
           | Inr y \<Rightarrow> Inr (y, h))
      | ContentLoss m \<Rightarrow>
          (case ContentLoss_forward m x of
             Inl e \<Rightarrow> Inl e
           | Inr (y, m') \<Rightarrow> Inr (y, h[a := ContentLoss m']))
      | StyleLoss m \<Rightarrow>
          (case StyleLoss_forward m x of
             Inl e \<Rightarrow> Inl e
           | Inr (y, m') \<Rightarrow> Inr (y, h[a := StyleLoss m']))
      | Tensor _ _ \<Rightarrow> Inl (TypeError ''Tensor object is not callable''))"

text \<open>\<open>nn.Sequential.forward\<close>: the modules are called in the order of the container.\<close>

fun seq_forward :: "framework \<Rightarrow> heap \<Rightarrow> nat list \<Rightarrow> tensor \<Rightarrow> error + tensor \<times> heap" where
  "seq_forward F h [] x = Inr (x, h)"
| "seq_forward F h (a # as) x =
     (case module_forward F h a x of
        Inl e \<Rightarrow> Inl e
      | Inr (y, h') \<Rightarrow> seq_forward F h' as y)"

text \<open>
  The children of a \<open>Sequential\<close> are an ordered dictionary from names to modules.
  \<open>add_module(name, m)\<close> assigns \<open>self._modules[name] = m\<close>: a new name is appended, a
  name already present keeps its position and gets the new module.
\<close>

fun add_module :: "(string \<times> nat) list \<Rightarrow> string \<Rightarrow> nat \<Rightarrow> (string \<times> nat) list" where
  "add_module [] name m = [(name, m)]"
| "add_module ((k, v) # kvs) name m =
     (if k = name then (name, m) # kvs else (k, v) # add_module kvs name m)"

text \<open>\<open>'{}'.format(i)\<close> for a non-negative integer: its decimal digits.\<close>

definition digit :: "nat \<Rightarrow> char" where
  "digit d = ''0123456789'' ! d"

fun format_nat :: "nat \<Rightarrow> string" where
  "format_nat n = (if n < 10 then [digit n] else format_nat (n div 10) @ [digit (n mod 10)])"

declare format_nat.simps [simp del]

section \<open>Building the style-transfer model\<close>

text \<open>
  \<^verbatim>\<open>
  content_layers_default = ['conv_4']
  style_layers_default = ['conv_1', 'conv_2', 'conv_3', 'conv_4', 'conv_5']
  \<close>
\<close>

definition content_layers_default :: "string list" where
  "content_layers_default = [''conv_4'']"

definition style_layers_default :: "string list" where
  "style_layers_default = [''conv_1'', ''conv_2'', ''conv_3'', ''conv_4'', ''conv_5'']"

text \<open>
  The state of the scan of \<open>get_style_model_and_losses\<close>: the heap, the children of
  \<open>model\<close>, the counter \<open>i\<close>, and the two lists of loss modules (addresses: the lists
  hold the very objects that are in the model).
\<close>

record build_state =
  st_heap :: heap
  st_model :: "(string \<times> nat) list"
  st_i :: nat
  st_content_losses :: "nat list"
  st_style_losses :: "nat list"

text \<open>\<open>copy.deepcopy(cnn)\<close>: every child is copied to a fresh object, in order.\<close>

definition deepcopy :: "heap \<Rightarrow> nat list \<Rightarrow> nat list \<times> heap" where
  "deepcopy h cnn = (map (\<lambda>k. length h + k) [0..<length cnn], h @ map (\<lambda>a. h ! a) cnn)"

text \<open>
  The \<open>isinstance\<close> chain of the loop body: the new value of \<open>i\<close>, the name, the module to
  add (a fresh out-of-place \<open>ReLU\<close> for a \<open>ReLU\<close> child) and the heap; the \<open>RuntimeError\<close>
  for any other class.
  \<^verbatim>\<open>
        if isinstance(layer, nn.Conv2d):
            i += 1
            name = 'conv_{}'.format(i)
        elif isinstance(layer, nn.ReLU):
            name = 'relu_{}'.format(i)
            layer = nn.ReLU(inplace=False)
        elif isinstance(layer, nn.MaxPool2d):
            name = 'pool_{}'.format(i)
        elif isinstance(layer, nn.BatchNorm2d):
            name = 'bn_{}'.format(i)
        else:
            raise RuntimeError('Unrecognized layer: {}'.format(layer.__class__.__name__))
  \<close>
\<close>

definition name_layer :: "heap \<Rightarrow> nat \<Rightarrow> nat \<Rightarrow> error + nat \<times> string \<times> nat \<times> heap" where
  "name_layer h i layer =
     (case h ! layer of
        Layer Conv2d _ \<Rightarrow> Inr (i + 1, ''conv_'' @ format_nat (i + 1), layer, h)
      | Layer (ReLU _) _ \<Rightarrow>
          (case alloc h (Layer (ReLU False) []) of
             (layer', h') \<Rightarrow> Inr (i, ''relu_'' @ format_nat i, layer', h'))
      | Layer MaxPool2d _ \<Rightarrow> Inr (i, ''pool_'' @ format_nat i, layer, h)
      | Layer BatchNorm2d _ \<Rightarrow> Inr (i, ''bn_'' @ format_nat i, layer, h)
      | ob \<Rightarrow> Inl (RuntimeError (''Unrecognized layer: '' @ class_name ob)))"

text \<open>
  \<^verbatim>\<open>
            target = model(content_img).detach()
            content_loss = ContentLoss(target)
            model.add_module("content_loss_{}".format(i), content_loss)
            content_losses.append(content_loss)
  \<close>
\<close>

definition add_content_loss :: "framework \<Rightarrow> tensor \<Rightarrow> build_state \<Rightarrow> error + build_state" where
  "add_content_loss F content_img st =
     (case seq_forward F (st_heap st) (map snd (st_model st)) content_img of
        Inl e \<Rightarrow> Inl e
      | Inr (tgt, h1) \<Rightarrow>
          (case alloc h1 (ContentLoss (ContentLoss_init tgt)) of
             (content_loss, h2) \<Rightarrow>
               Inr (st\<lparr>st_heap := h2,
                       st_model := add_module (st_model st)
                                     (''content_loss_'' @ format_nat (st_i st)) content_loss,
                       st_content_losses := st_content_losses st @ [content_loss]\<rparr>)))"

text \<open>
  \<^verbatim>\<open>
            target_feature = model(style_img).detach()
            style_loss = StyleLoss(target_feature)
            model.add_module("style_loss_{}".format(i), style_loss)
            style_losses.append(style_loss)
  \<close>
\<close>

definition add_style_loss :: "framework \<Rightarrow> tensor \<Rightarrow> build_state \<Rightarrow> error + build_state" where
  "add_style_loss F style_img st =
     (case seq_forward F (st_heap st) (map snd (st_model st)) style_img of
        Inl e \<Rightarrow> Inl e
      | Inr (target_feature, h1) \<Rightarrow>
          (case StyleLoss_init target_feature of
             Inl e \<Rightarrow> Inl e
           | Inr m \<Rightarrow>
               (case alloc h1 (StyleLoss m) of
                  (style_loss, h2) \<Rightarrow>
                    Inr (st\<lparr>st_heap := h2,
                            st_model := add_module (st_model st)
                                          (''style_loss_'' @ format_nat (st_i st)) style_loss,
                            st_style_losses := st_style_losses st @ [style_loss]\<rparr>))))"

text \<open>One iteration of \<open>for layer in cnn.children()\<close>.\<close>

definition scan_layer ::
  "framework \<Rightarrow> string list \<Rightarrow> string list \<Rightarrow> tensor \<Rightarrow> tensor \<Rightarrow> build_state \<Rightarrow> nat
     \<Rightarrow> error + build_state" where
  "scan_layer F content_layers style_layers content_img style_img st layer =
     (case name_layer (st_heap st) (st_i st) layer of
        Inl e \<Rightarrow> Inl e
      | Inr (i', name, layer', h1) \<Rightarrow>
          (case (if name \<in> set content_layers
                 then add_content_loss F content_img
                        (st\<lparr>st_heap := h1, st_i := i',
                            st_model := add_module (st_model st) name layer'\<rparr>)
                 else Inr (st\<lparr>st_heap := h1, st_i := i',
                              st_model := add_module (st_model st) name layer'\<rparr>)) of
             Inl e \<Rightarrow> Inl e
           | Inr st2 \<Rightarrow>
               (if name \<in> set style_layers then add_style_loss F style_img st2 else Inr st2)))"

fun scan_layers ::
  "framework \<Rightarrow> string list \<Rightarrow> string list \<Rightarrow> tensor \<Rightarrow> tensor \<Rightarrow> build_state \<Rightarrow> nat list
     \<Rightarrow> error + build_state" where
  "scan_layers F content_layers style_layers content_img style_img st [] = Inr st"
| "scan_layers F content_layers style_layers content_img style_img st (layer # layers) =
     (case scan_layer F content_layers style_layers content_img style_img st layer of
        Inl e \<Rightarrow> Inl e
      | Inr st' \<Rightarrow> scan_layers F content_layers style_layers content_img style_img st' layers)"

text \<open>
  \<^verbatim>\<open>
    for i in range(len(model) - 1, -1, -1):
        if isinstance(model[i], ContentLoss) or isinstance(model[i], StyleLoss):
            break
    model = model[:(i + 1)]
  \<close>
  \<open>last_loss_index h model k\<close> is the value of \<open>i\<close> when the loop, started at index \<open>k\<close>,
  ends: the first index from \<open>k\<close> downwards that holds a loss module, and \<open>0\<close> when the
  loop runs out.
\<close>

fun last_loss_index :: "heap \<Rightarrow> (string \<times> nat) list \<Rightarrow> nat \<Rightarrow> nat" where
  "last_loss_index h mdl 0 = 0"
| "last_loss_index h mdl (Suc k) =
     (if is_loss (h ! snd (mdl ! Suc k)) then Suc k else last_loss_index h mdl k)"

definition trim :: "heap \<Rightarrow> (string \<times> nat) list \<Rightarrow> (string \<times> nat) list" where
  "trim h mdl = take (last_loss_index h mdl (length mdl - 1) + 1) mdl"

text \<open>
  \<^verbatim>\<open>
  def get_style_model_and_losses(cnn, normalization_mean, normalization_std,
                                 style_img, content_img,
                                 content_layers=content_layers_default,
                                 style_layers=style_layers_default):
      cnn = copy.deepcopy(cnn)
      normalization = Normalization(normalization_mean, normalization_std).to(device)
      content_losses = []
      style_losses = []
      model = nn.Sequential(normalization)
      i = 0
      for layer in cnn.children(): ...
      ...
      return model, style_losses, content_losses
  \<close>
  \<open>cnn\<close> is the list of the addresses of the network's children, in the order in which
  \<open>children()\<close> yields them.  \<open>nn.Sequential(normalization)\<close> names its only child \<open>0\<close>.
  The result carries the heap after the call.
\<close>

definition get_style_model_and_losses ::
  "framework \<Rightarrow> heap \<Rightarrow> nat list \<Rightarrow> tensor \<Rightarrow> tensor \<Rightarrow> tensor \<Rightarrow> tensor \<Rightarrow> string list
     \<Rightarrow> string list \<Rightarrow> error + heap \<times> (string \<times> nat) list \<times> nat list \<times> nat list" where
  "get_style_model_and_losses F h cnn normalization_mean normalization_std style_img content_img
       content_layers style_layers =
     (case deepcopy h cnn of
        (cnn', h1) \<Rightarrow>
          (case alloc h1 (Normalization_init normalization_mean normalization_std) of
             (normalization, h2) \<Rightarrow>
               (case scan_layers F content_layers style_layers content_img style_img
                       \<lparr>st_heap = h2, st_model = [(''0'', normalization)], st_i = 0,
                        st_content_losses = [], st_style_losses = []\<rparr> cnn' of
                  Inl e \<Rightarrow> Inl e
                | Inr st \<Rightarrow>
                    Inr (st_heap st, trim (st_heap st) (st_model st),
                         st_style_losses st, st_content_losses st))))"

section \<open>What a forward pass leaves unchanged\<close>

text \<open>
  An object without the attributes that a forward pass writes: the buffers of a layer and
  the \<open>loss\<close> attribute of a loss module.
\<close>

fun immutable_part :: "obj \<Rightarrow> obj" where
  "immutable_part (Layer k ps) = Layer k []"
| "immutable_part (ContentLoss m) = ContentLoss (m\<lparr>loss := None\<rparr>)"
| "immutable_part (StyleLoss m) = StyleLoss (m\<lparr>loss := None\<rparr>)"
| "immutable_part ob = ob"

section \<open>A small instance of the framework\<close>

text \<open>
  An instance of the framework parameters, for running the model on small inputs.
  \<open>Conv2d\<close> carries its weight of shape \<open>[out, in, kh, kw]\<close> and its bias; it refuses
  an input that is not 4-dimensional with \<open>in\<close> channels, as the framework does, and
  otherwise computes the convolution with stride 1 and no padding.  \<open>ReLU\<close> is the
  element-wise maximum with 0; the other classes act as the identity.  The image is
  normalised per channel.  The optimiser of the instance stops at once and leaves the
  image as it is; its gradients are zero.
\<close>

definition conv2d :: "tensor \<Rightarrow> tensor \<Rightarrow> tensor \<Rightarrow> error + tensor" where
  "conv2d w bias x =
     (case (shape w, shape x) of
        ([co, ci, kh, kw], [n, c, hh, ww]) \<Rightarrow>
          if c = ci \<and> kh \<le> hh \<and> kw \<le> ww then
            Inr \<lparr>shape = [n, co, hh - kh + 1, ww - kw + 1],
                 data = concat (map (\<lambda>b. concat (map (\<lambda>oc. concat (map (\<lambda>r. map (\<lambda>s.
                    data bias ! oc +
                    sum_list (map (\<lambda>ic. sum_list (map (\<lambda>p. sum_list (map (\<lambda>q.
                        data w ! (((oc * ci + ic) * kh + p) * kw + q) *
                        data x ! (((b * c + ic) * hh + (r + p)) * ww + (s + q)))
                      [0..<kw])) [0..<kh])) [0..<ci]))
                    [0..<ww - kw + 1]) [0..<hh - kh + 1])) [0..<co])) [0..<n])\<rparr>
          else Inl (RuntimeError ''Given weight, expected input to have matching channels'')
      | _ \<Rightarrow> Inl (RuntimeError ''Expected 4-dimensional input for 4-dimensional weight''))"

definition sample_apply_layer ::
  "layer_kind \<Rightarrow> tensor list \<Rightarrow> tensor \<Rightarrow> error + tensor \<times> tensor list" where
  "sample_apply_layer k ps x =
     (case k of
        Conv2d \<Rightarrow>
          (case ps of
             [w, bias] \<Rightarrow>
               (case conv2d w bias x of Inl e \<Rightarrow> Inl e | Inr y \<Rightarrow> Inr (y, ps))
           | _ \<Rightarrow> Inl (RuntimeError ''Conv2d without weight and bias''))
      | ReLU _ \<Rightarrow> Inr (x\<lparr>data := map (max 0) (data x)\<rparr>, ps)
      | _ \<Rightarrow> Inr (x, ps))"

definition sample_sub_div :: "tensor \<Rightarrow> tensor \<Rightarrow> tensor \<Rightarrow> error + tensor" where
  "sample_sub_div img mean std =
     (case shape img of
        [n, c, hh, ww] \<Rightarrow>
          if numel mean = c \<and> numel std = c then
            Inr (img\<lparr>data := map (\<lambda>k. (data img ! k - data mean ! ((k div (hh * ww)) mod c))
                                      / data std ! ((k div (hh * ww)) mod c))
                                [0..<length (data img)]\<rparr>)
          else Inl (RuntimeError ''The size of tensor a must match the size of tensor b'')
      | _ \<Rightarrow> Inl (RuntimeError ''The size of tensor a must match the size of tensor b''))"

definition sample_framework :: framework where
  "sample_framework =
     \<lparr>apply_layer = sample_apply_layer,
      sub_div = sample_sub_div,
      autograd = (\<lambda>h ms x sw cw. (x\<lparr>data := map (\<lambda>_. 0) (data x)\<rparr>, [])),
      lbfgs = (\<lambda>st l ps. (True, map fst ps, st))\<rparr>"

section \<open>Notions used to state the properties of the scan\<close>

text \<open>An instance of one of the four classes that the scan recognises.\<close>

fun recognised :: "obj \<Rightarrow> bool" where
  "recognised (Layer Conv2d _) = True"
| "recognised (Layer (ReLU _) _) = True"
| "recognised (Layer MaxPool2d _) = True"
| "recognised (Layer BatchNorm2d _) = True"
| "recognised _ = False"

fun is_conv :: "obj \<Rightarrow> bool" where
  "is_conv (Layer Conv2d _) = True"
| "is_conv _ = False"

fun is_relu :: "obj \<Rightarrow> bool" where
  "is_relu (Layer (ReLU _) _) = True"
| "is_relu _ = False"

text \<open>
  The calls that the scan makes for a child, once the child has its name and is in the
  model: \<open>model(content_img)\<close> if the name is a content layer, and then
  \<open>model(style_img)\<close> and \<open>gram_matrix\<close> on its result, in the constructor of \<open>StyleLoss\<close>,
  if the name is a style layer.  \<open>forward_error\<close> and \<open>target_error\<close> are the errors of
  these calls on the model of a state of the scan, and \<open>call_error\<close> is the error of the
  first call for the child \<open>layer\<close> that raises, if one does, in the state \<open>st\<close> that the
  scan has reached.  \<open>scan_prefix\<close> is the state in which the scan is when the first \<open>k\<close>
  children have been scanned.
\<close>

definition forward_error :: "framework \<Rightarrow> build_state \<Rightarrow> tensor \<Rightarrow> error option" where
  "forward_error F st img =
     (case seq_forward F (st_heap st) (map snd (st_model st)) img of
        Inl e \<Rightarrow> Some e
      | Inr _ \<Rightarrow> None)"

definition target_error :: "framework \<Rightarrow> build_state \<Rightarrow> tensor \<Rightarrow> error option" where
  "target_error F st style_img =
     (case seq_forward F (st_heap st) (map snd (st_model st)) style_img of
        Inl e \<Rightarrow> Some e
      | Inr (target_feature, _) \<Rightarrow>
          (case gram_matrix target_feature of Inl e \<Rightarrow> Some e | Inr _ \<Rightarrow> None))"

definition call_error ::
  "framework \<Rightarrow> string list \<Rightarrow> string list \<Rightarrow> tensor \<Rightarrow> tensor \<Rightarrow> build_state \<Rightarrow> nat
     \<Rightarrow> error option" where
  "call_error F content_layers style_layers content_img style_img st layer =
     (case name_layer (st_heap st) (st_i st) layer of
        Inl _ \<Rightarrow> None
      | Inr (i', name, layer', h1) \<Rightarrow>
          (let st1 = st\<lparr>st_heap := h1, st_i := i',
                        st_model := add_module (st_model st) name layer'\<rparr>
           in if name \<in> set content_layers then
                (case forward_error F st1 content_img of
                   Some e \<Rightarrow> Some e
                 | None \<Rightarrow>
                     (case add_content_loss F content_img st1 of
                        Inl _ \<Rightarrow> None
                      | Inr st2 \<Rightarrow>
                          if name \<in> set style_layers then target_error F st2 style_img else None))
              else if name \<in> set style_layers then target_error F st1 style_img else None))"

definition scan_prefix ::
  "framework \<Rightarrow> heap \<Rightarrow> nat list \<Rightarrow> tensor \<Rightarrow> tensor \<Rightarrow> tensor \<Rightarrow> tensor \<Rightarrow> string list
     \<Rightarrow> string list \<Rightarrow> nat \<Rightarrow> error + build_state" where
  "scan_prefix F h cnn normalization_mean normalization_std style_img content_img
       content_layers style_layers k =
     (case deepcopy h cnn of
        (cnn', h1) \<Rightarrow>
          (case alloc h1 (Normalization_init normalization_mean normalization_std) of
             (normalization, h2) \<Rightarrow>
               scan_layers F content_layers style_layers content_img style_img
                 \<lparr>st_heap = h2, st_model = [(''0'', normalization)], st_i = 0,
                  st_content_losses = [], st_style_losses = []\<rparr> (take k cnn')))"

text \<open>
  A later heap extends an earlier one when every object of the earlier heap is still
  there, up to the attributes that forward passes write.
\<close>

definition heap_extends :: "heap \<Rightarrow> heap \<Rightarrow> bool" where
  "heap_extends h h' =
     (length h \<le> length h' \<and> (\<forall>a<length h. immutable_part (h' ! a) = immutable_part (h ! a)))"

text \<open>
  The names under which the scan registers loss modules, and the names of the loss modules
  that the default layer selections insert into a network with \<open>n\<close> convolutions: a style
  loss after each of the first five, a content loss after the fourth.
\<close>

definition is_loss_name :: "string \<Rightarrow> bool" where
  "is_loss_name k = (take 13 k = ''content_loss_'' \<or> take 11 k = ''style_loss_'')"

definition default_loss_names :: "nat \<Rightarrow> string list" where
  "default_loss_names n =
     concat (map (\<lambda>j. (if j = 4 then [''content_loss_'' @ format_nat j] else []) @
                       (if j \<le> 5 then [''style_loss_'' @ format_nat j] else []))
               [1..<Suc n])"

text \<open>The loss modules among the children of a model, with their names.\<close>

definition loss_entries :: "heap \<Rightarrow> (string \<times> nat) list \<Rightarrow> (string \<times> nat) list" where
  "loss_entries h mdl = filter (\<lambda>e. is_loss (h ! snd e)) mdl"

text \<open>
  The invariant of the scan about loss modules: every child of the model is an object of
  the heap, the loss modules of the model are registered under the names \<open>ks\<close>, in this
  order, and no other child is registered under the name of a loss module.
\<close>

definition loss_inv :: "string list \<Rightarrow> heap \<Rightarrow> (string \<times> nat) list \<Rightarrow> bool" where
  "loss_inv ks h mdl =
     ((\<forall>e\<in>set mdl. snd e < length h) \<and>
      map fst (loss_entries h mdl) = ks \<and>
      (\<forall>e\<in>set mdl. \<not> is_loss (h ! snd e) \<longrightarrow> \<not> is_loss_name (fst e)) \<and>
      (\<forall>k\<in>set ks. is_loss_name k))"

section \<open>The model that the scan is meant to build\<close>

text \<open>
  The scan in the words of its description.  Child \<open>k\<close> is named \<open>conv_i\<close>, \<open>relu_i\<close>,
  \<open>pool_i\<close> or \<open>bn_i\<close>, where \<open>i\<close> is the number of \<open>Conv2d\<close> children seen so far, child
  \<open>k\<close> included.
\<close>

fun layer_prefix :: "obj \<Rightarrow> string" where
  "layer_prefix (Layer Conv2d _) = ''conv_''"
| "layer_prefix (Layer (ReLU _) _) = ''relu_''"
| "layer_prefix (Layer MaxPool2d _) = ''pool_''"
| "layer_prefix (Layer BatchNorm2d _) = ''bn_''"
| "layer_prefix _ = []"

definition convs_seen :: "obj list \<Rightarrow> nat \<Rightarrow> nat" where
  "convs_seen obs k = length (filter is_conv (take (Suc k) obs))"

definition layer_name :: "obj list \<Rightarrow> nat \<Rightarrow> string" where
  "layer_name obs k = layer_prefix (obs ! k) @ format_nat (convs_seen obs k)"

text \<open>
  What a child of the new model is: the normalisation module, the copy of child \<open>k\<close> of
  the network, a fresh out-of-place \<open>ReLU\<close>, a content loss, a style loss, or none of
  these.
\<close>

datatype role = Norm | Child nat | FreshReLU | CLoss | SLoss | Foreign

fun is_loss_role :: "role \<Rightarrow> bool" where
  "is_loss_role CLoss = True"
| "is_loss_role SLoss = True"
| "is_loss_role _ = False"

text \<open>
  The children that child \<open>k\<close> of the network contributes: the layer itself (a fresh
  \<open>ReLU\<close> in place of a \<open>ReLU\<close>), then a content loss if its name is a content layer, then
  a style loss if its name is a style layer.
\<close>

definition expected_block :: "string list \<Rightarrow> string list \<Rightarrow> obj list \<Rightarrow> nat \<Rightarrow> (string \<times> role) list" where
  "expected_block content_layers style_layers obs k =
     (layer_name obs k, if is_relu (obs ! k) then FreshReLU else Child k) #
     (if layer_name obs k \<in> set content_layers
      then [(''content_loss_'' @ format_nat (convs_seen obs k), CLoss)] else []) @
     (if layer_name obs k \<in> set style_layers
      then [(''style_loss_'' @ format_nat (convs_seen obs k), SLoss)] else [])"

definition expected_model :: "string list \<Rightarrow> string list \<Rightarrow> obj list \<Rightarrow> (string \<times> role) list" where
  "expected_model content_layers style_layers obs =
     (''0'', Norm) # concat (map (expected_block content_layers style_layers obs) [0..<length obs])"

text \<open>
  Trimming: everything after the last loss module is cut off; without any loss module
  only the first child remains.
\<close>

definition cut_after_last_loss :: "(string \<times> role) list \<Rightarrow> (string \<times> role) list" where
  "cut_after_last_loss sk =
     (if rev (dropWhile (\<lambda>e. \<not> is_loss_role (snd e)) (rev sk)) = [] then take 1 sk
      else rev (dropWhile (\<lambda>e. \<not> is_loss_role (snd e)) (rev sk)))"

text \<open>
  The role of the object at address \<open>a\<close>, when the network had \<open>n\<close> children and the heap
  had \<open>base\<close> objects at the call: the copies of the children lie at
  \<open>base, \<dots>, base + n - 1\<close>, everything later was created by the scan.
\<close>

fun created_role :: "obj \<Rightarrow> role" where
  "created_role (Normalization _ _) = Norm"
| "created_role (Layer (ReLU False) _) = FreshReLU"
| "created_role (ContentLoss _) = CLoss"
| "created_role (StyleLoss _) = SLoss"
| "created_role _ = Foreign"

definition role_of :: "nat \<Rightarrow> nat \<Rightarrow> heap \<Rightarrow> nat \<Rightarrow> role" where
  "role_of base n h a =
     (if a < base then Foreign
      else if a < base + n then Child (a - base)
      else created_role (h ! a))"

definition model_roles :: "nat \<Rightarrow> nat \<Rightarrow> heap \<Rightarrow> (string \<times> nat) list \<Rightarrow> (string \<times> role) list" where
  "model_roles base n h mdl = map (\<lambda>e. (fst e, role_of base n h (snd e))) mdl"

text \<open>
  The invariant of the scan after the first \<open>k\<close> children: the model is the normalisation
  module followed by the contributions of these children, \<open>i\<close> counts their convolutions,
  the copies of the children are in place, and every child of the model was created by
  the call.
\<close>

definition entries_ok :: "nat \<Rightarrow> nat \<Rightarrow> heap \<Rightarrow> (string \<times> nat) list \<Rightarrow> bool" where
  "entries_ok base n h mdl =
     (\<forall>e\<in>set mdl. base \<le> snd e \<and> snd e < length h \<and>
                   (snd e < base + n \<longrightarrow> recognised (h ! snd e)))"

definition scan_inv ::
  "nat \<Rightarrow> string list \<Rightarrow> string list \<Rightarrow> obj list \<Rightarrow> nat \<Rightarrow> build_state \<Rightarrow> bool" where
  "scan_inv base content_layers style_layers obs k st =
     (model_roles base (length obs) (st_heap st) (st_model st) =
        (''0'', Norm) # concat (map (expected_block content_layers style_layers obs) [0..<k]) \<and>
      st_i st = length (filter is_conv (take k obs)) \<and>
      base + length obs < length (st_heap st) \<and>
      (\<forall>j<length obs. immutable_part (st_heap st ! (base + j)) = immutable_part (obs ! j)) \<and>
      entries_ok base (length obs) (st_heap st) (st_model st))"

section \<open>Running the style transfer\<close>

text \<open>
  \<^verbatim>\<open>
  def get_input_optimizer(input_img):
      optimizer = optim.LBFGS([input_img.requires_grad_()])
      return optimizer
  \<close>
  An optimiser is the list of its parameters (addresses of tensors) and its internal
  state.
\<close>

record optimizer =
  params :: "nat list"
  opt_state :: "tensor list"

definition get_input_optimizer :: "nat \<Rightarrow> optimizer" where
  "get_input_optimizer input_img = \<lparr>params = [input_img], opt_state = []\<rparr>"

text \<open>\<open>t.data.clamp_(0, 1)\<close>: every element is brought into \<open>[0, 1]\<close>, in place.\<close>

definition clamp_inplace :: "heap \<Rightarrow> nat \<Rightarrow> error + heap" where
  "clamp_inplace h a =
     (case h ! a of
        Tensor t g \<Rightarrow> Inr (h[a := Tensor (t\<lparr>data := map (\<lambda>v. min 1 (max 0 v)) (data t)\<rparr>) g])
      | _ \<Rightarrow> Inl (AttributeError ''object has no attribute data''))"

text \<open>\<open>optimizer.zero_grad()\<close>: the gradient of every parameter that has one is set to zero.\<close>

fun zero_grad :: "heap \<Rightarrow> nat list \<Rightarrow> heap" where
  "zero_grad h [] = h"
| "zero_grad h (p # ps) =
     zero_grad (case h ! p of
                  Tensor t (Some g) \<Rightarrow> h[p := Tensor t (Some (g\<lparr>data := map (\<lambda>_. 0) (data g)\<rparr>))]
                | _ \<Rightarrow> h) ps"

text \<open>The \<open>loss\<close> attribute of an object, if it has one.\<close>

fun recorded_loss :: "obj \<Rightarrow> real option" where
  "recorded_loss (ContentLoss m) = loss m"
| "recorded_loss (StyleLoss m) = loss m"
| "recorded_loss _ = None"

text \<open>
  \<^verbatim>\<open>
            style_score = 0
            for sl in style_losses:
                style_score += sl.loss
  \<close>
  Reading \<open>loss\<close> from a module that has no such attribute raises \<open>AttributeError\<close>.
\<close>

fun sum_losses :: "heap \<Rightarrow> nat list \<Rightarrow> error + real" where
  "sum_losses h [] = Inr 0"
| "sum_losses h (a # as) =
     (case recorded_loss (h ! a) of
        None \<Rightarrow> Inl (AttributeError ''object has no attribute loss'')
      | Some l \<Rightarrow> (case sum_losses h as of Inl e \<Rightarrow> Inl e | Inr s \<Rightarrow> Inr (l + s)))"

text \<open>
  \<open>loss.backward()\<close>: the gradient with respect to the image is added to the \<open>grad\<close> of
  the image, and the modules of the model receive the gradients of their parameters.
\<close>

fun write_states :: "heap \<Rightarrow> nat list \<Rightarrow> tensor list list \<Rightarrow> heap" where
  "write_states h (a # as) (ps # pss) =
     write_states (case h ! a of Layer k _ \<Rightarrow> h[a := Layer k ps] | _ \<Rightarrow> h) as pss"
| "write_states h _ _ = h"

definition add_grad :: "tensor option \<Rightarrow> tensor \<Rightarrow> tensor" where
  "add_grad g d =
     (case g of None \<Rightarrow> d | Some g' \<Rightarrow> g'\<lparr>data := map (\<lambda>(u, v). u + v) (zip (data g') (data d))\<rparr>)"

definition backward ::
  "framework \<Rightarrow> heap \<Rightarrow> nat list \<Rightarrow> nat \<Rightarrow> real \<Rightarrow> real \<Rightarrow> error + heap" where
  "backward F h ms input_img style_weight content_weight =
     (case h ! input_img of
        Tensor t g \<Rightarrow>
          (case autograd F h ms t style_weight content_weight of
             (d, states) \<Rightarrow>
               Inr ((write_states h ms states)[input_img := Tensor t (Some (add_grad g d))]))
      | _ \<Rightarrow> Inl (AttributeError ''object is not a tensor''))"

text \<open>
  What the closure of \<open>run_style_transfer\<close> captures: the model, the two lists of loss
  modules, the image, the optimiser's parameters and the two weights.
\<close>

record transfer_env =
  env_model :: "(string \<times> nat) list"
  env_style_losses :: "nat list"
  env_content_losses :: "nat list"
  env_input_img :: nat
  env_params :: "nat list"
  env_style_weight :: real
  env_content_weight :: real

text \<open>
  \<^verbatim>\<open>
        def closure():
            input_img.data.clamp_(0, 1)
            optimizer.zero_grad()
            model(input_img)
            style_score = 0
            content_score = 0
            for sl in style_losses:
                style_score += sl.loss
            for cl in content_losses:
                content_score += cl.loss
            style_score *= style_weight
            content_score *= content_weight
            loss = style_score + content_score
            loss.backward()
            run[0] += 1
            if run[0] % 50 == 0:
                print("run {}:".format(run))
                print('Style Loss : {:4f} Content Loss: {:4f}'.format(
                    style_score.item(), content_score.item()))
                print()
            return style_score + content_score
  \<close>
  The closure returns its value with the heap and the counter \<open>run[0]\<close> after the call.
  A score over an empty list is the Python integer \<open>0\<close>, which has neither \<open>backward\<close> nor
  \<open>item\<close>: these are the two \<open>AttributeError\<close> branches.  Printing is not modelled.
\<close>

definition closure :: "framework \<Rightarrow> transfer_env \<Rightarrow> heap \<Rightarrow> nat \<Rightarrow> error + real \<times> heap \<times> nat" where
  "closure F env h run =
     (case clamp_inplace h (env_input_img env) of
        Inl e \<Rightarrow> Inl e
      | Inr h1 \<Rightarrow>
          (case zero_grad h1 (env_params env) ! env_input_img env of
             Tensor x _ \<Rightarrow>
               (case seq_forward F (zero_grad h1 (env_params env)) (map snd (env_model env)) x of
                  Inl e \<Rightarrow> Inl e
                | Inr (_, h3) \<Rightarrow>
                    (case sum_losses h3 (env_style_losses env) of
                       Inl e \<Rightarrow> Inl e
                     | Inr style_sum \<Rightarrow>
                         (case sum_losses h3 (env_content_losses env) of
                            Inl e \<Rightarrow> Inl e
                          | Inr content_sum \<Rightarrow>
                              if env_style_losses env = [] \<and> env_content_losses env = []
                              then Inl (AttributeError ''int object has no attribute backward'')
                              else
                                (case backward F h3 (map snd (env_model env)) (env_input_img env)
                                        (env_style_weight env) (env_content_weight env) of
                                   Inl e \<Rightarrow> Inl e
                                 | Inr h4 \<Rightarrow>
                                     if (run + 1) mod 50 = 0 \<and>
                                        (env_style_losses env = [] \<or> env_content_losses env = [])
                                     then Inl (AttributeError ''int object has no attribute item'')
                                     else Inr (style_sum * env_style_weight env +
                                               content_sum * env_content_weight env,
                                               h4, run + 1)))))
           | _ \<Rightarrow> Inl (TypeError ''model input is not a tensor'')))"

text \<open>
  \<open>optimizer.step(closure)\<close> for L-BFGS: the closure is evaluated once; then, at most
  \<open>max_iter = 20\<close> times, the parameters are updated in place and, unless the step is
  finished, the closure is evaluated again.
\<close>

fun read_params :: "heap \<Rightarrow> nat list \<Rightarrow> error + (tensor \<times> tensor option) list" where
  "read_params h [] = Inr []"
| "read_params h (p # ps) =
     (case h ! p of
        Tensor t g \<Rightarrow> (case read_params h ps of Inl e \<Rightarrow> Inl e | Inr r \<Rightarrow> Inr ((t, g) # r))
      | _ \<Rightarrow> Inl (TypeError ''optimizer can only optimize Tensors''))"

fun write_params :: "heap \<Rightarrow> nat list \<Rightarrow> tensor list \<Rightarrow> heap" where
  "write_params h (p # ps) (v # vs) =
     write_params (case h ! p of Tensor _ g \<Rightarrow> h[p := Tensor v g] | _ \<Rightarrow> h) ps vs"
| "write_params h _ _ = h"

fun lbfgs_iterate ::
  "framework \<Rightarrow> transfer_env \<Rightarrow> nat \<Rightarrow> tensor list \<Rightarrow> real \<Rightarrow> heap \<Rightarrow> nat
     \<Rightarrow> error + heap \<times> nat \<times> tensor list" where
  "lbfgs_iterate F env 0 st l h run = Inr (h, run, st)"
| "lbfgs_iterate F env (Suc k) st l h run =
     (case read_params h (env_params env) of
        Inl e \<Rightarrow> Inl e
      | Inr ps \<Rightarrow>
          (case lbfgs F st l ps of
             (finished, vs, st') \<Rightarrow>
               if finished \<or> k = 0 then Inr (write_params h (env_params env) vs, run, st')
               else
                 (case closure F env (write_params h (env_params env) vs) run of
                    Inl e \<Rightarrow> Inl e
                  | Inr (l', h', run') \<Rightarrow> lbfgs_iterate F env k st' l' h' run')))"

definition step :: "framework \<Rightarrow> transfer_env \<Rightarrow> tensor list \<Rightarrow> heap \<Rightarrow> nat
     \<Rightarrow> error + heap \<times> nat \<times> tensor list" where
  "step F env st h run =
     (case closure F env h run of
        Inl e \<Rightarrow> Inl e
      | Inr (l, h', run') \<Rightarrow> lbfgs_iterate F env 20 st l h' run')"

text \<open>
  Every call of the closure increments \<open>run[0]\<close>, and a step calls the closure at least
  once: this is why the loop of \<open>run_style_transfer\<close> terminates.
\<close>

lemma closure_run: "closure F env h run = Inr (l, h', run') \<Longrightarrow> run' = run + 1"
  by (auto simp: closure_def split: sum.splits obj.splits if_splits prod.splits)

lemma lbfgs_iterate_run: "lbfgs_iterate F env k st l h run = Inr (h', run', st') \<Longrightarrow> run \<le> run'"
proof (induction k arbitrary: st l h run)
  case 0
  then show ?case by simp
next
  case (Suc k)
  then show ?case
    by (fastforce split: sum.splits prod.splits if_splits dest: closure_run)
qed

lemma step_run: "step F env st h run = Inr (h', run', st') \<Longrightarrow> run < run'"
  by (auto simp: step_def split: sum.splits prod.splits dest!: closure_run lbfgs_iterate_run)

text \<open>
  \<^verbatim>\<open>
    run = [0]
    while run[0] <= num_steps:
        def closure(): ...
        optimizer.step(closure)
  \<close>
\<close>

function optimize ::
  "framework \<Rightarrow> transfer_env \<Rightarrow> nat \<Rightarrow> tensor list \<Rightarrow> heap \<Rightarrow> nat
     \<Rightarrow> error + heap \<times> nat \<times> tensor list" where
  "optimize F env num_steps st h run =
     (if run \<le> num_steps then
        (case step F env st h run of
           Inl e \<Rightarrow> Inl e
         | Inr (h', run', st') \<Rightarrow> optimize F env num_steps st' h' run')
      else Inr (h, run, st))"
  by pat_completeness auto
termination
  by (relation "measure (\<lambda>(F, env, num_steps, st, h, run). Suc num_steps - run)")
     (auto dest!: step_run)

declare optimize.simps [simp del]

text \<open>
  \<^verbatim>\<open>
  def run_style_transfer(cnn, normalization_mean, normalization_std,
                         content_img, style_img, input_img, num_steps=300,
                         style_weight=1000000, content_weight=1):
      model, style_losses, content_losses = get_style_model_and_losses(cnn,
          normalization_mean, normalization_std, style_img, content_img)
      optimizer = get_input_optimizer(input_img)
      run = [0]
      while run[0] <= num_steps: ...
      input_img.data.clamp_(0, 1)
      return input_img
  \<close>
  The image is an object of the heap; the content and the style image are only read and
  are passed as values.  The result is the returned object with the heap after the call.
\<close>

definition run_style_transfer ::
  "framework \<Rightarrow> heap \<Rightarrow> nat list \<Rightarrow> tensor \<Rightarrow> tensor \<Rightarrow> tensor \<Rightarrow> tensor \<Rightarrow> nat \<Rightarrow> nat \<Rightarrow> real
     \<Rightarrow> real \<Rightarrow> error + nat \<times> heap" where
  "run_style_transfer F h cnn normalization_mean normalization_std content_img style_img
       input_img num_steps style_weight content_weight =
     (case get_style_model_and_losses F h cnn normalization_mean normalization_std
             style_img content_img content_layers_default style_layers_default of
        Inl e \<Rightarrow> Inl e
      | Inr (h1, model, style_losses, content_losses) \<Rightarrow>
          (case optimize F
                  \<lparr>env_model = model, env_style_losses = style_losses,
                   env_content_losses = content_losses, env_input_img = input_img,
                   env_params = params (get_input_optimizer input_img),
                   env_style_weight = style_weight, env_content_weight = content_weight\<rparr>
                  num_steps (opt_state (get_input_optimizer input_img)) h1 0 of
             Inl e \<Rightarrow> Inl e
           | Inr (h2, run, st) \<Rightarrow>
               (case clamp_inplace h2 input_img of
                  Inl e \<Rightarrow> Inl e
                | Inr h3 \<Rightarrow> Inr (input_img, h3))))"

section \<open>Notions used to state the properties of the optimisation\<close>






text \<open>
  A call leaves the caller's objects alone, but for the image: the heap keeps its length,
  and every object that existed before the style transfer started (an address below
  \<open>base\<close>) other than the image \<open>i\<close> is unchanged.
\<close>

definition frame_ok :: "nat \<Rightarrow> nat \<Rightarrow> heap \<Rightarrow> heap \<Rightarrow> bool" where
  "frame_ok base i h h' = (length h' = length h \<and> (\<forall>a<base. a \<noteq> i \<longrightarrow> h' ! a = h ! a))"

section \<open>The classifier notebook\<close>

text \<open>
  The layers and functions that \<open>Net\<close> uses, with the arguments of their constructors:
  \<open>nn.Conv2d(in, out, kernel)\<close>, \<open>nn.BatchNorm2d(features)\<close>, \<open>nn.MaxPool2d(kernel, stride)\<close>,
  \<open>nn.Linear(in, out)\<close>, \<open>nn.BatchNorm1d(features)\<close>, \<open>F.relu\<close>,
  \<open>F.dropout(x, training=...)\<close> and \<open>x.view(-1, features)\<close>.
\<close>

datatype op =
    Conv2d_op nat nat nat
  | BatchNorm2d_op nat
  | MaxPool2d_op nat nat
  | Linear_op nat nat
  | BatchNorm1d_op nat
  | relu
  | dropout bool
  | view_rows nat

text \<open>
  \<^verbatim>\<open>
  class Net(nn.Module):
      def __init__(self):
          self.conv1 = nn.Conv2d(1, 64, 3)
          self.b1    = nn.BatchNorm2d(64)
          self.pool  = nn.MaxPool2d(2, 2)
          self.conv2 = nn.Conv2d(64, 128, 3)
          self.b2    = nn.BatchNorm2d(128)
          self.conv3 = nn.Conv2d(128, 128, 3)
          self.b3    = nn.BatchNorm2d(128)
          self.fcn1 = nn.Linear(128 * 1 * 1, 52)
          self.bfn1 = nn.BatchNorm1d(52)
          self.fcn2 = nn.Linear(52, 10)
  \<close>
  A module is created in training mode.
\<close>

record net =
  conv1 :: op
  b1 :: op
  pool :: op
  conv2 :: op
  b2 :: op
  conv3 :: op
  b3 :: op
  fcn1 :: op
  bfn1 :: op
  fcn2 :: op
  training :: bool

definition Net_init :: net where
  "Net_init =
     \<lparr>conv1 = Conv2d_op 1 64 3, b1 = BatchNorm2d_op 64, pool = MaxPool2d_op 2 2,
      conv2 = Conv2d_op 64 128 3, b2 = BatchNorm2d_op 128,
      conv3 = Conv2d_op 128 128 3, b3 = BatchNorm2d_op 128,
      fcn1 = Linear_op (128 * 1 * 1) 52, bfn1 = BatchNorm1d_op 52, fcn2 = Linear_op 52 10,
      training = True\<rparr>"

text \<open>
  \<^verbatim>\<open>
      def num_flat_features(self, x):
          size = x.size()[1:]
          num_features = 1
          for s in size:
              num_features *= s
          return num_features
  \<close>
\<close>

definition num_flat_features :: "nat list \<Rightarrow> nat" where
  "num_flat_features x_size = foldl (\<lambda>num_features s. num_features * s) 1 (tl x_size)"

text \<open>
  The framework applies a layer or function to a value; doing so may fail, and may change
  the state of the framework (the buffers of the batch normalisations).  The values \<open>'x\<close>
  and the state \<open>'s\<close> are left open: tensors with the weights, or shapes only.
  \<^verbatim>\<open>
      def forward(self, x):
          x = self.pool(F.relu(self.b1(self.conv1(x))))
          x = self.pool(F.relu(self.b2(self.conv2(x))))
          x = self.pool(F.relu(self.b3(self.conv3(x))))
          x = x.view(-1, self.num_flat_features(x))
          x = F.relu(self.bfn1(self.fcn1(x)))
          x = F.dropout(x, training=self.training)
          x = self.fcn2(x)
          return x
  \<close>
\<close>

definition call :: "('s \<Rightarrow> op \<Rightarrow> 'x \<Rightarrow> error + 'x \<times> 's) \<Rightarrow> op \<Rightarrow> error + 'x \<times> 's \<Rightarrow> error + 'x \<times> 's" where
  "call ap f arg = (case arg of Inl e \<Rightarrow> Inl e | Inr (x, s) \<Rightarrow> ap s f x)"

definition Net_forward ::
  "('s \<Rightarrow> op \<Rightarrow> 'x \<Rightarrow> error + 'x \<times> 's) \<Rightarrow> ('x \<Rightarrow> nat list) \<Rightarrow> net \<Rightarrow> 's \<Rightarrow> 'x
     \<Rightarrow> error + 'x \<times> 's" where
  "Net_forward ap size_of self s x =
     (case call ap (pool self) (call ap relu (call ap (b1 self) (call ap (conv1 self) (Inr (x, s))))) of
        Inl e \<Rightarrow> Inl e
      | Inr (x1, s1) \<Rightarrow>
     (case call ap (pool self) (call ap relu (call ap (b2 self) (call ap (conv2 self) (Inr (x1, s1))))) of
        Inl e \<Rightarrow> Inl e
      | Inr (x2, s2) \<Rightarrow>
     (case call ap (pool self) (call ap relu (call ap (b3 self) (call ap (conv3 self) (Inr (x2, s2))))) of
        Inl e \<Rightarrow> Inl e
      | Inr (x3, s3) \<Rightarrow>
     (case ap s3 (view_rows (num_flat_features (size_of x3))) x3 of
        Inl e \<Rightarrow> Inl e
      | Inr (x4, s4) \<Rightarrow>
     (case call ap relu (call ap (bfn1 self) (call ap (fcn1 self) (Inr (x4, s4)))) of
        Inl e \<Rightarrow> Inl e
      | Inr (x5, s5) \<Rightarrow>
     (case ap s5 (dropout (training self)) x5 of
        Inl e \<Rightarrow> Inl e
      | Inr (x6, s6) \<Rightarrow> ap s6 (fcn2 self) x6))))))"

text \<open>
  The description of the network: a sequence of operations applied one after the other,
  a convolution block being a convolution, a batch normalisation, a ReLU and a max
  pooling.
\<close>

fun run_ops :: "('s \<Rightarrow> op \<Rightarrow> 'x \<Rightarrow> error + 'x \<times> 's) \<Rightarrow> op list \<Rightarrow> 's \<Rightarrow> 'x \<Rightarrow> error + 'x \<times> 's" where
  "run_ops ap [] s x = Inr (x, s)"
| "run_ops ap (f # fs) s x =
     (case ap s f x of Inl e \<Rightarrow> Inl e | Inr (y, s') \<Rightarrow> run_ops ap fs s' y)"

definition conv_block :: "nat \<Rightarrow> nat \<Rightarrow> op list" where
  "conv_block c_in c_out = [Conv2d_op c_in c_out 3, BatchNorm2d_op c_out, relu, MaxPool2d_op 2 2]"

text \<open>
  The shapes that the operations produce, as the framework documents them: a convolution
  without padding and with stride 1 shrinks height and width by \<open>kernel - 1\<close>, a pooling
  with kernel and stride 2 halves them (rounding down), \<open>view(-1, f)\<close> makes rows of \<open>f\<close>
  elements, a linear layer replaces the last dimension; the others keep the shape.  An
  operation refuses an input whose channels or features do not match.  These are the
  rules of the shapes alone: that a batch normalisation in training mode also refuses a
  batch with a single value per channel is left out.
\<close>

definition op_shape :: "'s \<Rightarrow> op \<Rightarrow> nat list \<Rightarrow> error + nat list \<times> 's" where
  "op_shape s f shp =
     (case f of
        Conv2d_op c_in c_out k \<Rightarrow>
          (case shp of
             [n, c, hh, ww] \<Rightarrow>
               if c = c_in \<and> k \<le> hh \<and> k \<le> ww then Inr ([n, c_out, hh - k + 1, ww - k + 1], s)
               else Inl (RuntimeError ''Given weight, expected input to have matching channels'')
           | _ \<Rightarrow> Inl (RuntimeError ''Expected 4-dimensional input for 4-dimensional weight''))
      | BatchNorm2d_op c' \<Rightarrow>
          (case shp of
             [n, c, hh, ww] \<Rightarrow>
               if c = c' then Inr (shp, s)
               else Inl (RuntimeError ''running_mean should contain matching number of elements'')
           | _ \<Rightarrow> Inl (ValueError ''expected 4D input''))
      | MaxPool2d_op k st \<Rightarrow>
          (case shp of
             [n, c, hh, ww] \<Rightarrow>
               if 0 < st \<and> k \<le> hh \<and> k \<le> ww
               then Inr ([n, c, (hh - k) div st + 1, (ww - k) div st + 1], s)
               else Inl (RuntimeError ''Output size is too small'')
           | _ \<Rightarrow> Inl (RuntimeError ''non-empty 4D input tensor expected''))
      | Linear_op f_in f_out \<Rightarrow>
          (if shp \<noteq> [] \<and> last shp = f_in then Inr (butlast shp @ [f_out], s)
           else Inl (RuntimeError ''size mismatch''))
      | BatchNorm1d_op c' \<Rightarrow>
          (case shp of
             [n, c] \<Rightarrow>
               if c = c' then Inr (shp, s)
               else Inl (RuntimeError ''running_mean should contain matching number of elements'')
           | _ \<Rightarrow> Inl (ValueError ''expected 2D or 3D input''))
      | relu \<Rightarrow> Inr (shp, s)
      | dropout _ \<Rightarrow> Inr (shp, s)
      | view_rows f' \<Rightarrow>
          (if 0 < f' \<and> prod_list shp mod f' = 0 then Inr ([prod_list shp div f', f'], s)
           else Inl (RuntimeError ''shape is invalid for input size'')))"

subsection \<open>Evaluation and training\<close>

text \<open>
  The loss functions and the optimisation algorithms of the framework that the notebook
  names, with their hyperparameters (\<open>lr\<close> and \<open>momentum\<close>).
  \<^verbatim>\<open>
  log_interval = 500
  criterion = nn.CrossEntropyLoss()
  optimizer = optim.SGD(model.parameters(), lr=0.001, momentum=0.9)
  \<close>
\<close>

datatype loss_fn = CrossEntropyLoss | MSELoss

datatype optim_alg = SGD real real | LBFGS

definition log_interval :: nat where
  "log_interval = 500"

definition criterion :: loss_fn where
  "criterion = CrossEntropyLoss"

definition optimizer_alg :: optim_alg where
  "optimizer_alg = SGD (1 / 1000) (9 / 10)"

text \<open>
  What the classifier notebook takes from the framework.  The state \<open>'s\<close> of the framework
  holds the parameters of the model, their gradients, the buffers and modes of the layers,
  the graph that a forward pass records, and the state of the optimiser over
  \<open>model.parameters()\<close>; \<open>'x\<close> are the tensors.  Labels are class indices.
\<close>

record ('s, 'x) torch =
  op_apply :: "'s \<Rightarrow> op \<Rightarrow> 'x \<Rightarrow> error + 'x \<times> 's"
  op_size :: "'x \<Rightarrow> nat list"
  module_train :: "bool \<Rightarrow> 's \<Rightarrow> 's"
  loss_apply :: "loss_fn \<Rightarrow> 's \<Rightarrow> 'x \<Rightarrow> nat list \<Rightarrow> error + real \<times> 's"
  loss_backward :: "'s \<Rightarrow> 's"
  optim_zero_grad :: "'s \<Rightarrow> 's"
  optim_step :: "optim_alg \<Rightarrow> 's \<Rightarrow> 's"
  argmax_rows :: "'x \<Rightarrow> error + nat list"

text \<open>The global variables of the notebook: \<open>model = Net()\<close> and what the framework holds.\<close>

record 's notebook =
  model_net :: net
  torch_state :: 's

text \<open>
  \<open>Module.train(mode)\<close> sets \<open>self.training\<close> of the module and of its children;
  \<open>Module.eval()\<close> is \<open>train(False)\<close>.
\<close>

definition Net_train :: "('s, 'x) torch \<Rightarrow> bool \<Rightarrow> 's notebook \<Rightarrow> 's notebook" where
  "Net_train T mode g =
     g\<lparr>model_net := (model_net g)\<lparr>training := mode\<rparr>,
       torch_state := module_train T mode (torch_state g)\<rparr>"

definition Net_call :: "('s, 'x) torch \<Rightarrow> 's notebook \<Rightarrow> 'x \<Rightarrow> error + 'x \<times> 's notebook" where
  "Net_call T g x =
     (case Net_forward (op_apply T) (op_size T) (model_net g) (torch_state g) x of
        Inl e \<Rightarrow> Inl e
      | Inr (y, s) \<Rightarrow> Inr (y, g\<lparr>torch_state := s\<rparr>))"

text \<open>
  \<^verbatim>\<open>
  model.eval()
  with torch.no_grad():
      for images_eval, labels_eval in testloader:
          images_eval, labels_eval = images_eval.to(device), labels_eval.to(device)
          outputs_eval = model(images_eval)
          #print(outputs_eval.shape) # shape[1] should be 128
  \<close>
  The loader is the list of its batches, each the images and the labels.  The result is
  the value of \<open>outputs_eval\<close> after the loop, if it was assigned.
\<close>

fun evaluation_batches ::
  "('s, 'x) torch \<Rightarrow> ('x \<times> nat list) list \<Rightarrow> 'x option \<times> 's notebook
     \<Rightarrow> error + 'x option \<times> 's notebook" where
  "evaluation_batches T [] (outputs_eval, g) = Inr (outputs_eval, g)"
| "evaluation_batches T ((images_eval, labels_eval) # rest) (outputs_eval, g) =
     (case Net_call T g images_eval of
        Inl e \<Rightarrow> Inl e
      | Inr (y, g') \<Rightarrow> evaluation_batches T rest (Some y, g'))"

definition evaluation_loop ::
  "('s, 'x) torch \<Rightarrow> 's notebook \<Rightarrow> ('x \<times> nat list) list \<Rightarrow> error + 'x option \<times> 's notebook" where
  "evaluation_loop T g testloader = evaluation_batches T testloader (None, Net_train T False g)"

text \<open>
  \<open>(predicted == labels).sum().item()\<close> on two 1-dimensional tensors: the comparison
  broadcasts a tensor of one element and refuses other tensors of different sizes.
\<close>

definition count_equal :: "nat list \<Rightarrow> nat list \<Rightarrow> error + nat" where
  "count_equal predicted labels =
     (if length predicted = length labels
      then Inr (length (filter (\<lambda>(p, l). p = l) (zip predicted labels)))
      else if length predicted = 1 then Inr (length (filter (\<lambda>l. hd predicted = l) labels))
      else if length labels = 1 then Inr (length (filter (\<lambda>p. p = hd labels) predicted))
      else Inl (RuntimeError ''The size of tensor a must match the size of tensor b''))"

text \<open>
  \<^verbatim>\<open>
  def train(epoch):
      model.train()
      running_loss = 0.0
      total = 0
      correct = 0.0
      for i, data in enumerate(testloader, 0):
          inputs, labels = data
          inputs, labels = inputs.to(device), labels.to(device)
          optimizer.zero_grad()
          model.train(True) # Set to Train mode
          outputs = model(inputs)
          loss = criterion(outputs, labels)
          loss.backward()
          optimizer.step()
          _, predicted = torch.max(outputs.data, 1)
          total += labels.size(0)
          correct += (predicted == labels).sum().item()
          running_loss += loss.item()
          if i % log_interval == 0:    # print every 200 mini-batches
              print('Train Epoch : %2d [%6d, %6d] loss: %.3f TrnAcc: %.3f' %
                    (epoch, total, len(testloader.dataset), running_loss / 2000, correct / total))
              running_loss = 0.0
  \<close>
  A printed line is kept as the five values that it formats.  The loader keeps the last,
  smaller batch, so the length of its dataset is the number of all labels.
\<close>

record train_locals =
  running_loss :: real
  total :: nat
  correct :: real

type_synonym log_line = "nat \<times> nat \<times> nat \<times> real \<times> real"

definition dataset_len :: "('x \<times> nat list) list \<Rightarrow> nat" where
  "dataset_len testloader = sum_list (map (\<lambda>(inputs, labels). length labels) testloader)"

definition train_batch ::
  "('s, 'x) torch \<Rightarrow> nat \<Rightarrow> nat \<Rightarrow> nat \<Rightarrow> 'x \<times> nat list
     \<Rightarrow> 's notebook \<times> train_locals \<times> log_line list
     \<Rightarrow> error + 's notebook \<times> train_locals \<times> log_line list" where
  "train_batch T epoch n i batch st =
     (case (batch, st) of ((inputs, labels), (g, loc, out)) \<Rightarrow>
        let g1 = g\<lparr>torch_state := optim_zero_grad T (torch_state g)\<rparr>;
            g2 = Net_train T True g1
        in case Net_call T g2 inputs of
             Inl e \<Rightarrow> Inl e
           | Inr (outputs, g3) \<Rightarrow>
        (case loss_apply T criterion (torch_state g3) outputs labels of
             Inl e \<Rightarrow> Inl e
           | Inr (loss_value, s4) \<Rightarrow>
        let s5 = loss_backward T s4;
            g6 = g3\<lparr>torch_state := optim_step T optimizer_alg s5\<rparr>
        in case argmax_rows T outputs of
             Inl e \<Rightarrow> Inl e
           | Inr predicted \<Rightarrow>
        let total' = total loc + length labels
        in case count_equal predicted labels of
             Inl e \<Rightarrow> Inl e
           | Inr c \<Rightarrow>
        let correct' = correct loc + real c;
            running_loss' = running_loss loc + loss_value
        in if i mod log_interval = 0
           then if total' = 0 then Inl (ZeroDivisionError ''float division by zero'')
                else Inr (g6, \<lparr>running_loss = 0, total = total', correct = correct'\<rparr>,
                          out @ [(epoch, total', n, running_loss' / 2000, correct' / real total')])
           else Inr (g6, \<lparr>running_loss = running_loss', total = total', correct = correct'\<rparr>, out)))"

fun train_batches ::
  "('s, 'x) torch \<Rightarrow> nat \<Rightarrow> nat \<Rightarrow> nat \<Rightarrow> ('x \<times> nat list) list
     \<Rightarrow> 's notebook \<times> train_locals \<times> log_line list
     \<Rightarrow> error + 's notebook \<times> train_locals \<times> log_line list" where
  "train_batches T epoch n i [] st = Inr st"
| "train_batches T epoch n i (batch # rest) st =
     (case train_batch T epoch n i batch st of
        Inl e \<Rightarrow> Inl e
      | Inr st' \<Rightarrow> train_batches T epoch n (i + 1) rest st')"

definition train ::
  "('s, 'x) torch \<Rightarrow> 's notebook \<Rightarrow> ('x \<times> nat list) list \<Rightarrow> nat
     \<Rightarrow> error + 's notebook \<times> log_line list" where
  "train T g testloader epoch =
     (case train_batches T epoch (dataset_len testloader) 0 testloader
             (Net_train T True g, \<lparr>running_loss = 0, total = 0, correct = 0\<rparr>, [])
      of Inl e \<Rightarrow> Inl e
       | Inr (g', loc, out) \<Rightarrow> Inr (g', out))"

text \<open>
  The description of the training: for every batch in turn, the gradients are cleared, the
  network is applied in training mode, the cross-entropy loss of its outputs against the
  labels is differentiated, and stochastic gradient descent takes a step.
\<close>

definition sgd_update :: "('s, 'x) torch \<Rightarrow> net \<Rightarrow> 's \<Rightarrow> 'x \<times> nat list \<Rightarrow> error + 's" where
  "sgd_update T m s batch =
     (case Net_forward (op_apply T) (op_size T) (m\<lparr>training := True\<rparr>)
             (module_train T True (optim_zero_grad T s)) (fst batch) of
        Inl e \<Rightarrow> Inl e
      | Inr (outputs, s') \<Rightarrow>
          (case loss_apply T CrossEntropyLoss s' outputs (snd batch) of
             Inl e \<Rightarrow> Inl e
           | Inr (l, s'') \<Rightarrow> Inr (optim_step T (SGD (1 / 1000) (9 / 10)) (loss_backward T s''))))"

fun sgd_epoch :: "('s, 'x) torch \<Rightarrow> net \<Rightarrow> 's \<Rightarrow> ('x \<times> nat list) list \<Rightarrow> error + 's" where
  "sgd_epoch T m s [] = Inr s"
| "sgd_epoch T m s (batch # rest) =
     (case sgd_update T m s batch of Inl e \<Rightarrow> Inl e | Inr s' \<Rightarrow> sgd_epoch T m s' rest)"

text \<open>
  An instance of the framework that computes shapes only and counts the steps of the
  optimiser: a tensor is its shape, the state is the number of steps taken.  The loss
  wants one row of scores for each label, \<open>torch.max(x, 1)\<close> a 2-dimensional tensor.
\<close>

definition shape_torch :: "(nat, nat list) torch" where
  "shape_torch =
     \<lparr>op_apply = op_shape,
      op_size = (\<lambda>x. x),
      module_train = (\<lambda>mode s. s),
      loss_apply = (\<lambda>c s x labels.
         case x of [n, k] \<Rightarrow> if n = length labels then Inr (0, s)
                              else Inl (ValueError ''Expected input batch_size to match target batch_size'')
                 | _ \<Rightarrow> Inl (ValueError ''Expected 2 or 4 dimensions'')),
      loss_backward = (\<lambda>s. s),
      optim_zero_grad = (\<lambda>s. s),
      optim_step = (\<lambda>alg s. Suc s),
      argmax_rows = (\<lambda>x. case x of [n, k] \<Rightarrow> Inr (replicate n 0)
                                  | _ \<Rightarrow> Inl (RuntimeError ''Dimension out of range''))\<rparr>"

section \<open>Lemmas on row-major indexing\<close>

lemma row_major_index_less: "i < m \<Longrightarrow> j < p \<Longrightarrow> i * p + j < m * (p::nat)"
proof -
  assume a: "i < m" "j < p"
  then have "i * p + j < i * p + p" by simp
  also have "\<dots> = Suc i * p" by simp
  also have "\<dots> \<le> m * p" using a(1) by (intro mult_le_mono1) simp
  finally show ?thesis .
qed

lemma length_concat_rows:
  "length (concat (map (\<lambda>i. map (f i) [0..<p]) [0..<m])) = m * p"
  by (induction m) simp_all

lemma nth_concat_rows:
  "i < m \<Longrightarrow> j < p \<Longrightarrow> concat (map (\<lambda>i. map (f i) [0..<p]) [0..<m]) ! (i * p + j) = f i j"
proof (induction m)
  case 0
  then show ?case by simp
next
  case (Suc m)
  show ?case
  proof (cases "i < m")
    case True
    then have "i * p + j < m * p"
      using Suc.prems(2) by (rule row_major_index_less)
    with True Suc show ?thesis
      by (simp add: nth_append length_concat_rows)
  next
    case False
    with Suc.prems have "i = m" by simp
    with Suc.prems show ?thesis
      by (simp add: nth_append length_concat_rows)
  qed
qed


lemma gram_matrix_4d:
  assumes "shape input = [a, b, c, d]"
  shows "gram_matrix input = Inr
    \<lparr>shape = [a * b, a * b],
     data = map (\<lambda>v. v / real (a * b * c * d))
       (concat (map (\<lambda>i. map (\<lambda>j.
          sum_list (map (\<lambda>k. data input ! (i * (c * d) + k) *
                 (concat (map (\<lambda>j. map (\<lambda>i. data input ! (i * (c * d) + j)) [0..<a * b])
                    [0..<c * d])) ! (k * (a * b) + j)) [0..<c * d]))
          [0..<a * b]) [0..<a * b]))\<rparr>"
  using assms
  by (simp add: gram_matrix_def view_def numel_def tensor_t_def mm_def tensor_div_def mult.assoc)

lemma inner_nth:
  "length u = n \<Longrightarrow> length v = n \<Longrightarrow> inner u v = sum_list (map (\<lambda>k. u ! k * v ! k) [0..<n])"
proof -
  assume l: "length u = n" "length v = n"
  have "map (\<lambda>(p, q). p * q) (zip u v) = map (\<lambda>k. u ! k * v ! k) [0..<n]"
    using l by (intro nth_equalityI) simp_all
  then show ?thesis by (simp add: inner_def)
qed

lemma feature_row_nth:
  assumes "length xs = r * n" "i < r" "k < n"
  shows "length (take n (drop (i * n) xs)) = n" "take n (drop (i * n) xs) ! k = xs ! (i * n + k)"
proof -
  have "i * n + n \<le> r * n"
    using assms(2) by (metis Suc_leI mult_Suc mult_le_mono1 add.commute)
  then show "length (take n (drop (i * n) xs)) = n" using assms(1) by simp
  show "take n (drop (i * n) xs) ! k = xs ! (i * n + k)"
    using assms \<open>i * n + n \<le> r * n\<close> by simp
qed

lemma feature_row_length:
  assumes "length xs = r * n" "i < r"
  shows "length (take n (drop (i * n) xs)) = n"
proof -
  have "i * n + n \<le> r * n"
    using assms(2) by (metis Suc_leI mult_Suc mult_le_mono1 add.commute)
  then show ?thesis using assms(1) by simp
qed

text \<open>
  Claim C5: for every 4-dimensional input of size \<open>(a, b, c, d)\<close>, \<open>gram_matrix\<close> returns
  the inner-product matrix of the flattened feature maps: with \<open>F\<close> the input reshaped to
  an \<open>(a*b) \<times> (c*d)\<close> matrix, entry \<open>(i, j)\<close> of the result is the inner product of rows
  \<open>i\<close> and \<open>j\<close> of \<open>F\<close> divided by \<open>a*b*c*d\<close>.  (Elements are real numbers; the
  tensor is non-empty, so that the division is a proper one.)
\<close>

theorem gram_matrix_inner_product:
  assumes sh: "shape input = [a, b, c, d]" and wf: "wf_tensor input"
    and nonempty: "0 < a * b * c * d"
  shows "gram_matrix input = Inr (gram_spec input a b c d)"
proof -
  let ?r = "a * b" and ?n = "c * d"
  let ?xs = "data input"
  have len: "length ?xs = ?r * ?n"
    using sh wf by (simp add: wf_tensor_def numel_def mult.assoc)
  have cell: "sum_list (map (\<lambda>k. ?xs ! (i * ?n + k) *
                 (concat (map (\<lambda>j. map (\<lambda>i. ?xs ! (i * ?n + j)) [0..<?r]) [0..<?n]))
                    ! (k * ?r + j)) [0..<?n])
        = inner (feature_rows input ?r ?n ! i) (feature_rows input ?r ?n ! j)"
    if "i < ?r" "j < ?r" for i j
  proof -
    have "inner (feature_rows input ?r ?n ! i) (feature_rows input ?r ?n ! j)
        = inner (take ?n (drop (i * ?n) ?xs)) (take ?n (drop (j * ?n) ?xs))"
      using that by (simp add: feature_rows_def)
    also have "\<dots> = sum_list (map (\<lambda>k. take ?n (drop (i * ?n) ?xs) ! k *
                         take ?n (drop (j * ?n) ?xs) ! k) [0..<?n])"
      using that len by (intro inner_nth feature_row_length[where r = ?r])
    also have "\<dots> = sum_list (map (\<lambda>k. ?xs ! (i * ?n + k) * ?xs ! (j * ?n + k)) [0..<?n])"
      using that len
      by (intro arg_cong[where f = sum_list] map_cong refl)
         (simp add: feature_row_nth(2)[where r = ?r])
    also have "\<dots> = sum_list (map (\<lambda>k. ?xs ! (i * ?n + k) *
                 (concat (map (\<lambda>j. map (\<lambda>i. ?xs ! (i * ?n + j)) [0..<?r]) [0..<?n]))
                    ! (k * ?r + j)) [0..<?n])"
      using that
      by (intro arg_cong[where f = sum_list] map_cong refl) (simp add: nth_concat_rows)
    finally show ?thesis by simp
  qed
  have rows: "map (\<lambda>i. map (\<lambda>j. sum_list (map (\<lambda>k. ?xs ! (i * ?n + k) *
                 (concat (map (\<lambda>j. map (\<lambda>i. ?xs ! (i * ?n + j)) [0..<?r]) [0..<?n]))
                    ! (k * ?r + j)) [0..<?n])) [0..<?r]) [0..<?r]
      = map (\<lambda>i. map (\<lambda>j. inner (feature_rows input ?r ?n ! i) (feature_rows input ?r ?n ! j))
          [0..<?r]) [0..<?r]"
    by (rule map_cong[OF refl], rule map_cong[OF refl]) (simp add: cell)
  have "map (\<lambda>v. v / real (a * b * c * d))
       (concat (map (\<lambda>i. map (\<lambda>j. sum_list (map (\<lambda>k. ?xs ! (i * ?n + k) *
                 (concat (map (\<lambda>j. map (\<lambda>i. ?xs ! (i * ?n + j)) [0..<?r]) [0..<?n]))
                    ! (k * ?r + j)) [0..<?n])) [0..<?r]) [0..<?r]))
     = concat (map (\<lambda>i. map (\<lambda>j. inner (feature_rows input ?r ?n ! i)
            (feature_rows input ?r ?n ! j) / real (a * b * c * d)) [0..<?r]) [0..<?r])"
    unfolding rows by (simp add: map_concat comp_def)
  then show ?thesis
    unfolding gram_matrix_4d[OF sh] gram_spec_def Let_def by simp
qed


theorem gram_matrix_inner_product_witness:
  "shape \<lparr>shape = [1, 2, 1, 2], data = [1, 2, 3, 4]\<rparr> = [1, 2, 1, 2] \<and>
   wf_tensor \<lparr>shape = [1, 2, 1, 2], data = [1, 2, 3, 4]\<rparr> \<and> (0::nat) < 1 * 2 * 1 * 2 \<and>
   gram_matrix \<lparr>shape = [1, 2, 1, 2], data = [1, 2, 3, 4]\<rparr> =
     Inr \<lparr>shape = [2, 2], data = [5 / 4, 11 / 4, 11 / 4, 25 / 4]\<rparr>"
proof -
  let ?x = "\<lparr>shape = [1, 2, 1, 2], data = [1, 2, 3, 4]\<rparr>"
  have h1: "shape ?x = [1, 2, 1, 2]" by simp
  have h2: "wf_tensor ?x" by (simp add: wf_tensor_def numel_def)
  have h3: "(0::nat) < 1 * 2 * 1 * 2" by simp
  have "gram_spec ?x 1 2 1 2 = \<lparr>shape = [2, 2], data = [5 / 4, 11 / 4, 11 / 4, 25 / 4]\<rparr>"
    by (simp add: gram_spec_def feature_rows_def inner_def upt_rec[of _ "numeral _"])
  with gram_matrix_inner_product[OF h1 h2 h3] h1 h2 h3 show ?thesis by simp
qed

section \<open>Forward passes\<close>

lemma mse_loss_nonneg: "mse_loss x y = Inr l \<Longrightarrow> 0 \<le> l"
  by (auto simp: mse_loss_def split: if_splits intro!: divide_nonneg_nonneg sum_list_nonneg)

lemma ContentLoss_forward_Inr:
  "ContentLoss_forward m x = Inr (y, m') \<Longrightarrow>
     y = x \<and> target m' = target m \<and> (\<exists>l. mse_loss x (target m) = Inr l \<and> m' = m\<lparr>loss := Some l\<rparr>)"
  by (auto simp: ContentLoss_forward_def split: sum.splits)

lemma StyleLoss_forward_Inr:
  "StyleLoss_forward m x = Inr (y, m') \<Longrightarrow>
     y = x \<and> target m' = target m \<and>
     (\<exists>G l. gram_matrix x = Inr G \<and> mse_loss G (target m) = Inr l \<and> m' = m\<lparr>loss := Some l\<rparr>)"
  by (auto simp: StyleLoss_forward_def split: sum.splits)

lemma module_forward_frame:
  assumes "module_forward F h a x = Inr (y, h')"
  shows "length h' = length h" and "b \<noteq> a \<Longrightarrow> h' ! b = h ! b"
    and "map immutable_part h' = map immutable_part h"
proof -
  have *: "\<exists>ob. h' = h[a := ob] \<and> immutable_part ob = immutable_part (h ! a)"
  proof (cases "h ! a")
    case (Normalization mean std)
    with assms have "h' = h"
      by (auto simp: module_forward_def split: sum.splits)
    then have "h' = h[a := h ! a]" by simp
    then show ?thesis by blast
  qed (use assms in \<open>auto simp: module_forward_def split: sum.splits prod.splits
             dest!: ContentLoss_forward_Inr StyleLoss_forward_Inr\<close>)
  then obtain ob where ob: "h' = h[a := ob]" "immutable_part ob = immutable_part (h ! a)" by blast
  show "length h' = length h" using ob by simp
  show "b \<noteq> a \<Longrightarrow> h' ! b = h ! b" using ob by simp
  show "map immutable_part h' = map immutable_part h"
  proof (cases "a < length h")
    case True
    then have "(map immutable_part h)[a := immutable_part (h ! a)] = map immutable_part h"
      by (metis list_update_id nth_map)
    with ob show ?thesis by (simp add: map_update)
  next
    case False
    then have "h[a := ob] = h" by (simp add: list_update_beyond)
    with ob show ?thesis by simp
  qed
qed

lemma module_forward_loss_identity:
  "module_forward F h a x = Inr (y, h') \<Longrightarrow> is_loss (h ! a) \<Longrightarrow> y = x"
  by (cases "h ! a")
     (auto simp: module_forward_def split: sum.splits prod.splits
           dest!: ContentLoss_forward_Inr StyleLoss_forward_Inr)

lemma seq_forward_frame:
  "seq_forward F h ms x = Inr (y, h') \<Longrightarrow>
     length h' = length h \<and> map immutable_part h' = map immutable_part h \<and>
     (\<forall>b. b \<notin> set ms \<longrightarrow> h' ! b = h ! b)"
proof (induction ms arbitrary: h x)
  case Nil
  then show ?case by simp
next
  case (Cons a ms)
  from Cons.prems obtain z h1 where
    s1: "module_forward F h a x = Inr (z, h1)" and s2: "seq_forward F h1 ms z = Inr (y, h')"
    by (auto split: sum.splits prod.splits)
  from Cons.IH[OF s2] module_forward_frame[OF s1] show ?case by auto
qed

lemma is_loss_immutable_part: "is_loss (immutable_part ob) = is_loss ob"
  by (cases ob) auto

lemma is_loss_of_immutable:
  "map immutable_part h' = map immutable_part h \<Longrightarrow> a < length h \<Longrightarrow> is_loss (h' ! a) = is_loss (h ! a)"
proof -
  assume m: "map immutable_part h' = map immutable_part h" and a: "a < length h"
  from m have l: "length h' = length h" by (metis length_map)
  from m a l have "immutable_part (h' ! a) = immutable_part (h ! a)"
    by (metis nth_map)
  then show ?thesis by (metis is_loss_immutable_part)
qed

lemma module_forward_local:
  assumes "module_forward F h a x = Inr (z, h1)" "a < length h" "g ! a = h ! a" "length g = length h"
  shows "module_forward F g a x = Inr (z, g[a := h1 ! a])"
proof (cases "h ! a")
  case (Normalization mean std)
  with assms have "h1 = h" "sub_div F x mean std = Inr z"
    by (auto simp: module_forward_def split: sum.splits)
  moreover have "g[a := h ! a] = g" using assms(3) by (metis list_update_id)
  ultimately show ?thesis using assms Normalization
    by (simp add: module_forward_def)
qed (use assms in \<open>auto simp: module_forward_def split: sum.splits prod.splits\<close>)

lemma seq_forward_skip_losses:
  assumes "seq_forward F h ms x = Inr (y, h')" "\<forall>k\<in>set ms. k < length h"
    and "length g = length h" "\<forall>k<length h. \<not> is_loss (h ! k) \<longrightarrow> g ! k = h ! k"
  shows "\<exists>g'. seq_forward F g (filter (\<lambda>k. \<not> is_loss (h ! k)) ms) x = Inr (y, g') \<and>
              length g' = length h' \<and> (\<forall>k<length h'. \<not> is_loss (h' ! k) \<longrightarrow> g' ! k = h' ! k)"
  using assms
proof (induction ms arbitrary: h g x)
  case Nil
  then show ?case by simp
next
  case (Cons a ms)
  from Cons.prems(1) obtain z h1 where
    s1: "module_forward F h a x = Inr (z, h1)" and s2: "seq_forward F h1 ms z = Inr (y, h')"
    by (auto split: sum.splits prod.splits)
  note fr = module_forward_frame[OF s1]
  have a: "a < length h" using Cons.prems(2) by simp
  have same: "is_loss (h1 ! k) = is_loss (h ! k)" if "k < length h" for k
    using fr(3) that by (rule is_loss_of_immutable)
  have filt: "filter (\<lambda>k. \<not> is_loss (h ! k)) ms = filter (\<lambda>k. \<not> is_loss (h1 ! k)) ms"
    using Cons.prems(2) same by (intro filter_cong refl) simp
  have ms1: "\<forall>k\<in>set ms. k < length h1" using Cons.prems(2) fr(1) by simp
  show ?case
  proof (cases "is_loss (h ! a)")
    case True
    then have zx: "z = x" using s1 by (rule module_forward_loss_identity[rotated])
    have rel: "\<forall>k<length h1. \<not> is_loss (h1 ! k) \<longrightarrow> g ! k = h1 ! k"
    proof (intro allI impI)
      fix k assume k: "k < length h1" "\<not> is_loss (h1 ! k)"
      then have "k \<noteq> a" using True same[of a] a by auto
      then show "g ! k = h1 ! k" using fr(2)[of k] k Cons.prems(4) same[of k] fr(1) by simp
    qed
    from Cons.IH[OF s2 ms1 _ rel] Cons.prems(3) fr(1) True zx filt show ?thesis by simp
  next
    case False
    then have ga: "g ! a = h ! a" using Cons.prems(4) a by simp
    have g1: "module_forward F g a x = Inr (z, g[a := h1 ! a])"
      using s1 a ga Cons.prems(3) by (rule module_forward_local)
    have rel: "\<forall>k<length h1. \<not> is_loss (h1 ! k) \<longrightarrow> g[a := h1 ! a] ! k = h1 ! k"
    proof (intro allI impI)
      fix k assume k: "k < length h1" "\<not> is_loss (h1 ! k)"
      show "g[a := h1 ! a] ! k = h1 ! k"
      proof (cases "k = a")
        case True
        then show ?thesis using a Cons.prems(3) by simp
      next
        case False
        then show ?thesis using fr(2)[of k] k Cons.prems(4) same[of k] fr(1) by simp
      qed
    qed
    have len: "length (g[a := h1 ! a]) = length h1" using Cons.prems(3) fr(1) by simp
    from Cons.IH[OF s2 ms1 len rel] False g1 filt show ?thesis by simp
  qed
qed

section \<open>The loss modules\<close>

text \<open>
  Claim C6: the content loss and the style loss recorded at a layer are scalars measuring
  activation similarity and Gram-matrix similarity.  \<open>ContentLoss.forward\<close> stores
  \<open>loss = mse_loss(input, target)\<close>, and the target that the builder gives the module is
  the activation of the content image at that point of the model; \<open>StyleLoss.forward\<close>
  stores \<open>loss = mse_loss(gram_matrix(input), target)\<close>, and the target that the builder
  gives the module is the Gram matrix of the activation of the style image.  Both losses
  are non-negative real numbers.
\<close>

theorem loss_modules_record_mse:
  "(mse_loss x tgt = Inr lc \<longrightarrow>
      ContentLoss_forward (ContentLoss_init tgt) x = Inr (x, \<lparr>target = tgt, loss = Some lc\<rparr>) \<and>
      0 \<le> lc) \<and>
   (gram_matrix target_feature = Inr Gt \<and> gram_matrix x = Inr G \<and> mse_loss G Gt = Inr ls \<longrightarrow>
      StyleLoss_init target_feature = Inr \<lparr>target = Gt, loss = None\<rparr> \<and>
      StyleLoss_forward \<lparr>target = Gt, loss = None\<rparr> x = Inr (x, \<lparr>target = Gt, loss = Some ls\<rparr>) \<and>
      0 \<le> ls) \<and>
   (add_content_loss F content_img st = Inr st' \<longrightarrow>
      (\<exists>act h1. seq_forward F (st_heap st) (map snd (st_model st)) content_img = Inr (act, h1) \<and>
         st_heap st' = h1 @ [ContentLoss \<lparr>target = act, loss = None\<rparr>] \<and>
         st_content_losses st' = st_content_losses st @ [length h1])) \<and>
   (add_style_loss F style_img st = Inr st'' \<longrightarrow>
      (\<exists>act h1 Gs. seq_forward F (st_heap st) (map snd (st_model st)) style_img = Inr (act, h1) \<and>
         gram_matrix act = Inr Gs \<and>
         st_heap st'' = h1 @ [StyleLoss \<lparr>target = Gs, loss = None\<rparr>] \<and>
         st_style_losses st'' = st_style_losses st @ [length h1]))"
  by (auto simp: ContentLoss_forward_def ContentLoss_init_def StyleLoss_init_def
        StyleLoss_forward_def add_content_loss_def add_style_loss_def alloc_def
      dest: mse_loss_nonneg split: sum.splits prod.splits)

theorem loss_modules_record_mse_witness:
  "mse_loss \<lparr>shape = [1, 1, 1, 2], data = [0, 1]\<rparr> \<lparr>shape = [1, 1, 1, 2], data = [1, 3]\<rparr> = Inr (5 / 2) \<and>
   ContentLoss_forward (ContentLoss_init \<lparr>shape = [1, 1, 1, 2], data = [1, 3]\<rparr>)
       \<lparr>shape = [1, 1, 1, 2], data = [0, 1]\<rparr>
     = Inr (\<lparr>shape = [1, 1, 1, 2], data = [0, 1]\<rparr>,
            \<lparr>target = \<lparr>shape = [1, 1, 1, 2], data = [1, 3]\<rparr>, loss = Some (5 / 2)\<rparr>) \<and>
   gram_matrix \<lparr>shape = [1, 1, 1, 2], data = [1, 3]\<rparr> = Inr \<lparr>shape = [1, 1], data = [5]\<rparr> \<and>
   gram_matrix \<lparr>shape = [1, 1, 1, 2], data = [0, 1]\<rparr> = Inr \<lparr>shape = [1, 1], data = [1 / 2]\<rparr> \<and>
   mse_loss \<lparr>shape = [1, 1], data = [1 / 2]\<rparr> \<lparr>shape = [1, 1], data = [5]\<rparr> = Inr (81 / 4) \<and>
   StyleLoss_forward \<lparr>target = \<lparr>shape = [1, 1], data = [5]\<rparr>, loss = None\<rparr>
       \<lparr>shape = [1, 1, 1, 2], data = [0, 1]\<rparr>
     = Inr (\<lparr>shape = [1, 1, 1, 2], data = [0, 1]\<rparr>,
            \<lparr>target = \<lparr>shape = [1, 1], data = [5]\<rparr>, loss = Some (81 / 4)\<rparr>) \<and>
   add_content_loss sample_framework \<lparr>shape = [1, 1, 1, 2], data = [1, 3]\<rparr>
       \<lparr>st_heap = [Layer (ReLU False) []], st_model = [(''relu_0'', 0)], st_i = 0,
        st_content_losses = [], st_style_losses = []\<rparr>
     = Inr \<lparr>st_heap = [Layer (ReLU False) [],
                       ContentLoss \<lparr>target = \<lparr>shape = [1, 1, 1, 2], data = [1, 3]\<rparr>, loss = None\<rparr>],
            st_model = [(''relu_0'', 0), (''content_loss_0'', 1)], st_i = 0,
            st_content_losses = [1], st_style_losses = []\<rparr> \<and>
   add_style_loss sample_framework \<lparr>shape = [1, 1, 1, 2], data = [1, 3]\<rparr>
       \<lparr>st_heap = [Layer (ReLU False) []], st_model = [(''relu_0'', 0)], st_i = 0,
        st_content_losses = [], st_style_losses = []\<rparr>
     = Inr \<lparr>st_heap = [Layer (ReLU False) [],
                       StyleLoss \<lparr>target = \<lparr>shape = [1, 1], data = [5]\<rparr>, loss = None\<rparr>],
            st_model = [(''relu_0'', 0), (''style_loss_0'', 1)], st_i = 0,
            st_content_losses = [], st_style_losses = [1]\<rparr>"
proof -
  let ?x = "\<lparr>shape = [1, 1, 1, 2], data = [0, 1]\<rparr>" and ?t = "\<lparr>shape = [1, 1, 1, 2], data = [1, 3]\<rparr>"
  let ?st = "\<lparr>st_heap = [Layer (ReLU False) []], st_model = [(''relu_0'', 0)], st_i = 0,
        st_content_losses = [], st_style_losses = []\<rparr>"
  have m: "mse_loss ?x ?t = Inr (5 / 2)"
    by (simp add: mse_loss_def numel_def power2_eq_square)
  have g1: "gram_matrix ?t = Inr \<lparr>shape = [1, 1], data = [5]\<rparr>"
    by (simp add: gram_matrix_4d upt_rec[of _ "numeral _"])
  have g2: "gram_matrix ?x = Inr \<lparr>shape = [1, 1], data = [1 / 2]\<rparr>"
    by (simp add: gram_matrix_4d upt_rec[of _ "numeral _"])
  have m2: "mse_loss \<lparr>shape = [1, 1], data = [1 / 2]\<rparr> \<lparr>shape = [1, 1], data = [5]\<rparr> = Inr (81 / 4)"
    by (simp add: mse_loss_def numel_def power2_eq_square)
  have c: "add_content_loss sample_framework ?t ?st
     = Inr \<lparr>st_heap = [Layer (ReLU False) [],
                       ContentLoss \<lparr>target = ?t, loss = None\<rparr>],
            st_model = [(''relu_0'', 0), (''content_loss_0'', 1)], st_i = 0,
            st_content_losses = [1], st_style_losses = []\<rparr>"
    by (simp add: add_content_loss_def module_forward_def sample_framework_def
          sample_apply_layer_def alloc_def ContentLoss_init_def format_nat.simps digit_def)
  have s: "add_style_loss sample_framework ?t ?st
     = Inr \<lparr>st_heap = [Layer (ReLU False) [],
                       StyleLoss \<lparr>target = \<lparr>shape = [1, 1], data = [5]\<rparr>, loss = None\<rparr>],
            st_model = [(''relu_0'', 0), (''style_loss_0'', 1)], st_i = 0,
            st_content_losses = [], st_style_losses = [1]\<rparr>"
    by (simp add: add_style_loss_def module_forward_def sample_framework_def
          sample_apply_layer_def alloc_def StyleLoss_init_def gram_matrix_4d
          upt_rec[of _ "numeral _"] format_nat.simps digit_def)
  from loss_modules_record_mse[of ?x ?t "5 / 2" ?t "\<lparr>shape = [1, 1], data = [5]\<rparr>"
      "\<lparr>shape = [1, 1], data = [1 / 2]\<rparr>" "81 / 4" sample_framework ?t ?st _ ?t] m g1 g2 m2 c s
  show ?thesis by (simp add: ContentLoss_init_def)
qed

text \<open>
  Claim C9, as amended: whenever \<open>ContentLoss.forward\<close> or \<open>StyleLoss.forward\<close> returns, it
  returns its input itself.  \<open>ContentLoss.forward\<close> returns for every input of the shape of
  its target, and \<open>StyleLoss.forward\<close> for every 4-dimensional input of size
  \<open>(a, b, c, d)\<close> when its target is an \<open>(a*b) \<times> (a*b)\<close> matrix; on every input that is
  not 4-dimensional \<open>StyleLoss.forward\<close> raises \<open>ValueError\<close>.  A forward pass of a
  \<open>Sequential\<close> that succeeds has the output of the pass over the same container without
  its loss modules.
\<close>

theorem loss_modules_transparent:
  "(ContentLoss_forward cm x = Inr (y, cm') \<longrightarrow> y = x) \<and>
   (StyleLoss_forward sm x = Inr (y, sm') \<longrightarrow> y = x) \<and>
   (shape u = shape (target cm) \<longrightarrow> (\<exists>l. ContentLoss_forward cm u = Inr (u, cm\<lparr>loss := Some l\<rparr>))) \<and>
   (shape v = [a, b, c, d] \<and> shape (target sm) = [a * b, a * b] \<longrightarrow>
      (\<exists>l. StyleLoss_forward sm v = Inr (v, sm\<lparr>loss := Some l\<rparr>))) \<and>
   (seq_forward F h ms w = Inr (z, h') \<and> (\<forall>k\<in>set ms. k < length h) \<longrightarrow>
      (\<exists>g'. seq_forward F h (filter (\<lambda>k. \<not> is_loss (h ! k)) ms) w = Inr (z, g'))) \<and>
   (length (shape t) \<noteq> 4 \<longrightarrow> (\<exists>msg. StyleLoss_forward sm t = Inl (ValueError msg)))"
proof (intro conjI impI)
  show "\<exists>msg. StyleLoss_forward sm t = Inl (ValueError msg)" if "length (shape t) \<noteq> 4"
  proof -
    have "gram_matrix t = Inl (ValueError ''wrong number of values to unpack (expected 4)'')"
      using that by (auto simp: gram_matrix_def split: list.splits)
    then show ?thesis by (simp add: StyleLoss_forward_def)
  qed
next
  show "y = x" if "ContentLoss_forward cm x = Inr (y, cm')"
    using ContentLoss_forward_Inr[OF that] by simp
  show "y = x" if "StyleLoss_forward sm x = Inr (y, sm')"
    using StyleLoss_forward_Inr[OF that] by simp
  show "\<exists>l. ContentLoss_forward cm u = Inr (u, cm\<lparr>loss := Some l\<rparr>)"
    if "shape u = shape (target cm)"
    using that by (auto simp: ContentLoss_forward_def mse_loss_def)
  show "\<exists>l. StyleLoss_forward sm v = Inr (v, sm\<lparr>loss := Some l\<rparr>)"
    if "shape v = [a, b, c, d] \<and> shape (target sm) = [a * b, a * b]"
    using that by (auto simp: StyleLoss_forward_def gram_matrix_4d mse_loss_def)
  show "\<exists>g'. seq_forward F h (filter (\<lambda>k. \<not> is_loss (h ! k)) ms) w = Inr (z, g')"
    if "seq_forward F h ms w = Inr (z, h') \<and> (\<forall>k\<in>set ms. k < length h)"
    using seq_forward_skip_losses[of F h ms w z h' h] that by auto
qed

text \<open>
  The claim as written, "for every input tensor", fails: on an input that is not
  4-dimensional, \<open>StyleLoss.forward\<close> raises the \<open>ValueError\<close> of the unpacking in
  \<open>gram_matrix\<close> and returns nothing.
\<close>

theorem StyleLoss_forward_raises:
  "StyleLoss_forward \<lparr>target = \<lparr>shape = [1, 1], data = [0]\<rparr>, loss = None\<rparr>
      \<lparr>shape = [2, 2], data = [1, 2, 3, 4]\<rparr>
   = Inl (ValueError ''wrong number of values to unpack (expected 4)'')"
  by (simp add: StyleLoss_forward_def gram_matrix_def)

theorem loss_modules_transparent_witness:
  "ContentLoss_forward \<lparr>target = \<lparr>shape = [1, 1, 1, 2], data = [1, 3]\<rparr>, loss = None\<rparr>
       \<lparr>shape = [1, 1, 1, 2], data = [0, 1]\<rparr>
     = Inr (\<lparr>shape = [1, 1, 1, 2], data = [0, 1]\<rparr>,
            \<lparr>target = \<lparr>shape = [1, 1, 1, 2], data = [1, 3]\<rparr>, loss = Some (5 / 2)\<rparr>) \<and>
   StyleLoss_forward \<lparr>target = \<lparr>shape = [1, 1], data = [5]\<rparr>, loss = None\<rparr>
       \<lparr>shape = [1, 1, 1, 2], data = [0, 1]\<rparr>
     = Inr (\<lparr>shape = [1, 1, 1, 2], data = [0, 1]\<rparr>,
            \<lparr>target = \<lparr>shape = [1, 1], data = [5]\<rparr>, loss = Some (81 / 4)\<rparr>) \<and>
   seq_forward sample_framework
       [Layer (ReLU False) [], ContentLoss \<lparr>target = \<lparr>shape = [1, 1, 1, 2], data = [1, 3]\<rparr>, loss = None\<rparr>,
        Layer MaxPool2d []]
       [0, 1, 2] \<lparr>shape = [1, 1, 1, 2], data = [0, 1]\<rparr>
     = Inr (\<lparr>shape = [1, 1, 1, 2], data = [0, 1]\<rparr>,
            [Layer (ReLU False) [],
             ContentLoss \<lparr>target = \<lparr>shape = [1, 1, 1, 2], data = [1, 3]\<rparr>, loss = Some (5 / 2)\<rparr>,
             Layer MaxPool2d []]) \<and>
   (\<exists>g'. seq_forward sample_framework
       [Layer (ReLU False) [], ContentLoss \<lparr>target = \<lparr>shape = [1, 1, 1, 2], data = [1, 3]\<rparr>, loss = None\<rparr>,
        Layer MaxPool2d []]
       [0, 2] \<lparr>shape = [1, 1, 1, 2], data = [0, 1]\<rparr>
     = Inr (\<lparr>shape = [1, 1, 1, 2], data = [0, 1]\<rparr>, g')) \<and>
   (\<exists>msg. StyleLoss_forward \<lparr>target = \<lparr>shape = [1, 1], data = [5]\<rparr>, loss = None\<rparr>
       \<lparr>shape = [1, 1, 2], data = [0, 1]\<rparr> = Inl (ValueError msg))"
proof -
  let ?x = "\<lparr>shape = [1, 1, 1, 2], data = [0, 1]\<rparr>"
  let ?cm = "\<lparr>target = \<lparr>shape = [1, 1, 1, 2], data = [1, 3]\<rparr>, loss = None\<rparr>"
  let ?sm = "\<lparr>target = \<lparr>shape = [1, 1], data = [5]\<rparr>, loss = None\<rparr>"
  let ?h = "[Layer (ReLU False) [], ContentLoss ?cm, Layer MaxPool2d []]"
  let ?h' = "[Layer (ReLU False) [], ContentLoss (?cm\<lparr>loss := Some (5 / 2)\<rparr>), Layer MaxPool2d []]"
  have c: "ContentLoss_forward ?cm ?x = Inr (?x, ?cm\<lparr>loss := Some (5 / 2)\<rparr>)"
    by (simp add: ContentLoss_forward_def mse_loss_def numel_def power2_eq_square)
  have s: "StyleLoss_forward ?sm ?x = Inr (?x, ?sm\<lparr>loss := Some (81 / 4)\<rparr>)"
    by (simp add: StyleLoss_forward_def gram_matrix_4d upt_rec[of _ "numeral _"] mse_loss_def
          numel_def power2_eq_square)
  have f: "seq_forward sample_framework ?h [0, 1, 2] ?x = Inr (?x, ?h')"
    by (simp add: module_forward_def sample_framework_def sample_apply_layer_def
          ContentLoss_forward_def mse_loss_def numel_def power2_eq_square)
  have k: "\<forall>k\<in>set [0, 1, 2]. k < length ?h" by simp
  have d: "length (shape \<lparr>shape = [1, 1, 2], data = [0, 1 :: real]\<rparr>) \<noteq> 4" by simp
  from loss_modules_transparent[of ?cm ?x ?x "?cm\<lparr>loss := Some (5 / 2)\<rparr>" ?sm
      "?sm\<lparr>loss := Some (81 / 4)\<rparr>" ?x ?x 1 1 1 2 sample_framework ?h "[0, 1, 2]" ?x ?x ?h'
      "\<lparr>shape = [1, 1, 2], data = [0, 1]\<rparr>"]
    c s f k d
  show ?thesis by simp
qed

section \<open>The scan of the children\<close>

lemma heap_extends_refl: "heap_extends h h"
  by (simp add: heap_extends_def)

lemma heap_extends_trans: "heap_extends h1 h2 \<Longrightarrow> heap_extends h2 h3 \<Longrightarrow> heap_extends h1 h3"
  by (auto simp: heap_extends_def)

lemma heap_extends_append: "heap_extends h (h @ obs)"
  by (simp add: heap_extends_def nth_append)

lemma heap_extends_forward:
  assumes "seq_forward F h ms x = Inr (y, h')" shows "heap_extends h h'"
proof -
  from seq_forward_frame[OF assms] have l: "length h' = length h"
    and m: "map immutable_part h' = map immutable_part h" by auto
  have "immutable_part (h' ! a) = immutable_part (h ! a)" if "a < length h" for a
    using m l that by (metis nth_map)
  then show ?thesis using l by (simp add: heap_extends_def)
qed

lemma class_name_immutable_part: "class_name (immutable_part ob) = class_name ob"
  by (cases ob rule: class_name.cases) auto

lemma recognised_immutable_part: "recognised (immutable_part ob) = recognised ob"
  by (cases ob rule: recognised.cases) auto

lemma is_conv_immutable_part: "is_conv (immutable_part ob) = is_conv ob"
  by (cases ob rule: is_conv.cases) auto

lemma is_relu_immutable_part: "is_relu (immutable_part ob) = is_relu ob"
  by (cases ob rule: is_relu.cases) auto

lemma heap_extends_same:
  assumes "heap_extends h h'" "a < length h"
  shows "class_name (h' ! a) = class_name (h ! a)" "recognised (h' ! a) = recognised (h ! a)"
    "is_conv (h' ! a) = is_conv (h ! a)" "is_relu (h' ! a) = is_relu (h ! a)"
    "is_loss (h' ! a) = is_loss (h ! a)"
proof -
  from assms have e: "immutable_part (h' ! a) = immutable_part (h ! a)"
    by (simp add: heap_extends_def)
  show "class_name (h' ! a) = class_name (h ! a)" using e by (metis class_name_immutable_part)
  show "recognised (h' ! a) = recognised (h ! a)" using e by (metis recognised_immutable_part)
  show "is_conv (h' ! a) = is_conv (h ! a)" using e by (metis is_conv_immutable_part)
  show "is_relu (h' ! a) = is_relu (h ! a)" using e by (metis is_relu_immutable_part)
  show "is_loss (h' ! a) = is_loss (h ! a)" using e by (metis is_loss_immutable_part)
qed

lemma name_layer_Inr:
  assumes "name_layer h i a = Inr (i', name, la, h1)"
  shows "recognised (h ! a)"
    and "i' = (if is_conv (h ! a) then i + 1 else i)"
    and "if is_relu (h ! a) then la = length h \<and> h1 = h @ [Layer (ReLU False) []] else la = a \<and> h1 = h"
    and "name = (case h ! a of Layer Conv2d _ \<Rightarrow> ''conv_'' | Layer (ReLU _) _ \<Rightarrow> ''relu_''
                  | Layer MaxPool2d _ \<Rightarrow> ''pool_'' | _ \<Rightarrow> ''bn_'') @ format_nat i'"
  using assms
  by (auto simp: name_layer_def alloc_def split: obj.splits layer_kind.splits)

lemma name_layer_Inl:
  assumes "name_layer h i a = Inl e"
  shows "\<not> recognised (h ! a)" and "e = RuntimeError (''Unrecognized layer: '' @ class_name (h ! a))"
  using assms
  by (auto simp: name_layer_def alloc_def split: obj.splits layer_kind.splits)

lemma name_layer_total: "recognised (h ! a) \<Longrightarrow> \<exists>r. name_layer h i a = Inr r"
  by (cases "h ! a" rule: recognised.cases) (auto simp: name_layer_def alloc_def)

lemma add_content_loss_Inr:
  assumes "add_content_loss F cimg st = Inr st'"
  obtains act h1 where "seq_forward F (st_heap st) (map snd (st_model st)) cimg = Inr (act, h1)"
    and "st' = st\<lparr>st_heap := h1 @ [ContentLoss \<lparr>target = act, loss = None\<rparr>],
                   st_model := add_module (st_model st) (''content_loss_'' @ format_nat (st_i st)) (length h1),
                   st_content_losses := st_content_losses st @ [length h1]\<rparr>"
  using assms
  by (auto simp: add_content_loss_def alloc_def ContentLoss_init_def split: sum.splits prod.splits)

lemma add_style_loss_Inr:
  assumes "add_style_loss F simg st = Inr st'"
  obtains act h1 G where "seq_forward F (st_heap st) (map snd (st_model st)) simg = Inr (act, h1)"
    and "gram_matrix act = Inr G"
    and "st' = st\<lparr>st_heap := h1 @ [StyleLoss \<lparr>target = G, loss = None\<rparr>],
                   st_model := add_module (st_model st) (''style_loss_'' @ format_nat (st_i st)) (length h1),
                   st_style_losses := st_style_losses st @ [length h1]\<rparr>"
  using assms
  by (auto simp: add_style_loss_def alloc_def StyleLoss_init_def split: sum.splits prod.splits)

lemma scan_layer_Inr:
  assumes "scan_layer F cl sl cimg simg st a = Inr st'"
  obtains i' name la h1 st2 where
    "name_layer (st_heap st) (st_i st) a = Inr (i', name, la, h1)"
    "if name \<in> set cl
     then add_content_loss F cimg (st\<lparr>st_heap := h1, st_i := i',
            st_model := add_module (st_model st) name la\<rparr>) = Inr st2
     else st2 = st\<lparr>st_heap := h1, st_i := i', st_model := add_module (st_model st) name la\<rparr>"
    "if name \<in> set sl then add_style_loss F simg st2 = Inr st' else st' = st2"
  using assms
  by (auto simp: scan_layer_def split: sum.splits prod.splits if_splits)

lemma add_content_loss_extends:
  assumes "add_content_loss F cimg st = Inr st'" shows "heap_extends (st_heap st) (st_heap st')"
proof -
  from assms obtain act h1 where f: "seq_forward F (st_heap st) (map snd (st_model st)) cimg = Inr (act, h1)"
    and s: "st_heap st' = h1 @ [ContentLoss \<lparr>target = act, loss = None\<rparr>]"
    by (auto elim!: add_content_loss_Inr)
  from heap_extends_forward[OF f] heap_extends_append[of h1] s show ?thesis
    by (metis heap_extends_trans)
qed

lemma add_style_loss_extends:
  assumes "add_style_loss F simg st = Inr st'" shows "heap_extends (st_heap st) (st_heap st')"
proof -
  from assms obtain act h1 G where f: "seq_forward F (st_heap st) (map snd (st_model st)) simg = Inr (act, h1)"
    and s: "st_heap st' = h1 @ [StyleLoss \<lparr>target = G, loss = None\<rparr>]"
    by (auto elim!: add_style_loss_Inr)
  from heap_extends_forward[OF f] heap_extends_append[of h1] s show ?thesis
    by (metis heap_extends_trans)
qed

lemma name_layer_extends:
  "name_layer h i a = Inr (i', name, la, h1) \<Longrightarrow> heap_extends h h1"
  by (drule name_layer_Inr(3)) (auto simp: heap_extends_refl heap_extends_append split: if_splits)

lemma scan_layer_extends:
  assumes "scan_layer F cl sl cimg simg st a = Inr st'"
  shows "heap_extends (st_heap st) (st_heap st')"
proof -
  from assms obtain i' name la h1 st2 where
    n: "name_layer (st_heap st) (st_i st) a = Inr (i', name, la, h1)" and
    c: "if name \<in> set cl
     then add_content_loss F cimg (st\<lparr>st_heap := h1, st_i := i',
            st_model := add_module (st_model st) name la\<rparr>) = Inr st2
     else st2 = st\<lparr>st_heap := h1, st_i := i', st_model := add_module (st_model st) name la\<rparr>" and
    s: "if name \<in> set sl then add_style_loss F simg st2 = Inr st' else st' = st2"
    by (rule scan_layer_Inr)
  have e1: "heap_extends (st_heap st) h1" using n by (rule name_layer_extends)
  have e2: "heap_extends h1 (st_heap st2)"
  proof (cases "name \<in> set cl")
    case True
    with c add_content_loss_extends[of F cimg "st\<lparr>st_heap := h1, st_i := i',
            st_model := add_module (st_model st) name la\<rparr>" st2]
    show ?thesis by simp
  next
    case False
    with c show ?thesis by (simp add: heap_extends_refl)
  qed
  have e3: "heap_extends (st_heap st2) (st_heap st')"
    using s add_style_loss_extends[of F simg st2 st']
    by (auto simp: heap_extends_refl split: if_splits)
  from e1 e2 e3 show ?thesis by (metis heap_extends_trans)
qed

lemma scan_layers_extends:
  "scan_layers F cl sl cimg simg st as = Inr st' \<Longrightarrow> heap_extends (st_heap st) (st_heap st')"
proof (induction as arbitrary: st)
  case Nil
  then show ?case by (simp add: heap_extends_refl)
next
  case (Cons a as)
  then show ?case
    by (auto split: sum.splits dest!: scan_layer_extends intro: heap_extends_trans)
qed

lemma deepcopy_children:
  assumes "deepcopy h cnn = (cnn', h1)"
  shows "cnn' = map (\<lambda>k. length h + k) [0..<length cnn]"
    and "h1 = h @ map (\<lambda>a. h ! a) cnn"
    and "k < length cnn \<Longrightarrow> h1 ! (length h + k) = h ! (cnn ! k)"
  using assms by (auto simp: deepcopy_def nth_append)

lemma scan_layers_append:
  "scan_layers F cl sl cimg simg st (xs @ ys) =
     (case scan_layers F cl sl cimg simg st xs of
        Inl e \<Rightarrow> Inl e
      | Inr st1 \<Rightarrow> scan_layers F cl sl cimg simg st1 ys)"
  by (induction xs arbitrary: st) (simp_all split: sum.splits)

lemma scan_layers_Inl_iff:
  "scan_layers F cl sl cimg simg st as = Inl e \<longleftrightarrow>
     (\<exists>k<length as. \<exists>st'. scan_layers F cl sl cimg simg st (take k as) = Inr st' \<and>
        scan_layer F cl sl cimg simg st' (as ! k) = Inl e)"
proof
  assume "scan_layers F cl sl cimg simg st as = Inl e"
  then show "\<exists>k<length as. \<exists>st'. scan_layers F cl sl cimg simg st (take k as) = Inr st' \<and>
        scan_layer F cl sl cimg simg st' (as ! k) = Inl e"
  proof (induction as arbitrary: st)
    case Nil
    then show ?case by simp
  next
    case (Cons a as)
    show ?case
    proof (cases "scan_layer F cl sl cimg simg st a")
      case (Inl e')
      with Cons.prems have "scan_layer F cl sl cimg simg st a = Inl e" by simp
      then have "scan_layers F cl sl cimg simg st (take 0 (a # as)) = Inr st \<and>
          scan_layer F cl sl cimg simg st ((a # as) ! 0) = Inl e" by simp
      then show ?thesis by blast
    next
      case (Inr st1)
      with Cons.prems have "scan_layers F cl sl cimg simg st1 as = Inl e" by simp
      from Cons.IH[OF this] obtain k st' where k: "k < length as"
        "scan_layers F cl sl cimg simg st1 (take k as) = Inr st'"
        "scan_layer F cl sl cimg simg st' (as ! k) = Inl e" by blast
      then have "Suc k < length (a # as) \<and>
          scan_layers F cl sl cimg simg st (take (Suc k) (a # as)) = Inr st' \<and>
          scan_layer F cl sl cimg simg st' ((a # as) ! Suc k) = Inl e"
        using Inr by simp
      then show ?thesis by blast
    qed
  qed
next
  assume "\<exists>k<length as. \<exists>st'. scan_layers F cl sl cimg simg st (take k as) = Inr st' \<and>
        scan_layer F cl sl cimg simg st' (as ! k) = Inl e"
  then obtain k st' where k: "k < length as"
    "scan_layers F cl sl cimg simg st (take k as) = Inr st'"
    "scan_layer F cl sl cimg simg st' (as ! k) = Inl e" by blast
  have "as = take k as @ (as ! k) # drop (Suc k) as" using k(1) by (simp add: id_take_nth_drop)
  then have "scan_layers F cl sl cimg simg st as =
      scan_layers F cl sl cimg simg st (take k as @ (as ! k) # drop (Suc k) as)" by simp
  also have "\<dots> = Inl e" using k(2,3) by (simp add: scan_layers_append)
  finally show "scan_layers F cl sl cimg simg st as = Inl e" .
qed

lemma scan_layers_prefix:
  assumes "scan_layers F cl sl cimg simg st as = Inr st'"
  shows "\<exists>st1. scan_layers F cl sl cimg simg st (take k as) = Inr st1"
proof -
  have "scan_layers F cl sl cimg simg st (take k as @ drop k as) = Inr st'" using assms by simp
  then show ?thesis unfolding scan_layers_append by (auto split: sum.splits)
qed

lemma scan_layer_Inl_iff:
  "scan_layer F cl sl cimg simg st a = Inl e \<longleftrightarrow>
     (if recognised (st_heap st ! a) then call_error F cl sl cimg simg st a = Some e
      else e = RuntimeError (''Unrecognized layer: '' @ class_name (st_heap st ! a)))"
proof (cases "name_layer (st_heap st) (st_i st) a")
  case (Inl e')
  from name_layer_Inl[OF Inl] Inl show ?thesis by (auto simp: scan_layer_def)
next
  case (Inr r)
  obtain i' name la h1 where r: "r = (i', name, la, h1)" by (cases r) auto
  from Inr r have rec: "recognised (st_heap st ! a)" by (auto dest: name_layer_Inr(1))
  show ?thesis
    using Inr r rec
    by (auto simp: scan_layer_def call_error_def forward_error_def target_error_def Let_def
          add_content_loss_def add_style_loss_def StyleLoss_init_def alloc_def
        split: sum.splits prod.splits option.splits)
qed


lemma scan_prefix_eq:
  "scan_prefix F h cnn nm ns simg cimg cl sl k =
     scan_layers F cl sl cimg simg
       \<lparr>st_heap = (h @ map (\<lambda>a. h ! a) cnn) @ [Normalization_init nm ns],
        st_model = [(''0'', length h + length cnn)], st_i = 0,
        st_content_losses = [], st_style_losses = []\<rparr>
       (take k (map (\<lambda>j. length h + j) [0..<length cnn]))"
  by (simp add: scan_prefix_def deepcopy_def alloc_def)

lemma scan_prefix_child:
  assumes "scan_prefix F h cnn nm ns simg cimg cl sl k = Inr st" "j < length cnn"
  shows "recognised (st_heap st ! (length h + j)) = recognised (h ! (cnn ! j))"
    and "class_name (st_heap st ! (length h + j)) = class_name (h ! (cnn ! j))"
proof -
  let ?h2 = "(h @ map (\<lambda>a. h ! a) cnn) @ [Normalization_init nm ns]"
  from assms(1) have ext: "heap_extends ?h2 (st_heap st)"
    unfolding scan_prefix_eq using scan_layers_extends by fastforce
  have l: "length h + j < length ?h2" using assms(2) by simp
  have c: "?h2 ! (length h + j) = h ! (cnn ! j)" using assms(2) by (simp add: nth_append)
  show "recognised (st_heap st ! (length h + j)) = recognised (h ! (cnn ! j))"
    using heap_extends_same(2)[OF ext l] c by simp
  show "class_name (st_heap st ! (length h + j)) = class_name (h ! (cnn ! j))"
    using heap_extends_same(1)[OF ext l] c by simp
qed

lemma builder_Inl_iff:
  "get_style_model_and_losses F h cnn nm ns simg cimg cl sl = Inl e \<longleftrightarrow>
     (\<exists>k<length cnn. \<exists>st. scan_prefix F h cnn nm ns simg cimg cl sl k = Inr st \<and>
        (if recognised (h ! (cnn ! k))
         then call_error F cl sl cimg simg st (length h + k) = Some e
         else e = RuntimeError (''Unrecognized layer: '' @ class_name (h ! (cnn ! k)))))"
proof -
  let ?st0 = "\<lparr>st_heap = (h @ map (\<lambda>a. h ! a) cnn) @ [Normalization_init nm ns],
        st_model = [(''0'', length h + length cnn)], st_i = 0,
        st_content_losses = [], st_style_losses = []\<rparr>"
  let ?cnn' = "map (\<lambda>j. length h + j) [0..<length cnn]"
  have "get_style_model_and_losses F h cnn nm ns simg cimg cl sl = Inl e \<longleftrightarrow>
      scan_layers F cl sl cimg simg ?st0 ?cnn' = Inl e"
    by (simp add: get_style_model_and_losses_def deepcopy_def alloc_def split: sum.splits)
  also have "\<dots> \<longleftrightarrow> (\<exists>k<length cnn. \<exists>st. scan_prefix F h cnn nm ns simg cimg cl sl k = Inr st \<and>
        scan_layer F cl sl cimg simg st (length h + k) = Inl e)"
    unfolding scan_layers_Inl_iff scan_prefix_eq by auto
  also have "\<dots> \<longleftrightarrow> (\<exists>k<length cnn. \<exists>st. scan_prefix F h cnn nm ns simg cimg cl sl k = Inr st \<and>
        (if recognised (h ! (cnn ! k))
         then call_error F cl sl cimg simg st (length h + k) = Some e
         else e = RuntimeError (''Unrecognized layer: '' @ class_name (h ! (cnn ! k)))))"
    unfolding scan_layer_Inl_iff using scan_prefix_child[of F h cnn nm ns simg cimg cl sl]
    by (intro ex_cong1 conj_cong refl) auto
  finally show ?thesis .
qed

lemma builder_Inr_prefix:
  assumes "get_style_model_and_losses F h cnn nm ns simg cimg cl sl = Inr res"
  shows "\<exists>st. scan_prefix F h cnn nm ns simg cimg cl sl k = Inr st"
proof -
  from assms obtain st where
    "scan_layers F cl sl cimg simg
       \<lparr>st_heap = (h @ map (\<lambda>a. h ! a) cnn) @ [Normalization_init nm ns],
        st_model = [(''0'', length h + length cnn)], st_i = 0,
        st_content_losses = [], st_style_losses = []\<rparr>
       (map (\<lambda>j. length h + j) [0..<length cnn]) = Inr st"
    by (auto simp: get_style_model_and_losses_def deepcopy_def alloc_def split: sum.splits)
  from scan_layers_prefix[OF this, of k] show ?thesis unfolding scan_prefix_eq .
qed

text \<open>
  Claim C10, as amended: \<open>get_style_model_and_losses\<close> raises an error exactly when the
  scan reaches a child on which it fails: a child that is not an instance of \<open>Conv2d\<close>,
  \<open>ReLU\<close>, \<open>MaxPool2d\<close> or \<open>BatchNorm2d\<close>, for which the error is
  \<open>RuntimeError('Unrecognized layer: <class>')\<close> with the class of that child, or a child of
  one of the four kinds for which a call that the scan makes raises (the forward pass of
  the partial model on the content or on the style image, or \<open>gram_matrix\<close> in the constructor
  of \<open>StyleLoss\<close>), for which the error is the error of that call.  So the function raises
  the \<open>RuntimeError\<close> that names the class of the first child that is not of the four kinds
  unless a call made while the children before it are scanned has raised; and when every
  child is of one of the four kinds, it returns the triple unless such a call raises.
\<close>

theorem unrecognised_layer_error:
  "(get_style_model_and_losses F h cnn nm ns simg cimg cl sl = Inl e \<longleftrightarrow>
      (\<exists>k<length cnn. \<exists>st. scan_prefix F h cnn nm ns simg cimg cl sl k = Inr st \<and>
         (if recognised (h ! (cnn ! k))
          then call_error F cl sl cimg simg st (length h + k) = Some e
          else e = RuntimeError (''Unrecognized layer: '' @ class_name (h ! (cnn ! k)))))) \<and>
   (k < length cnn \<and> \<not> recognised (h ! (cnn ! k)) \<and> (\<forall>j<k. recognised (h ! (cnn ! j))) \<and>
    (\<forall>j<k. \<forall>st. scan_prefix F h cnn nm ns simg cimg cl sl j = Inr st \<longrightarrow>
        call_error F cl sl cimg simg st (length h + j) = None) \<longrightarrow>
      get_style_model_and_losses F h cnn nm ns simg cimg cl sl
        = Inl (RuntimeError (''Unrecognized layer: '' @ class_name (h ! (cnn ! k))))) \<and>
   ((\<forall>a\<in>set cnn. recognised (h ! a)) \<and>
    (\<forall>j<length cnn. \<forall>st. scan_prefix F h cnn nm ns simg cimg cl sl j = Inr st \<longrightarrow>
        call_error F cl sl cimg simg st (length h + j) = None) \<longrightarrow>
      (\<exists>hb model style_losses content_losses.
         get_style_model_and_losses F h cnn nm ns simg cimg cl sl
           = Inr (hb, model, style_losses, content_losses)))"
proof (intro conjI impI)
  let ?R = "get_style_model_and_losses F h cnn nm ns simg cimg cl sl"
  show "?R = Inl e \<longleftrightarrow>
      (\<exists>k<length cnn. \<exists>st. scan_prefix F h cnn nm ns simg cimg cl sl k = Inr st \<and>
         (if recognised (h ! (cnn ! k))
          then call_error F cl sl cimg simg st (length h + k) = Some e
          else e = RuntimeError (''Unrecognized layer: '' @ class_name (h ! (cnn ! k)))))"
    by (rule builder_Inl_iff)
next
  let ?R = "get_style_model_and_losses F h cnn nm ns simg cimg cl sl"
  let ?U = "\<lambda>k. RuntimeError (''Unrecognized layer: '' @ class_name (h ! (cnn ! k)))"
  assume a: "k < length cnn \<and> \<not> recognised (h ! (cnn ! k)) \<and> (\<forall>j<k. recognised (h ! (cnn ! j))) \<and>
    (\<forall>j<k. \<forall>st. scan_prefix F h cnn nm ns simg cimg cl sl j = Inr st \<longrightarrow>
        call_error F cl sl cimg simg st (length h + j) = None)"
  show "?R = Inl (?U k)"
  proof (cases ?R)
    case (Inl e')
    then obtain k' st where k': "k' < length cnn"
      "scan_prefix F h cnn nm ns simg cimg cl sl k' = Inr st"
      "if recognised (h ! (cnn ! k'))
       then call_error F cl sl cimg simg st (length h + k') = Some e'
       else e' = ?U k'"
      unfolding builder_Inl_iff by blast
    have "\<not> k' < k" using a k' by auto
    moreover have "\<not> k < k'"
    proof
      assume lt: "k < k'"
      let ?cnn' = "map (\<lambda>j. length h + j) [0..<length cnn]"
      let ?st0 = "\<lparr>st_heap = (h @ map (\<lambda>a. h ! a) cnn) @ [Normalization_init nm ns],
        st_model = [(''0'', length h + length cnn)], st_i = 0,
        st_content_losses = [], st_style_losses = []\<rparr>"
      have s': "scan_layers F cl sl cimg simg ?st0 (take k' ?cnn') = Inr st"
        using k'(2) unfolding scan_prefix_eq .
      from scan_layers_prefix[OF s', of k] lt obtain st1 where
        s1: "scan_layers F cl sl cimg simg ?st0 (take k ?cnn') = Inr st1"
        by (auto simp: min_def)
      then have p1: "scan_prefix F h cnn nm ns simg cimg cl sl k = Inr st1"
        unfolding scan_prefix_eq .
      have "scan_layer F cl sl cimg simg st1 (length h + k) = Inl (?U k)"
        unfolding scan_layer_Inl_iff using scan_prefix_child[OF p1, of k] a by simp
      moreover have "take k (take k' ?cnn') = take k ?cnn'" "take k' ?cnn' ! k = length h + k"
        "k < length (take k' ?cnn')"
        using lt k'(1) by (simp_all add: min_def)
      ultimately have "scan_layers F cl sl cimg simg ?st0 (take k' ?cnn') = Inl (?U k)"
        using s1 unfolding scan_layers_Inl_iff[of F cl sl cimg simg ?st0 "take k' ?cnn'"]
        by metis
      with s' show False by simp
    qed
    ultimately have "k' = k" by simp
    with k'(3) a Inl show ?thesis by simp
  next
    case (Inr res)
    from builder_Inr_prefix[OF Inr, of k] obtain st where
      p: "scan_prefix F h cnn nm ns simg cimg cl sl k = Inr st" by blast
    with a have "?R = Inl (?U k)" unfolding builder_Inl_iff by auto
    with Inr show ?thesis by simp
  qed
next
  let ?R = "get_style_model_and_losses F h cnn nm ns simg cimg cl sl"
  assume a: "(\<forall>a\<in>set cnn. recognised (h ! a)) \<and>
    (\<forall>j<length cnn. \<forall>st. scan_prefix F h cnn nm ns simg cimg cl sl j = Inr st \<longrightarrow>
        call_error F cl sl cimg simg st (length h + j) = None)"
  show "\<exists>hb model style_losses content_losses. ?R = Inr (hb, model, style_losses, content_losses)"
  proof (cases ?R)
    case (Inl e')
    then obtain k' st where "k' < length cnn"
      "scan_prefix F h cnn nm ns simg cimg cl sl k' = Inr st"
      "if recognised (h ! (cnn ! k'))
       then call_error F cl sl cimg simg st (length h + k') = Some e'
       else e' = RuntimeError (''Unrecognized layer: '' @ class_name (h ! (cnn ! k')))"
      unfolding builder_Inl_iff by blast
    with a show ?thesis by auto
  next
    case (Inr res)
    then show ?thesis by (cases res) auto
  qed
qed


theorem unrecognised_layer_error_witness:
  "get_style_model_and_losses sample_framework
        [Layer Conv2d [\<lparr>shape = [1, 1, 1, 1], data = [2]\<rparr>, \<lparr>shape = [1], data = [- 3]\<rparr>],
         Layer (Other ''Linear'') []] [0, 1]
        \<lparr>shape = [1], data = [1]\<rparr> \<lparr>shape = [1], data = [1]\<rparr>
        \<lparr>shape = [1, 1, 1, 2], data = [0, 1]\<rparr> \<lparr>shape = [1, 1, 1, 2], data = [1, 3]\<rparr>
        content_layers_default style_layers_default
     = Inl (RuntimeError ''Unrecognized layer: Linear'') \<and>
   (\<exists>hb model style_losses content_losses.
      get_style_model_and_losses sample_framework
        [Layer Conv2d [\<lparr>shape = [1, 1, 1, 1], data = [2]\<rparr>, \<lparr>shape = [1], data = [- 3]\<rparr>],
         Layer (ReLU True) []] [0, 1]
        \<lparr>shape = [1], data = [1]\<rparr> \<lparr>shape = [1], data = [1]\<rparr>
        \<lparr>shape = [1, 1, 1, 2], data = [0, 1]\<rparr> \<lparr>shape = [1, 1, 1, 2], data = [1, 3]\<rparr>
        content_layers_default style_layers_default
      = Inr (hb, model, style_losses, content_losses)) \<and>
   get_style_model_and_losses sample_framework
        [Layer (ReLU True) [], Layer (Other ''Linear'') []] [0, 1]
        \<lparr>shape = [1], data = [1]\<rparr> \<lparr>shape = [1], data = [1]\<rparr>
        \<lparr>shape = [1, 1, 1, 2], data = [0, 1]\<rparr> \<lparr>shape = [2, 2], data = [1, 3, 0, 1]\<rparr>
        [''relu_0''] []
     = Inl (RuntimeError ''The size of tensor a must match the size of tensor b'')"
proof -
  let ?conv = "Layer Conv2d [\<lparr>shape = [1, 1, 1, 1], data = [2]\<rparr>, \<lparr>shape = [1], data = [- 3]\<rparr>]"
  let ?one = "\<lparr>shape = [1], data = [1]\<rparr>"
  let ?s = "\<lparr>shape = [1, 1, 1, 2], data = [0, 1]\<rparr>" and ?c = "\<lparr>shape = [1, 1, 1, 2], data = [1, 3]\<rparr>"
  let ?c2 = "\<lparr>shape = [2, 2], data = [1, 3, 0, 1]\<rparr>"
  let ?bad = "[?conv, Layer (Other ''Linear'') []]" and ?good = "[?conv, Layer (ReLU True) []]"
  let ?mis = "[Layer (ReLU True) [], Layer (Other ''Linear'') []]"
  note ev = scan_prefix_def call_error_def forward_error_def target_error_def Let_def
        deepcopy_def alloc_def Normalization_init_def add_content_loss_def
        scan_layer_def name_layer_def format_nat.simps digit_def content_layers_default_def
        style_layers_default_def add_style_loss_def module_forward_def sample_framework_def
        sample_sub_div_def sample_apply_layer_def conv2d_def numel_def StyleLoss_init_def
        gram_matrix_4d upt_rec[of _ "numeral _"]
  have b0: "\<forall>j<1. \<forall>st. scan_prefix sample_framework ?bad [0, 1] ?one ?one ?s ?c
                content_layers_default style_layers_default j = Inr st \<longrightarrow>
              call_error sample_framework content_layers_default style_layers_default ?c ?s st
                (length ?bad + j) = None"
    by (auto simp: ev)
  have g0: "\<forall>j<length [0, 1 :: nat]. \<forall>st. scan_prefix sample_framework ?good [0, 1] ?one ?one ?s ?c
                content_layers_default style_layers_default j = Inr st \<longrightarrow>
              call_error sample_framework content_layers_default style_layers_default ?c ?s st
                (length ?good + j) = None"
    by (auto simp: ev less_Suc_eq)
  have m0: "\<exists>st. scan_prefix sample_framework ?mis [0, 1] ?one ?one ?s ?c2 [''relu_0''] [] 0 = Inr st \<and>
              call_error sample_framework [''relu_0''] [] ?c2 ?s st (length ?mis + 0)
                = Some (RuntimeError ''The size of tensor a must match the size of tensor b'')"
    by (simp add: ev)
  note t = unrecognised_layer_error[where F = sample_framework and nm = ?one and ns = ?one
      and cnn = "[0, 1]"]
  have 1: "get_style_model_and_losses sample_framework ?bad [0, 1] ?one ?one ?s ?c
        content_layers_default style_layers_default = Inl (RuntimeError ''Unrecognized layer: Linear'')"
    using t[where h = ?bad and simg = ?s and cimg = ?c and cl = content_layers_default
        and sl = style_layers_default and k = 1, THEN conjunct2, THEN conjunct1] b0
    by simp
  have 2: "\<exists>hb model style_losses content_losses.
      get_style_model_and_losses sample_framework ?good [0, 1] ?one ?one ?s ?c
        content_layers_default style_layers_default = Inr (hb, model, style_losses, content_losses)"
    using t[where h = ?good and simg = ?s and cimg = ?c and cl = content_layers_default
        and sl = style_layers_default, THEN conjunct2, THEN conjunct2] g0
    by simp
  have 3: "get_style_model_and_losses sample_framework ?mis [0, 1] ?one ?one ?s ?c2 [''relu_0''] []
      = Inl (RuntimeError ''The size of tensor a must match the size of tensor b'')"
    using t[where h = ?mis and simg = ?s and cimg = ?c2 and cl = "[''relu_0'']"
        and sl = "[]" and e = "RuntimeError ''The size of tensor a must match the size of tensor b''",
        THEN conjunct1] m0
    by auto
  from 1 2 3 show ?thesis by simp
qed

text \<open>
  The claim as written fails in its "only if" half and in "completes normally": here the
  only child is a \<open>Conv2d\<close>, yet the call raises the framework's \<open>RuntimeError\<close>, because
  the convolution expects one channel and the images have three.
\<close>

theorem recognised_children_yet_error:
  "recognised (Layer Conv2d [\<lparr>shape = [1, 1, 1, 1], data = [2]\<rparr>, \<lparr>shape = [1], data = [- 3]\<rparr>]) \<and>
   get_style_model_and_losses sample_framework
        [Layer Conv2d [\<lparr>shape = [1, 1, 1, 1], data = [2]\<rparr>, \<lparr>shape = [1], data = [- 3]\<rparr>]] [0]
        \<lparr>shape = [3], data = [1, 1, 1]\<rparr> \<lparr>shape = [3], data = [1, 1, 1]\<rparr>
        \<lparr>shape = [1, 3, 1, 1], data = [0, 1, 2]\<rparr> \<lparr>shape = [1, 3, 1, 1], data = [0, 1, 2]\<rparr>
        content_layers_default style_layers_default
     = Inl (RuntimeError ''Given weight, expected input to have matching channels'')"
  by (simp add: get_style_model_and_losses_def deepcopy_def alloc_def Normalization_init_def
      scan_layer_def name_layer_def format_nat.simps digit_def content_layers_default_def
      style_layers_default_def add_style_loss_def module_forward_def sample_framework_def
      sample_sub_div_def sample_apply_layer_def conv2d_def numel_def)

section \<open>Names\<close>

lemma digit_inj: "m < 10 \<Longrightarrow> n < 10 \<Longrightarrow> (digit m = digit n) = (m = n)"
proof -
  assume "m < 10" "n < 10"
  moreover have "distinct ''0123456789''" by simp
  ultimately show ?thesis unfolding digit_def by (simp add: nth_eq_iff_index_eq)
qed

lemma format_nat_nonempty: "format_nat n \<noteq> []"
  by (subst format_nat.simps) simp

lemma format_nat_digit: "d < 10 \<Longrightarrow> (format_nat n = [digit d]) = (n = d)"
proof (cases "n < 10")
  case True
  assume "d < 10"
  with True show ?thesis by (subst format_nat.simps) (simp add: digit_inj)
next
  case False
  assume d: "d < 10"
  have "format_nat n = format_nat (n div 10) @ [digit (n mod 10)]"
    using False by (subst format_nat.simps) simp
  moreover have "format_nat (n div 10) \<noteq> []" by (rule format_nat_nonempty)
  ultimately have "format_nat n \<noteq> [digit d]" by (cases "format_nat (n div 10)") auto
  with False d show ?thesis by auto
qed

lemma digit_values:
  "digit 1 = CHR ''1''" "digit 2 = CHR ''2''" "digit 3 = CHR ''3''" "digit 4 = CHR ''4''"
  "digit 5 = CHR ''5''" "digit (Suc 0) = CHR ''1''"
  by (simp_all add: digit_def)

lemma conv_name_content: "(''conv_'' @ format_nat n \<in> set content_layers_default) = (n = 4)"
  using format_nat_digit[of 4 n] by (simp add: content_layers_default_def digit_values)

lemma conv_name_style:
  "(''conv_'' @ format_nat n \<in> set style_layers_default) = (1 \<le> n \<and> n \<le> 5)"
proof -
  have "(''conv_'' @ format_nat n \<in> set style_layers_default)
      = (format_nat n = [digit 1] \<or> format_nat n = [digit 2] \<or> format_nat n = [digit 3] \<or>
         format_nat n = [digit 4] \<or> format_nat n = [digit 5])"
    by (simp add: style_layers_default_def digit_values)
  also have "\<dots> = (n = 1 \<or> n = 2 \<or> n = 3 \<or> n = 4 \<or> n = 5)"
    by (simp add: format_nat_digit)
  also have "\<dots> = (1 \<le> n \<and> n \<le> 5)" by auto
  finally show ?thesis .
qed

lemma other_names_default:
  "''relu_'' @ s \<notin> set content_layers_default" "''relu_'' @ s \<notin> set style_layers_default"
  "''pool_'' @ s \<notin> set content_layers_default" "''pool_'' @ s \<notin> set style_layers_default"
  "''bn_'' @ s \<notin> set content_layers_default" "''bn_'' @ s \<notin> set style_layers_default"
  by (simp_all add: content_layers_default_def style_layers_default_def)

lemma layer_names_not_loss:
  "\<not> is_loss_name (''conv_'' @ s)" "\<not> is_loss_name (''relu_'' @ s)"
  "\<not> is_loss_name (''pool_'' @ s)" "\<not> is_loss_name (''bn_'' @ s)" "\<not> is_loss_name ''0''"
  by (simp_all add: is_loss_name_def)

lemma loss_names_loss:
  "is_loss_name (''content_loss_'' @ s)" "is_loss_name (''style_loss_'' @ s)"
  by (simp_all add: is_loss_name_def)

lemma default_loss_names_Suc:
  "default_loss_names (Suc n) = default_loss_names n @
     (if Suc n = 4 then [''content_loss_'' @ format_nat (Suc n)] else []) @
     (if Suc n \<le> 5 then [''style_loss_'' @ format_nat (Suc n)] else [])"
  by (simp add: default_loss_names_def)

lemma default_loss_names_0: "default_loss_names 0 = []"
  by (simp add: default_loss_names_def)

lemma length_default_loss_names:
  "length (default_loss_names n) = min n 5 + (if 4 \<le> n then 1 else 0)"
proof (induction n)
  case 0
  then show ?case by (simp add: default_loss_names_0)
next
  case (Suc n)
  then show ?case unfolding default_loss_names_Suc by (simp split: if_splits)
qed

lemma default_loss_names_set:
  "k \<in> set (default_loss_names n) \<Longrightarrow>
     (k = ''content_loss_'' @ format_nat 4 \<and> 4 \<le> n) \<or>
     (\<exists>j. 1 \<le> j \<and> j \<le> n \<and> j \<le> 5 \<and> k = ''style_loss_'' @ format_nat j)"
proof (induction n)
  case 0
  then show ?case by (simp add: default_loss_names_0)
next
  case (Suc n)
  from Suc.prems have "k \<in> set (default_loss_names n) \<or>
      (Suc n = 4 \<and> k = ''content_loss_'' @ format_nat (Suc n)) \<or>
      (Suc n \<le> 5 \<and> k = ''style_loss_'' @ format_nat (Suc n))"
    unfolding default_loss_names_Suc by (auto split: if_splits)
  then show ?case
  proof (elim disjE)
    assume "k \<in> set (default_loss_names n)"
    from Suc.IH[OF this] show ?thesis by auto
  next
    assume "Suc n = 4 \<and> k = ''content_loss_'' @ format_nat (Suc n)"
    then show ?thesis by simp
  next
    assume "Suc n \<le> 5 \<and> k = ''style_loss_'' @ format_nat (Suc n)"
    then show ?thesis by (intro disjI2 exI[of _ "Suc n"]) simp
  qed
qed

section \<open>The loss modules of the model\<close>

lemma add_module_fresh: "name \<notin> fst ` set m \<Longrightarrow> add_module m name a = m @ [(name, a)]"
  by (induction m) auto

lemma set_add_module: "set (add_module m name a) \<subseteq> insert (name, a) (set m)"
  by (induction m) (auto split: if_splits)

lemma filter_add_module_other:
  "\<not> P (name, a) \<Longrightarrow> \<forall>e\<in>set m. fst e = name \<longrightarrow> \<not> P e
     \<Longrightarrow> filter P (add_module m name a) = filter P m"
  by (induction m) auto

lemma loss_entries_heap_extends:
  assumes "heap_extends h h'" "\<forall>e\<in>set m. snd e < length h"
  shows "loss_entries h' m = loss_entries h m"
  unfolding loss_entries_def
  using assms heap_extends_same(5)[OF assms(1)] by (intro filter_cong refl) auto

lemma loss_inv_heap_extends:
  assumes "loss_inv ks h m" "heap_extends h h'"
  shows "loss_inv ks h' m"
proof -
  from assms(1) have v: "\<forall>e\<in>set m. snd e < length h" by (simp add: loss_inv_def)
  have same: "is_loss (h' ! snd e) = is_loss (h ! snd e)" if "e \<in> set m" for e
    using v that heap_extends_same(5)[OF assms(2)] by auto
  have "\<forall>e\<in>set m. snd e < length h'"
    using v assms(2) by (auto simp: heap_extends_def)
  moreover have "map fst (loss_entries h' m) = ks"
    using assms(1) loss_entries_heap_extends[OF assms(2) v] by (simp add: loss_inv_def)
  ultimately show ?thesis using assms(1) same by (simp add: loss_inv_def)
qed

text \<open>Registering a module that is no loss module under a name that is no loss name.\<close>

lemma loss_inv_add_layer:
  assumes "loss_inv ks h m" "\<not> is_loss_name name" "a < length h" "\<not> is_loss (h ! a)"
  shows "loss_inv ks h (add_module m name a)"
proof -
  have keys: "\<forall>e\<in>set m. fst e = name \<longrightarrow> \<not> is_loss (h ! snd e)"
  proof (intro ballI impI)
    fix e assume e: "e \<in> set m" "fst e = name"
    show "\<not> is_loss (h ! snd e)"
    proof
      assume "is_loss (h ! snd e)"
      with e have "fst e \<in> set (map fst (loss_entries h m))"
        by (auto simp: loss_entries_def)
      with assms(1) have "is_loss_name (fst e)" by (simp add: loss_inv_def)
      with e assms(2) show False by simp
    qed
  qed
  have "loss_entries h (add_module m name a) = loss_entries h m"
    unfolding loss_entries_def using assms(4) keys
    by (intro filter_add_module_other) simp_all
  moreover have "\<forall>e\<in>set (add_module m name a). snd e < length h"
    using set_add_module[of m name a] assms(1,3) by (auto simp: loss_inv_def)
  moreover have "\<forall>e\<in>set (add_module m name a). \<not> is_loss (h ! snd e) \<longrightarrow> \<not> is_loss_name (fst e)"
    using set_add_module[of m name a] assms(1,2) by (auto simp: loss_inv_def)
  ultimately show ?thesis using assms(1) by (simp add: loss_inv_def)
qed

text \<open>Registering a fresh loss module under a loss name that is not yet used.\<close>

lemma loss_inv_add_loss:
  assumes "loss_inv ks h m" "is_loss_name name" "name \<notin> set ks" "is_loss ob"
  shows "loss_inv (ks @ [name]) (h @ [ob]) (add_module m name (length h))"
proof -
  have inv': "loss_inv ks (h @ [ob]) m"
    using assms(1) heap_extends_append by (rule loss_inv_heap_extends)
  have fresh: "name \<notin> fst ` set m"
  proof
    assume "name \<in> fst ` set m"
    then obtain e where e: "e \<in> set m" "fst e = name" by auto
    show False
    proof (cases "is_loss (h ! snd e)")
      case True
      with e have "name \<in> set (map fst (loss_entries h m))"
        by (force simp: loss_entries_def)
      with assms(1,3) show False by (simp add: loss_inv_def)
    next
      case False
      with e assms(1,2) show False by (auto simp: loss_inv_def)
    qed
  qed
  have am: "add_module m name (length h) = m @ [(name, length h)]"
    using fresh by (rule add_module_fresh)
  have "loss_entries (h @ [ob]) (m @ [(name, length h)])
      = loss_entries (h @ [ob]) m @ [(name, length h)]"
    using assms(4) by (simp add: loss_entries_def)
  with inv' assms(2,4) show ?thesis
    unfolding am by (auto simp: loss_inv_def)
qed

lemma name_layer_simps:
  "h ! a = Layer Conv2d ps \<Longrightarrow>
     name_layer h i a = Inr (i + 1, ''conv_'' @ format_nat (i + 1), a, h)"
  "h ! a = Layer (ReLU b) ps \<Longrightarrow>
     name_layer h i a = Inr (i, ''relu_'' @ format_nat i, length h, h @ [Layer (ReLU False) []])"
  "h ! a = Layer MaxPool2d ps \<Longrightarrow> name_layer h i a = Inr (i, ''pool_'' @ format_nat i, a, h)"
  "h ! a = Layer BatchNorm2d ps \<Longrightarrow> name_layer h i a = Inr (i, ''bn_'' @ format_nat i, a, h)"
  by (simp_all add: name_layer_def alloc_def)

lemma recognised_not_loss: "recognised ob \<Longrightarrow> \<not> is_loss ob"
  by (cases ob rule: recognised.cases) auto

lemma style_name_fresh:
  assumes "i < 5"
  shows "''style_loss_'' @ format_nat (Suc i) \<notin> set (default_loss_names i)"
    and "''style_loss_'' @ format_nat (Suc i) \<noteq> ''content_loss_'' @ s"
proof -
  show "''style_loss_'' @ format_nat (Suc i) \<notin> set (default_loss_names i)"
  proof
    assume "''style_loss_'' @ format_nat (Suc i) \<in> set (default_loss_names i)"
    from default_loss_names_set[OF this]
    have "\<exists>j. 1 \<le> j \<and> j \<le> i \<and> j \<le> 5 \<and> format_nat (Suc i) = format_nat j" by auto
    then obtain j where j: "1 \<le> j" "j \<le> i" "j \<le> 5" "format_nat (Suc i) = format_nat j"
      by blast
    have "format_nat j = [digit j]" using j by (subst format_nat.simps) simp
    with j have "format_nat (Suc i) = [digit j]" by simp
    then have "Suc i = j" using j(3) by (simp add: format_nat_digit)
    with j show False by simp
  qed
  show "''style_loss_'' @ format_nat (Suc i) \<noteq> ''content_loss_'' @ s" by simp
qed

lemma content_name_fresh:
  "''content_loss_'' @ s \<notin> set (default_loss_names 3)"
proof
  assume "''content_loss_'' @ s \<in> set (default_loss_names 3)"
  from default_loss_names_set[OF this] show False by auto
qed

lemma loss_entries_add_layer:
  assumes "loss_inv ks h m" "\<not> is_loss_name name" "\<not> is_loss (h ! a)"
  shows "loss_entries h (add_module m name a) = loss_entries h m"
proof -
  have keys: "\<forall>e\<in>set m. fst e = name \<longrightarrow> \<not> is_loss (h ! snd e)"
  proof (intro ballI impI)
    fix e assume e: "e \<in> set m" "fst e = name"
    show "\<not> is_loss (h ! snd e)"
    proof
      assume "is_loss (h ! snd e)"
      with e have "fst e \<in> set (map fst (loss_entries h m))"
        by (auto simp: loss_entries_def)
      with assms(1) have "is_loss_name (fst e)" by (simp add: loss_inv_def)
      with e assms(2) show False by simp
    qed
  qed
  show ?thesis
    unfolding loss_entries_def using assms(3) keys
    by (intro filter_add_module_other) simp_all
qed

lemma loss_entries_add_loss:
  assumes "loss_inv ks h m" "is_loss_name name" "name \<notin> set ks" "is_loss ob"
  shows "loss_entries (h @ [ob]) (add_module m name (length h)) = loss_entries h m @ [(name, length h)]"
proof -
  have fresh: "name \<notin> fst ` set m"
  proof
    assume "name \<in> fst ` set m"
    then obtain e where e: "e \<in> set m" "fst e = name" by auto
    show False
    proof (cases "is_loss (h ! snd e)")
      case True
      with e have "name \<in> set (map fst (loss_entries h m))"
        by (force simp: loss_entries_def)
      with assms(1,3) show False by (simp add: loss_inv_def)
    next
      case False
      with e assms(1,2) show False by (auto simp: loss_inv_def)
    qed
  qed
  have am: "add_module m name (length h) = m @ [(name, length h)]"
    using fresh by (rule add_module_fresh)
  have "loss_entries (h @ [ob]) m = loss_entries h m"
    using heap_extends_append assms(1) by (intro loss_entries_heap_extends) (simp_all add: loss_inv_def)
  then show ?thesis unfolding am using assms(4) by (simp add: loss_entries_def)
qed

lemma scan_layer_default_inv:
  assumes scan: "scan_layer F content_layers_default style_layers_default cimg simg st a = Inr st'"
    and inv: "loss_inv (default_loss_names (st_i st)) (st_heap st) (st_model st)"
    and a: "a < length (st_heap st)"
    and sl: "length (st_style_losses st) = min (st_i st) 5"
    and cl: "length (st_content_losses st) = (if 4 \<le> st_i st then 1 else 0)"
  shows "loss_inv (default_loss_names (st_i st')) (st_heap st') (st_model st') \<and>
         st_i st' = st_i st + (if is_conv (st_heap st ! a) then 1 else 0) \<and>
         length (st_style_losses st') = min (st_i st') 5 \<and>
         length (st_content_losses st') = (if 4 \<le> st_i st' then 1 else 0) \<and>
         set (loss_entries (st_heap st) (st_model st)) \<subseteq> set (loss_entries (st_heap st') (st_model st')) \<and>
         set (st_content_losses st') \<union> set (st_style_losses st') \<subseteq>
           set (st_content_losses st) \<union> set (st_style_losses st) \<union>
           snd ` set (loss_entries (st_heap st') (st_model st'))"
proof -
  let ?h = "st_heap st" and ?m = "st_model st" and ?i = "st_i st"
  let ?E = "\<lambda>s. set (loss_entries (st_heap s) (st_model s))"
  let ?L = "\<lambda>s. set (st_content_losses s) \<union> set (st_style_losses s)"
  have valid: "\<forall>e\<in>set ?m. snd e < length ?h" using inv by (simp add: loss_inv_def)
  let ?ks = "default_loss_names ?i"
  from scan have rec: "recognised (?h ! a)"
    by (auto elim!: scan_layer_Inr dest: name_layer_Inr(1))
  then have nl: "\<not> is_loss (?h ! a)" by (rule recognised_not_loss)
  show ?thesis
  proof (cases "is_conv (?h ! a)")
    case True
    then obtain ps where ob: "?h ! a = Layer Conv2d ps" by (cases "?h ! a" rule: is_conv.cases) auto
    let ?name = "''conv_'' @ format_nat (?i + 1)"
    let ?st1 = "st\<lparr>st_heap := ?h, st_i := ?i + 1, st_model := add_module ?m ?name a\<rparr>"
    have inv1: "loss_inv ?ks ?h (st_model ?st1)"
      using loss_inv_add_layer[OF inv layer_names_not_loss(1) a nl] by simp
    have e1: "?E ?st1 = ?E st"
      using loss_entries_add_layer[OF inv layer_names_not_loss(1) nl] by simp
    from scan obtain i' name la h1 st2 where
      n: "name_layer ?h ?i a = Inr (i', name, la, h1)" and
      c0: "if name \<in> set content_layers_default
        then add_content_loss F cimg (st\<lparr>st_heap := h1, st_i := i',
            st_model := add_module ?m name la\<rparr>) = Inr st2
        else st2 = st\<lparr>st_heap := h1, st_i := i', st_model := add_module ?m name la\<rparr>" and
      s0: "if name \<in> set style_layers_default then add_style_loss F simg st2 = Inr st' else st' = st2"
      by (rule scan_layer_Inr)
    from n have eqs: "i' = ?i + 1" "name = ?name" "la = a" "h1 = ?h"
      unfolding name_layer_simps(1)[OF ob] by auto
    have c: "if ?i + 1 = 4 then add_content_loss F cimg ?st1 = Inr st2 else st2 = ?st1"
      using c0 unfolding eqs conv_name_content .
    have s: "if ?i + 1 \<le> 5 then add_style_loss F simg st2 = Inr st' else st' = st2"
      using s0 unfolding eqs conv_name_style by simp
    let ?ks2 = "?ks @ (if ?i + 1 = 4 then [''content_loss_'' @ format_nat (?i + 1)] else [])"
    have inv2: "loss_inv ?ks2 (st_heap st2) (st_model st2) \<and> st_i st2 = ?i + 1 \<and>
        st_style_losses st2 = st_style_losses st \<and>
        length (st_content_losses st2) = (if 4 \<le> ?i + 1 then 1 else 0) \<and>
        ?E st \<subseteq> ?E st2 \<and> ?L st2 \<subseteq> ?L st \<union> snd ` ?E st2"
    proof (cases "?i + 1 = 4")
      case True
      with c have ac: "add_content_loss F cimg ?st1 = Inr st2" by simp
      from ac obtain act h1 where
        f: "seq_forward F ?h (map snd (st_model ?st1)) cimg = Inr (act, h1)" and
        st2: "st2 = ?st1\<lparr>st_heap := h1 @ [ContentLoss \<lparr>target = act, loss = None\<rparr>],
                   st_model := add_module (st_model ?st1) (''content_loss_'' @ format_nat (st_i ?st1)) (length h1),
                   st_content_losses := st_content_losses ?st1 @ [length h1]\<rparr>"
        by (auto elim!: add_content_loss_Inr)
      have "loss_inv ?ks h1 (st_model ?st1)"
        using inv1 heap_extends_forward[OF f] by (rule loss_inv_heap_extends)
      moreover have "''content_loss_'' @ format_nat (?i + 1) \<notin> set ?ks"
        using True content_name_fresh[of "format_nat (?i + 1)"] by simp
      ultimately have "loss_inv (?ks @ [''content_loss_'' @ format_nat (?i + 1)])
          (h1 @ [ContentLoss \<lparr>target = act, loss = None\<rparr>])
          (add_module (st_model ?st1) (''content_loss_'' @ format_nat (?i + 1)) (length h1))"
        by (intro loss_inv_add_loss loss_names_loss) simp_all
      moreover have "loss_entries (st_heap st2) (st_model st2)
          = loss_entries ?h (st_model ?st1) @ [(''content_loss_'' @ format_nat (?i + 1), length h1)]"
      proof -
        have "loss_entries (h1 @ [ContentLoss \<lparr>target = act, loss = None\<rparr>])
            (add_module (st_model ?st1) (''content_loss_'' @ format_nat (?i + 1)) (length h1))
          = loss_entries h1 (st_model ?st1) @ [(''content_loss_'' @ format_nat (?i + 1), length h1)]"
          by (rule loss_entries_add_loss[OF \<open>loss_inv ?ks h1 (st_model ?st1)\<close> loss_names_loss(1)
                \<open>''content_loss_'' @ format_nat (?i + 1) \<notin> set ?ks\<close>]) simp
        moreover have "loss_entries h1 (st_model ?st1) = loss_entries ?h (st_model ?st1)"
          using heap_extends_forward[OF f] inv1
          by (intro loss_entries_heap_extends) (simp_all add: loss_inv_def)
        ultimately show ?thesis unfolding st2 by simp
      qed
      ultimately show ?thesis using True st2 cl e1 by auto
    next
      case False
      with c have "st2 = ?st1" by simp
      with False inv1 cl e1 show ?thesis by auto
    qed
    have "loss_inv (default_loss_names (?i + 1)) (st_heap st') (st_model st') \<and> st_i st' = ?i + 1 \<and>
        length (st_style_losses st') = min (?i + 1) 5 \<and>
        st_content_losses st' = st_content_losses st2 \<and>
        ?E st2 \<subseteq> ?E st' \<and> ?L st' \<subseteq> ?L st2 \<union> snd ` ?E st'"
    proof (cases "?i + 1 \<le> 5")
      case True
      with s have as: "add_style_loss F simg st2 = Inr st'" by simp
      from as obtain act h1 G where
        f: "seq_forward F (st_heap st2) (map snd (st_model st2)) simg = Inr (act, h1)" and
        st': "st' = st2\<lparr>st_heap := h1 @ [StyleLoss \<lparr>target = G, loss = None\<rparr>],
                   st_model := add_module (st_model st2) (''style_loss_'' @ format_nat (st_i st2)) (length h1),
                   st_style_losses := st_style_losses st2 @ [length h1]\<rparr>"
        by (auto elim!: add_style_loss_Inr)
      have "loss_inv ?ks2 h1 (st_model st2)"
        using inv2 heap_extends_forward[OF f] by (auto intro: loss_inv_heap_extends)
      moreover have "''style_loss_'' @ format_nat (?i + 1) \<notin> set ?ks2"
        using True style_name_fresh[of ?i] by auto
      ultimately have "loss_inv (?ks2 @ [''style_loss_'' @ format_nat (?i + 1)])
          (h1 @ [StyleLoss \<lparr>target = G, loss = None\<rparr>])
          (add_module (st_model st2) (''style_loss_'' @ format_nat (?i + 1)) (length h1))"
        by (intro loss_inv_add_loss loss_names_loss) simp_all
      moreover have "?ks2 @ [''style_loss_'' @ format_nat (?i + 1)] = default_loss_names (?i + 1)"
        using True by (simp add: default_loss_names_Suc)
      moreover have "loss_entries (st_heap st') (st_model st')
          = loss_entries (st_heap st2) (st_model st2) @ [(''style_loss_'' @ format_nat (?i + 1), length h1)]"
      proof -
        have "loss_entries (h1 @ [StyleLoss \<lparr>target = G, loss = None\<rparr>])
            (add_module (st_model st2) (''style_loss_'' @ format_nat (?i + 1)) (length h1))
          = loss_entries h1 (st_model st2) @ [(''style_loss_'' @ format_nat (?i + 1), length h1)]"
          by (rule loss_entries_add_loss[OF \<open>loss_inv ?ks2 h1 (st_model st2)\<close> loss_names_loss(2)
                \<open>''style_loss_'' @ format_nat (?i + 1) \<notin> set ?ks2\<close>]) simp
        moreover have "loss_entries h1 (st_model st2) = loss_entries (st_heap st2) (st_model st2)"
          using heap_extends_forward[OF f] inv2
          by (intro loss_entries_heap_extends) (simp_all add: loss_inv_def)
        ultimately show ?thesis using inv2 unfolding st' by simp
      qed
      ultimately show ?thesis using st' inv2 sl True by auto
    next
      case False
      with s have "st' = st2" by simp
      moreover have "?ks2 = default_loss_names (?i + 1)"
        using False by (simp add: default_loss_names_Suc)
      ultimately show ?thesis using inv2 sl False by simp
    qed
    then have fin: "loss_inv (default_loss_names (?i + 1)) (st_heap st') (st_model st')"
      "st_i st' = ?i + 1" "length (st_style_losses st') = min (?i + 1) 5"
      "st_content_losses st' = st_content_losses st2"
      and e3: "?E st2 \<subseteq> ?E st'" and l3: "?L st' \<subseteq> ?L st2 \<union> snd ` ?E st'"
      by blast+
    from inv2 have c2: "length (st_content_losses st2) = (if 4 \<le> ?i + 1 then 1 else 0)"
      and e2: "?E st \<subseteq> ?E st2" and l2: "?L st2 \<subseteq> ?L st \<union> snd ` ?E st2"
      by blast+
    have "?E st \<subseteq> ?E st'" using e2 e3 by blast
    moreover have "?L st' \<subseteq> ?L st \<union> snd ` ?E st'"
    proof -
      have "snd ` ?E st2 \<subseteq> snd ` ?E st'" using e3 by (rule image_mono)
      with l2 l3 show ?thesis by blast
    qed
    moreover have "st_i st' = ?i + (if is_conv (?h ! a) then 1 else 0)"
      using fin(2) True by simp
    moreover have "length (st_content_losses st') = (if 4 \<le> st_i st' then 1 else 0)"
      using fin(2,4) c2 by simp
    moreover have "length (st_style_losses st') = min (st_i st') 5"
      using fin(2,3) by simp
    moreover have "loss_inv (default_loss_names (st_i st')) (st_heap st') (st_model st')"
      using fin(1,2) by simp
    ultimately show ?thesis by blast
  next
    case False
    from rec False obtain name la h1 where
      n: "name_layer ?h ?i a = Inr (?i, name, la, h1)" and
      nm: "\<not> is_loss_name name" "name \<notin> set content_layers_default" "name \<notin> set style_layers_default" and
      la: "la < length h1" "\<not> is_loss (h1 ! la)" and ext: "heap_extends ?h h1"
    proof (cases "?h ! a" rule: recognised.cases)
      case (2 b ps)
      show ?thesis
        by (rule that[of "''relu_'' @ format_nat ?i" "length ?h" "?h @ [Layer (ReLU False) []]"])
           (simp_all add: 2 name_layer_simps is_loss_name_def content_layers_default_def style_layers_default_def
              heap_extends_append)
    next
      case (3 ps)
      show ?thesis
        by (rule that[of "''pool_'' @ format_nat ?i" a ?h])
           (simp_all add: 3 name_layer_simps is_loss_name_def content_layers_default_def style_layers_default_def
              heap_extends_refl a)
    next
      case (4 ps)
      show ?thesis
        by (rule that[of "''bn_'' @ format_nat ?i" a ?h])
           (simp_all add: 4 name_layer_simps is_loss_name_def content_layers_default_def style_layers_default_def
              heap_extends_refl a)
    qed auto
    from scan n nm have st': "st' = st\<lparr>st_heap := h1, st_i := ?i, st_model := add_module ?m name la\<rparr>"
      by (simp add: scan_layer_def)
    have i1: "loss_inv ?ks h1 ?m" using inv ext by (rule loss_inv_heap_extends)
    have "loss_entries h1 (add_module ?m name la) = loss_entries h1 ?m"
      using i1 nm(1) la(2) by (rule loss_entries_add_layer)
    moreover have "loss_entries h1 ?m = loss_entries ?h ?m"
      using ext valid by (rule loss_entries_heap_extends)
    ultimately have "?E st' = ?E st" using st' by simp
    with loss_inv_add_layer[OF i1 nm(1) la] st' sl cl False show ?thesis by auto
  qed
qed

lemma scan_layers_default_inv:
  assumes "scan_layers F content_layers_default style_layers_default cimg simg st as = Inr st'"
    and "loss_inv (default_loss_names (st_i st)) (st_heap st) (st_model st)"
    and "\<forall>a\<in>set as. a < length (st_heap st)"
    and "length (st_style_losses st) = min (st_i st) 5"
    and "length (st_content_losses st) = (if 4 \<le> st_i st then 1 else 0)"
  shows "loss_inv (default_loss_names (st_i st')) (st_heap st') (st_model st') \<and>
         st_i st' = st_i st + length (filter (\<lambda>a. is_conv (st_heap st ! a)) as) \<and>
         length (st_style_losses st') = min (st_i st') 5 \<and>
         length (st_content_losses st') = (if 4 \<le> st_i st' then 1 else 0) \<and>
         set (loss_entries (st_heap st) (st_model st)) \<subseteq> set (loss_entries (st_heap st') (st_model st')) \<and>
         set (st_content_losses st') \<union> set (st_style_losses st') \<subseteq>
           set (st_content_losses st) \<union> set (st_style_losses st) \<union>
           snd ` set (loss_entries (st_heap st') (st_model st'))"
  using assms
proof (induction as arbitrary: st)
  case Nil
  then show ?case by simp
next
  case (Cons a as)
  from Cons.prems(1) obtain st1 where
    s1: "scan_layer F content_layers_default style_layers_default cimg simg st a = Inr st1" and
    s2: "scan_layers F content_layers_default style_layers_default cimg simg st1 as = Inr st'"
    by (auto split: sum.splits)
  have a: "a < length (st_heap st)" using Cons.prems(3) by simp
  note step = scan_layer_default_inv[OF s1 Cons.prems(2) a Cons.prems(4,5)]
  have ext: "heap_extends (st_heap st) (st_heap st1)" using s1 by (rule scan_layer_extends)
  have valid: "\<forall>b\<in>set as. b < length (st_heap st1)"
    using Cons.prems(3) ext by (auto simp: heap_extends_def)
  have convs: "filter (\<lambda>b. is_conv (st_heap st1 ! b)) as = filter (\<lambda>b. is_conv (st_heap st ! b)) as"
    using Cons.prems(3) heap_extends_same(3)[OF ext] by (intro filter_cong refl) simp
  from step have inv1: "loss_inv (default_loss_names (st_i st1)) (st_heap st1) (st_model st1)"
    and i1: "st_i st1 = st_i st + (if is_conv (st_heap st ! a) then 1 else 0)"
    and l1: "length (st_style_losses st1) = min (st_i st1) 5"
    and l2: "length (st_content_losses st1) = (if 4 \<le> st_i st1 then 1 else 0)"
    and e1: "set (loss_entries (st_heap st) (st_model st)) \<subseteq> set (loss_entries (st_heap st1) (st_model st1))"
    and m1: "set (st_content_losses st1) \<union> set (st_style_losses st1) \<subseteq>
           set (st_content_losses st) \<union> set (st_style_losses st) \<union>
           snd ` set (loss_entries (st_heap st1) (st_model st1))"
    by blast+
  note ih = Cons.IH[OF s2 inv1 valid l1 l2]
  have "st_i st' = st_i st + length (filter (\<lambda>a. is_conv (st_heap st ! a)) (a # as))"
    using ih i1 convs by simp
  moreover have "set (loss_entries (st_heap st) (st_model st)) \<subseteq> set (loss_entries (st_heap st') (st_model st'))"
    using e1 ih by blast
  moreover have "set (st_content_losses st') \<union> set (st_style_losses st') \<subseteq>
           set (st_content_losses st) \<union> set (st_style_losses st) \<union>
           snd ` set (loss_entries (st_heap st') (st_model st'))"
  proof -
    from ih have a1: "set (st_content_losses st') \<union> set (st_style_losses st') \<subseteq>
           set (st_content_losses st1) \<union> set (st_style_losses st1) \<union>
           snd ` set (loss_entries (st_heap st') (st_model st'))"
      and a2: "set (loss_entries (st_heap st1) (st_model st1)) \<subseteq> set (loss_entries (st_heap st') (st_model st'))"
      by blast+
    from a2 have "snd ` set (loss_entries (st_heap st1) (st_model st1))
        \<subseteq> snd ` set (loss_entries (st_heap st') (st_model st'))" by (rule image_mono)
    with a1 m1 show ?thesis by blast
  qed
  ultimately show ?case using ih by blast
qed

lemma last_loss_index_le: "last_loss_index h m k \<le> k"
  by (induction k) auto

lemma last_loss_index_after:
  "last_loss_index h m k < j \<Longrightarrow> j \<le> k \<Longrightarrow> \<not> is_loss (h ! snd (m ! j))"
proof (induction k)
  case 0
  then show ?case by simp
next
  case (Suc k)
  show ?case
  proof (cases "is_loss (h ! snd (m ! Suc k))")
    case True
    with Suc.prems show ?thesis by simp
  next
    case False
    show ?thesis
    proof (cases "j = Suc k")
      case True
      with False show ?thesis by simp
    next
      case ne: False
      with Suc.prems \<open>\<not> is_loss (h ! snd (m ! Suc k))\<close> Suc.IH show ?thesis by simp
    qed
  qed
qed

lemma loss_entries_trim: "loss_entries h (trim h m) = loss_entries h m"
proof -
  let ?j = "last_loss_index h m (length m - 1)"
  have "\<not> is_loss (h ! snd e)" if "e \<in> set (drop (?j + 1) m)" for e
  proof -
    from that obtain k where k: "k < length (drop (?j + 1) m)" "e = drop (?j + 1) m ! k"
      by (metis in_set_conv_nth)
    then have e: "e = m ! (?j + 1 + k)" and b: "?j + 1 + k \<le> length m - 1" by auto
    from last_loss_index_after[of h m "length m - 1" "?j + 1 + k"] b e show ?thesis by simp
  qed
  then have "filter (\<lambda>e. is_loss (h ! snd e)) (drop (?j + 1) m) = []" by simp
  moreover have "m = take (?j + 1) m @ drop (?j + 1) m" by simp
  ultimately have "filter (\<lambda>e. is_loss (h ! snd e)) m
      = filter (\<lambda>e. is_loss (h ! snd e)) (take (?j + 1) m)"
    by (metis append_Nil2 filter_append)
  then show ?thesis by (simp add: loss_entries_def trim_def)
qed

lemma length_filter_indices:
  "length (filter (\<lambda>k. Q (xs ! k)) [0..<length xs]) = length (filter Q xs)"
proof -
  have "filter Q (map (\<lambda>k. xs ! k) [0..<length xs]) = map (\<lambda>k. xs ! k) (filter (\<lambda>k. Q (xs ! k)) [0..<length xs])"
    by (simp add: filter_map comp_def)
  then show ?thesis by (metis length_map map_nth)
qed

lemma default_loss_modules_count:
  assumes run: "get_style_model_and_losses F h cnn nm ns simg cimg
                  content_layers_default style_layers_default = Inr (h', mdl, sls, cls)"
  shows "map fst (loss_entries h' mdl) = default_loss_names (length (filter (\<lambda>a. is_conv (h ! a)) cnn)) \<and>
         length sls = min (length (filter (\<lambda>a. is_conv (h ! a)) cnn)) 5 \<and>
         length cls = (if 4 \<le> length (filter (\<lambda>a. is_conv (h ! a)) cnn) then 1 else 0)"
proof -
  let ?n = "length cnn"
  let ?cnn' = "map (\<lambda>k. length h + k) [0..<?n]"
  let ?h2 = "(h @ map (\<lambda>a. h ! a) cnn) @ [Normalization_init nm ns]"
  let ?st0 = "\<lparr>st_heap = ?h2, st_model = [(''0'', length h + ?n)], st_i = 0,
               st_content_losses = [], st_style_losses = []\<rparr>"
  from run obtain st where
    scan: "scan_layers F content_layers_default style_layers_default cimg simg ?st0 ?cnn' = Inr st" and
    res: "h' = st_heap st" "mdl = trim (st_heap st) (st_model st)" "sls = st_style_losses st"
      "cls = st_content_losses st"
    by (auto simp: get_style_model_and_losses_def deepcopy_def alloc_def split: sum.splits)
  have copy: "?h2 ! (length h + k) = h ! (cnn ! k)" if "k < ?n" for k
    using that by (simp add: nth_append)
  have inv0: "loss_inv (default_loss_names (st_i ?st0)) (st_heap ?st0) (st_model ?st0)"
    by (simp add: loss_inv_def loss_entries_def default_loss_names_0 Normalization_init_def
        is_loss_name_def nth_append)
  have valid: "\<forall>a\<in>set ?cnn'. a < length (st_heap ?st0)" by auto
  have l0: "length (st_style_losses ?st0) = min (st_i ?st0) 5"
    "length (st_content_losses ?st0) = (if 4 \<le> st_i ?st0 then 1 else 0)" by simp_all
  note r = scan_layers_default_inv[OF scan inv0 valid l0]
  have inv: "loss_inv (default_loss_names (st_i st)) (st_heap st) (st_model st)"
    using r by blast
  have l: "length (st_style_losses st) = min (st_i st) 5"
       "length (st_content_losses st) = (if 4 \<le> st_i st then 1 else 0)"
    using r by blast+
  have "st_i st = st_i ?st0 + length (filter (\<lambda>a. is_conv (st_heap ?st0 ! a)) ?cnn')"
    using r by blast
  then have i: "st_i st = length (filter (\<lambda>a. is_conv (?h2 ! a)) ?cnn')"
    by (simp del: append_assoc filter_map)
  have "filter (\<lambda>a. is_conv (?h2 ! a)) ?cnn'
      = map (\<lambda>k. length h + k) (filter (\<lambda>k. is_conv (h ! (cnn ! k))) [0..<?n])"
    unfolding filter_map comp_def using copy by (intro arg_cong[where f = "map _"] filter_cong refl) simp
  then have "st_i st = length (filter (\<lambda>k. is_conv (h ! (cnn ! k))) [0..<?n])"
    using i by simp
  also have "\<dots> = length (filter (\<lambda>a. is_conv (h ! a)) cnn)"
    by (rule length_filter_indices)
  finally have n: "st_i st = length (filter (\<lambda>a. is_conv (h ! a)) cnn)" .
  from inv have "map fst (loss_entries (st_heap st) (st_model st)) = default_loss_names (st_i st)"
    by (simp add: loss_inv_def)
  with res n l show ?thesis by (simp add: loss_entries_trim)
qed

text \<open>
  Claim C2, as amended: with the default layer selections the scan inserts loss modules of
  two kinds, a \<open>StyleLoss\<close> after each of the first five \<open>Conv2d\<close> children and a
  \<open>ContentLoss\<close> after the fourth.  For a network with \<open>n\<close> \<open>Conv2d\<close> children the returned
  model holds \<open>min n 5 + (if 4 \<le> n then 1 else 0)\<close> loss modules, registered as
  \<open>style_loss_1\<close>, ..., \<open>content_loss_4\<close>, \<open>style_loss_4\<close>, \<open>style_loss_5\<close>; \<open>style_losses\<close> has
  \<open>min n 5\<close> elements and \<open>content_losses\<close> has one element if \<open>4 \<le> n\<close> and none otherwise.
  The number of inserted modules is two only for \<open>n = 2\<close>.
\<close>

theorem default_layers_loss_modules:
  assumes "get_style_model_and_losses F h cnn nm ns simg cimg
             content_layers_default style_layers_default = Inr (h', mdl, sls, cls)"
  shows "map fst (loss_entries h' mdl) = default_loss_names (length (filter (\<lambda>a. is_conv (h ! a)) cnn)) \<and>
         length (loss_entries h' mdl) =
           min (length (filter (\<lambda>a. is_conv (h ! a)) cnn)) 5 +
           (if 4 \<le> length (filter (\<lambda>a. is_conv (h ! a)) cnn) then 1 else 0) \<and>
         length sls = min (length (filter (\<lambda>a. is_conv (h ! a)) cnn)) 5 \<and>
         length cls = (if 4 \<le> length (filter (\<lambda>a. is_conv (h ! a)) cnn) then 1 else 0)"
proof -
  note c = default_loss_modules_count[OF assms]
  have "length (loss_entries h' mdl) = length (map fst (loss_entries h' mdl))" by simp
  also have "\<dots> = length (default_loss_names (length (filter (\<lambda>a. is_conv (h ! a)) cnn)))"
    using c by simp
  finally show ?thesis using c by (simp only: length_default_loss_names)
qed

lemmas eval_defs = get_style_model_and_losses_def deepcopy_def alloc_def Normalization_init_def
        scan_layer_def name_layer_def format_nat.simps digit_def content_layers_default_def
        style_layers_default_def add_style_loss_def add_content_loss_def module_forward_def sample_framework_def
        sample_sub_div_def sample_apply_layer_def conv2d_def numel_def StyleLoss_init_def ContentLoss_init_def
        ContentLoss_forward_def StyleLoss_forward_def mse_loss_def
        gram_matrix_4d upt_rec[of _ "numeral _"] loss_entries_def trim_def

theorem default_layers_loss_modules_witness:
  "\<exists>h' mdl sls cls.
     get_style_model_and_losses sample_framework
        [Layer Conv2d [\<lparr>shape = [1, 1, 1, 1], data = [1]\<rparr>, \<lparr>shape = [1], data = [0]\<rparr>],
         Layer (ReLU True) [],
         Layer Conv2d [\<lparr>shape = [1, 1, 1, 1], data = [1]\<rparr>, \<lparr>shape = [1], data = [0]\<rparr>]]
        [0, 1, 2]
        \<lparr>shape = [1], data = [0]\<rparr> \<lparr>shape = [1], data = [1]\<rparr>
        \<lparr>shape = [1, 1, 1, 1], data = [1]\<rparr> \<lparr>shape = [1, 1, 1, 1], data = [1]\<rparr>
        content_layers_default style_layers_default = Inr (h', mdl, sls, cls) \<and>
     map fst (loss_entries h' mdl) = [''style_loss_1'', ''style_loss_2''] \<and>
     length (loss_entries h' mdl) = 2 \<and> length sls = 2 \<and> length cls = 0"
proof -
  let ?conv = "Layer Conv2d [\<lparr>shape = [1, 1, 1, 1], data = [1]\<rparr>, \<lparr>shape = [1], data = [0]\<rparr>]"
  let ?h = "[?conv, Layer (ReLU True) [], ?conv]"
  let ?run = "get_style_model_and_losses sample_framework ?h [0, 1, 2]
        \<lparr>shape = [1], data = [0]\<rparr> \<lparr>shape = [1], data = [1]\<rparr>
        \<lparr>shape = [1, 1, 1, 1], data = [1]\<rparr> \<lparr>shape = [1, 1, 1, 1], data = [1]\<rparr>
        content_layers_default style_layers_default"
  have "\<exists>r. ?run = Inr r" by (simp add: eval_defs)
  then obtain h' mdl sls cls where run: "?run = Inr (h', mdl, sls, cls)"
    by (metis prod_cases4)
  have n: "length (filter (\<lambda>a. is_conv (?h ! a)) [0, 1, 2]) = 2" by simp
  have names: "default_loss_names 2 = [''style_loss_1'', ''style_loss_2'']"
    by (simp add: default_loss_names_def format_nat.simps digit_def upt_rec[of _ "numeral _"])
  note t = default_layers_loss_modules[OF run, unfolded n names]
  from t run show ?thesis
    by (intro exI[of _ h'] exI[of _ mdl] exI[of _ sls] exI[of _ cls]) simp
qed

text \<open>
  The claim as written, exactly two loss modules, fails on a network with five
  convolutions (as on every VGG-style network): six loss modules are inserted.
\<close>

theorem default_layers_insert_six:
  "(case get_style_model_and_losses sample_framework
        [Layer Conv2d [\<lparr>shape = [1, 1, 1, 1], data = [1]\<rparr>, \<lparr>shape = [1], data = [0]\<rparr>],
         Layer (ReLU True) [],
         Layer Conv2d [\<lparr>shape = [1, 1, 1, 1], data = [1]\<rparr>, \<lparr>shape = [1], data = [0]\<rparr>],
         Layer (ReLU True) [],
         Layer MaxPool2d [],
         Layer Conv2d [\<lparr>shape = [1, 1, 1, 1], data = [1]\<rparr>, \<lparr>shape = [1], data = [0]\<rparr>],
         Layer Conv2d [\<lparr>shape = [1, 1, 1, 1], data = [1]\<rparr>, \<lparr>shape = [1], data = [0]\<rparr>],
         Layer Conv2d [\<lparr>shape = [1, 1, 1, 1], data = [1]\<rparr>, \<lparr>shape = [1], data = [0]\<rparr>],
         Layer (ReLU True) []]
        [0, 1, 2, 3, 4, 5, 6, 7, 8]
        \<lparr>shape = [1], data = [0]\<rparr> \<lparr>shape = [1], data = [1]\<rparr>
        \<lparr>shape = [1, 1, 1, 1], data = [1]\<rparr> \<lparr>shape = [1, 1, 1, 1], data = [1]\<rparr>
        content_layers_default style_layers_default of
      Inl e \<Rightarrow> []
    | Inr (h', mdl, sls, cls) \<Rightarrow> map fst (loss_entries h' mdl))
   = [''style_loss_1'', ''style_loss_2'', ''style_loss_3'', ''content_loss_4'', ''style_loss_4'',
      ''style_loss_5'']"
  by (simp add: eval_defs)

section \<open>The structure of the model\<close>

lemma last_loss_index_append:
  "k < length zs \<Longrightarrow> last_loss_index h (zs @ [z]) k = last_loss_index h zs k"
  by (induction k) (simp_all add: nth_append)

lemma trim_eq:
  "trim h m =
     (if rev (dropWhile (\<lambda>e. \<not> is_loss (h ! snd e)) (rev m)) = [] then take 1 m
      else rev (dropWhile (\<lambda>e. \<not> is_loss (h ! snd e)) (rev m)))"
proof (induction m rule: rev_induct)
  case Nil
  then show ?case by (simp add: trim_def)
next
  case (snoc z zs)
  show ?case
  proof (cases zs rule: rev_cases)
    case Nil
    then show ?thesis by (simp add: trim_def)
  next
    case (snoc ys y)
    then have len: "length zs = Suc (length ys)" by simp
    have z: "(zs @ [z]) ! Suc (length ys) = z" using len by (metis nth_append_length)
    show ?thesis
    proof (cases "is_loss (h ! snd z)")
      case True
      then have "last_loss_index h (zs @ [z]) (Suc (length ys)) = Suc (length ys)"
        by (simp add: z)
      with True show ?thesis by (simp add: trim_def len)
    next
      case False
      have "last_loss_index h (zs @ [z]) (length zs)
          = last_loss_index h (zs @ [z]) (length ys)"
        using False by (simp add: len z)
      also have "\<dots> = last_loss_index h zs (length ys)"
        by (rule last_loss_index_append) (simp add: len)
      finally have lli: "last_loss_index h (zs @ [z]) (length zs) = last_loss_index h zs (length zs - 1)"
        by (simp add: len)
      have le: "last_loss_index h zs (length zs - 1) + 1 \<le> length zs"
        using last_loss_index_le[of h zs "length zs - 1"] len by simp
      have "trim h (zs @ [z]) = trim h zs"
        using lli le by (simp add: trim_def)
      moreover have "take 1 (zs @ [z]) = take 1 zs" using len by simp
      ultimately show ?thesis using snoc.IH False by simp
    qed
  qed
qed

lemma created_role_immutable_part: "created_role (immutable_part ob) = created_role ob"
  by (cases ob rule: created_role.cases) auto

lemma is_loss_created_role: "is_loss ob = is_loss_role (created_role ob)"
  by (cases ob rule: created_role.cases) auto

lemma role_of_extends:
  assumes "heap_extends h h'" "a < length h"
  shows "role_of b n h' a = role_of b n h a"
proof -
  from assms have "immutable_part (h' ! a) = immutable_part (h ! a)"
    by (simp add: heap_extends_def)
  then have "created_role (h' ! a) = created_role (h ! a)"
    by (metis created_role_immutable_part)
  then show ?thesis by (simp add: role_of_def)
qed

lemma model_roles_extends:
  assumes "heap_extends h h'" "\<forall>e\<in>set m. snd e < length h"
  shows "model_roles b n h' m = model_roles b n h m"
  unfolding model_roles_def using assms role_of_extends[OF assms(1)] by (intro map_cong refl) simp

lemma map_fst_model_roles: "map fst (model_roles b n h m) = map fst m"
  by (simp add: model_roles_def comp_def)

lemma entries_ok_valid: "entries_ok b n h m \<Longrightarrow> \<forall>e\<in>set m. snd e < length h"
  by (simp add: entries_ok_def)

lemma entries_ok_extends:
  assumes "entries_ok b n h m" "heap_extends h h'"
  shows "entries_ok b n h' m"
  unfolding entries_ok_def
proof (intro ballI conjI impI)
  fix e assume e: "e \<in> set m"
  with assms(1) have 1: "b \<le> snd e" "snd e < length h" "snd e < b + n \<longrightarrow> recognised (h ! snd e)"
    by (auto simp: entries_ok_def)
  show "b \<le> snd e" by (rule 1)
  show "snd e < length h'" using 1(2) assms(2) by (simp add: heap_extends_def)
  show "recognised (h' ! snd e)" if "snd e < b + n"
    using that 1 heap_extends_same(2)[OF assms(2), of "snd e"] by simp
qed

text \<open>Registering a module under a name that is not yet in use appends it.\<close>

lemma roles_add_fresh:
  assumes roles: "model_roles b n h m = sk" and ok: "entries_ok b n h m"
    and key: "key \<notin> set (map fst sk)"
    and a: "b \<le> a" "a < length h" "a < b + n \<longrightarrow> recognised (h ! a)"
  shows "model_roles b n h (add_module m key a) = sk @ [(key, role_of b n h a)]"
    and "entries_ok b n h (add_module m key a)"
proof -
  have "set (map fst sk) = fst ` set m"
    using roles map_fst_model_roles[of b n h m] by (metis set_map)
  with key have "key \<notin> fst ` set m" by simp
  then have am: "add_module m key a = m @ [(key, a)]" by (rule add_module_fresh)
  show "model_roles b n h (add_module m key a) = sk @ [(key, role_of b n h a)]"
    using roles unfolding am by (simp add: model_roles_def)
  show "entries_ok b n h (add_module m key a)"
    using ok a unfolding am by (simp add: entries_ok_def)
qed

lemma model_roles_trim:
  assumes ok: "entries_ok b n h m"
  shows "model_roles b n h (trim h m) = cut_after_last_loss (model_roles b n h m)"
proof -
  have same: "is_loss (h ! snd e) = is_loss_role (role_of b n h (snd e))" if "e \<in> set m" for e
  proof -
    from ok that have e: "b \<le> snd e" "snd e < b + n \<longrightarrow> recognised (h ! snd e)"
      by (auto simp: entries_ok_def)
    show ?thesis
    proof (cases "snd e < b + n")
      case True
      with e have "\<not> is_loss (h ! snd e)" by (simp add: recognised_not_loss)
      with True e show ?thesis by (simp add: role_of_def)
    next
      case False
      with e show ?thesis
        by (simp add: role_of_def is_loss_created_role)
    qed
  qed
  let ?f = "\<lambda>e. (fst e, role_of b n h (snd e))"
  have dw: "dropWhile (\<lambda>e. \<not> is_loss_role (snd e)) (rev (map ?f m))
      = map ?f (dropWhile (\<lambda>e. \<not> is_loss (h ! snd e)) (rev m))"
  proof -
    have "dropWhile (\<lambda>e. \<not> is_loss_role (snd e)) (map ?f (rev m))
        = map ?f (dropWhile ((\<lambda>e. \<not> is_loss_role (snd e)) \<circ> ?f) (rev m))"
      by (rule dropWhile_map)
    also have "dropWhile ((\<lambda>e. \<not> is_loss_role (snd e)) \<circ> ?f) (rev m)
        = dropWhile (\<lambda>e. \<not> is_loss (h ! snd e)) (rev m)"
      using same by (intro dropWhile_cong refl) simp
    finally show ?thesis by (simp add: rev_map)
  qed
  show ?thesis
    unfolding model_roles_def cut_after_last_loss_def dw trim_eq[of h m]
    by (simp add: rev_map take_map)
qed

lemma add_content_loss_roles:
  assumes add: "add_content_loss F cimg st = Inr st'"
    and roles: "model_roles b n (st_heap st) (st_model st) = sk"
    and ok: "entries_ok b n (st_heap st) (st_model st)"
    and key: "''content_loss_'' @ format_nat (st_i st) \<notin> set (map fst sk)"
    and len: "b + n \<le> length (st_heap st)"
  shows "model_roles b n (st_heap st') (st_model st')
           = sk @ [(''content_loss_'' @ format_nat (st_i st), CLoss)]"
    and "entries_ok b n (st_heap st') (st_model st')"
    and "st_i st' = st_i st"
proof -
  from add obtain act h1 where
    f: "seq_forward F (st_heap st) (map snd (st_model st)) cimg = Inr (act, h1)" and
    st': "st' = st\<lparr>st_heap := h1 @ [ContentLoss \<lparr>target = act, loss = None\<rparr>],
             st_model := add_module (st_model st) (''content_loss_'' @ format_nat (st_i st)) (length h1),
             st_content_losses := st_content_losses st @ [length h1]\<rparr>"
    by (rule add_content_loss_Inr)
  let ?h' = "h1 @ [ContentLoss \<lparr>target = act, loss = None\<rparr>]"
  have ext: "heap_extends (st_heap st) ?h'"
    using heap_extends_forward[OF f] heap_extends_append by (rule heap_extends_trans)
  have l1: "length h1 = length (st_heap st)" using seq_forward_frame[OF f] by simp
  have r: "model_roles b n ?h' (st_model st) = sk"
    using model_roles_extends[OF ext entries_ok_valid[OF ok]] roles by simp
  have o: "entries_ok b n ?h' (st_model st)" using ok ext by (rule entries_ok_extends)
  have a: "b \<le> length h1" "length h1 < length ?h'" "length h1 < b + n \<longrightarrow> recognised (?h' ! length h1)"
    using len l1 by simp_all
  have ro: "role_of b n ?h' (length h1) = CLoss"
    using len l1 by (simp add: role_of_def nth_append)
  from roles_add_fresh[OF r o key a] ro st'
  show "model_roles b n (st_heap st') (st_model st')
           = sk @ [(''content_loss_'' @ format_nat (st_i st), CLoss)]"
    and "entries_ok b n (st_heap st') (st_model st')"
    by simp_all
  show "st_i st' = st_i st" using st' by simp
qed

lemma add_style_loss_roles:
  assumes add: "add_style_loss F simg st = Inr st'"
    and roles: "model_roles b n (st_heap st) (st_model st) = sk"
    and ok: "entries_ok b n (st_heap st) (st_model st)"
    and key: "''style_loss_'' @ format_nat (st_i st) \<notin> set (map fst sk)"
    and len: "b + n \<le> length (st_heap st)"
  shows "model_roles b n (st_heap st') (st_model st')
           = sk @ [(''style_loss_'' @ format_nat (st_i st), SLoss)]"
    and "entries_ok b n (st_heap st') (st_model st')"
    and "st_i st' = st_i st"
proof -
  from add obtain act h1 G where
    f: "seq_forward F (st_heap st) (map snd (st_model st)) simg = Inr (act, h1)" and
    st': "st' = st\<lparr>st_heap := h1 @ [StyleLoss \<lparr>target = G, loss = None\<rparr>],
             st_model := add_module (st_model st) (''style_loss_'' @ format_nat (st_i st)) (length h1),
             st_style_losses := st_style_losses st @ [length h1]\<rparr>"
    by (rule add_style_loss_Inr)
  let ?h' = "h1 @ [StyleLoss \<lparr>target = G, loss = None\<rparr>]"
  have ext: "heap_extends (st_heap st) ?h'"
    using heap_extends_forward[OF f] heap_extends_append by (rule heap_extends_trans)
  have l1: "length h1 = length (st_heap st)" using seq_forward_frame[OF f] by simp
  have r: "model_roles b n ?h' (st_model st) = sk"
    using model_roles_extends[OF ext entries_ok_valid[OF ok]] roles by simp
  have o: "entries_ok b n ?h' (st_model st)" using ok ext by (rule entries_ok_extends)
  have a: "b \<le> length h1" "length h1 < length ?h'" "length h1 < b + n \<longrightarrow> recognised (?h' ! length h1)"
    using len l1 by simp_all
  have ro: "role_of b n ?h' (length h1) = SLoss"
    using len l1 by (simp add: role_of_def nth_append)
  from roles_add_fresh[OF r o key a] ro st'
  show "model_roles b n (st_heap st') (st_model st')
           = sk @ [(''style_loss_'' @ format_nat (st_i st), SLoss)]"
    and "entries_ok b n (st_heap st') (st_model st')"
    by simp_all
  show "st_i st' = st_i st" using st' by simp
qed

lemma layer_prefix_immutable_part: "layer_prefix (immutable_part ob) = layer_prefix ob"
  by (cases ob rule: layer_prefix.cases) auto

lemma name_layer_name:
  "name_layer h i a = Inr (i', name, la, h1) \<Longrightarrow> name = layer_prefix (h ! a) @ format_nat i'"
  by (auto simp: name_layer_def alloc_def split: obj.splits layer_kind.splits)

lemma expected_model_split:
  assumes "k < length obs"
  shows "expected_model cl sl obs =
     ((''0'', Norm) # concat (map (expected_block cl sl obs) [0..<k])) @
     expected_block cl sl obs k @
     concat (map (expected_block cl sl obs) [Suc k..<length obs])"
proof -
  have "[0..<length obs] = [0..<k] @ k # [Suc k..<length obs]"
    using assms by (metis le_add1 less_imp_add_positive upt_add_eq_append upt_conv_Cons add_0
        less_or_eq_imp_le)
  then show ?thesis by (simp add: expected_model_def)
qed

lemma convs_seen_Suc:
  "k < length obs \<Longrightarrow>
     convs_seen obs k = length (filter is_conv (take k obs)) + (if is_conv (obs ! k) then 1 else 0)"
  by (simp add: convs_seen_def take_Suc_conv_app_nth)

lemma scan_layer_step:
  assumes inv: "scan_inv base cl sl obs k st" and k: "k < length obs"
    and scan: "scan_layer F cl sl cimg simg st (base + k) = Inr st'"
    and dist: "distinct (map fst (expected_model cl sl obs))"
  shows "scan_inv base cl sl obs (Suc k) st'"
proof -
  let ?n = "length obs" and ?h = "st_heap st" and ?m = "st_model st"
  let ?sk = "(''0'', Norm) # concat (map (expected_block cl sl obs) [0..<k])"
  let ?name = "layer_name obs k" and ?i' = "convs_seen obs k"
  let ?r0 = "if is_relu (obs ! k) then FreshReLU else Child k"
  let ?ckey = "''content_loss_'' @ format_nat ?i'" and ?skey = "''style_loss_'' @ format_nat ?i'"
  let ?cpart = "if ?name \<in> set cl then [(?ckey, CLoss)] else []"
  let ?spart = "if ?name \<in> set sl then [(?skey, SLoss)] else []"
  from inv have roles: "model_roles base ?n ?h ?m = ?sk"
    and i: "st_i st = length (filter is_conv (take k obs))"
    and len: "base + ?n < length ?h"
    and imm: "\<forall>j<?n. immutable_part (?h ! (base + j)) = immutable_part (obs ! j)"
    and ok: "entries_ok base ?n ?h ?m"
    by (simp_all add: scan_inv_def)
  have block: "expected_block cl sl obs k = (?name, ?r0) # ?cpart @ ?spart"
    by (simp add: expected_block_def)
  define K where "K = map fst ?sk"
  have "distinct (K @ map fst ((?name, ?r0) # ?cpart @ ?spart) @
          map fst (concat (map (expected_block cl sl obs) [Suc k..<length obs])))"
    using dist unfolding expected_model_split[OF k] block K_def by (simp only: map_append)
  then have dK: "distinct (K @ map fst ((?name, ?r0) # ?cpart @ ?spart))"
    by (simp only: distinct_append append_assoc[symmetric])
  have d1: "?name \<notin> set (map fst ?sk)"
    using dK unfolding K_def[symmetric] by simp
  have d2: "?ckey \<notin> set (map fst (?sk @ [(?name, ?r0)]))" if "?name \<in> set cl"
    using dK that unfolding map_append K_def[symmetric] by auto
  have d3: "?skey \<notin> set (map fst ((?sk @ [(?name, ?r0)]) @ ?cpart))" if "?name \<in> set sl"
    using dK that unfolding map_append K_def[symmetric] by (auto split: if_splits)
  \<comment> \<open>the child and its name\<close>
  have imk: "immutable_part (?h ! (base + k)) = immutable_part (obs ! k)" using imm k by simp
  have same: "is_conv (?h ! (base + k)) = is_conv (obs ! k)"
    "is_relu (?h ! (base + k)) = is_relu (obs ! k)"
    "layer_prefix (?h ! (base + k)) = layer_prefix (obs ! k)"
    using imk by (metis is_conv_immutable_part, metis is_relu_immutable_part,
        metis layer_prefix_immutable_part)
  from scan obtain i' name la h1 st2 where
    n: "name_layer ?h (st_i st) (base + k) = Inr (i', name, la, h1)" and
    c0: "if name \<in> set cl
     then add_content_loss F cimg (st\<lparr>st_heap := h1, st_i := i',
            st_model := add_module ?m name la\<rparr>) = Inr st2
     else st2 = st\<lparr>st_heap := h1, st_i := i', st_model := add_module ?m name la\<rparr>" and
    s0: "if name \<in> set sl then add_style_loss F simg st2 = Inr st' else st' = st2"
    by (rule scan_layer_Inr)
  have i': "i' = ?i'"
    using name_layer_Inr(2)[OF n] same(1) i convs_seen_Suc[OF k] by simp
  have name: "name = ?name"
    using name_layer_name[OF n] same(3) i' by (simp add: layer_name_def)
  have rec: "recognised (?h ! (base + k))" using n by (rule name_layer_Inr(1))
  have ext1: "heap_extends ?h h1" using n by (rule name_layer_extends)
  have la: "base \<le> la" "la < length h1" "la < base + ?n \<longrightarrow> recognised (h1 ! la)"
    "role_of base ?n h1 la = ?r0"
    using name_layer_Inr(3)[OF n] same(2) len k rec
    by (auto simp: role_of_def nth_append split: if_splits)
  let ?st1 = "st\<lparr>st_heap := h1, st_i := i', st_model := add_module ?m name la\<rparr>"
  have r1: "model_roles base ?n h1 ?m = ?sk"
    using model_roles_extends[OF ext1 entries_ok_valid[OF ok]] roles by simp
  have o1: "entries_ok base ?n h1 ?m" using ok ext1 by (rule entries_ok_extends)
  have d1': "name \<notin> set (map fst ?sk)" using d1 name by simp
  note a1 = roles_add_fresh[OF r1 o1 d1' la(1,2,3)]
  have R1: "model_roles base ?n (st_heap ?st1) (st_model ?st1) = ?sk @ [(?name, ?r0)]"
    and O1: "entries_ok base ?n (st_heap ?st1) (st_model ?st1)"
    using a1 la(4) name by simp_all
  have L1: "base + ?n \<le> length (st_heap ?st1)"
    using len ext1 by (simp add: heap_extends_def)
  \<comment> \<open>the content loss\<close>
  have C: "model_roles base ?n (st_heap st2) (st_model st2) = (?sk @ [(?name, ?r0)]) @ ?cpart \<and>
           entries_ok base ?n (st_heap st2) (st_model st2) \<and> st_i st2 = ?i' \<and>
           heap_extends h1 (st_heap st2)"
  proof (cases "?name \<in> set cl")
    case True
    with c0 name have add: "add_content_loss F cimg ?st1 = Inr st2" by simp
    have key: "''content_loss_'' @ format_nat (st_i ?st1) \<notin> set (map fst (?sk @ [(?name, ?r0)]))"
      using d2[OF True] i' by simp
    from add_content_loss_roles[OF add R1 O1 key L1] add_content_loss_extends[OF add] True i'
    show ?thesis by simp
  next
    case False
    with c0 name have "st2 = ?st1" by simp
    with False R1 O1 i' show ?thesis by (simp add: heap_extends_refl)
  qed
  have L2: "base + ?n \<le> length (st_heap st2)"
    using L1 C by (simp add: heap_extends_def)
  \<comment> \<open>the style loss\<close>
  have S: "model_roles base ?n (st_heap st') (st_model st') = ((?sk @ [(?name, ?r0)]) @ ?cpart) @ ?spart \<and>
           entries_ok base ?n (st_heap st') (st_model st') \<and> st_i st' = ?i' \<and>
           heap_extends (st_heap st2) (st_heap st')"
  proof (cases "?name \<in> set sl")
    case True
    with s0 name have add: "add_style_loss F simg st2 = Inr st'" by simp
    have key: "''style_loss_'' @ format_nat (st_i st2) \<notin> set (map fst ((?sk @ [(?name, ?r0)]) @ ?cpart))"
      using d3[OF True] C by simp
    from add_style_loss_roles[OF add _ _ key L2] add_style_loss_extends[OF add] True C
    show ?thesis by simp
  next
    case False
    with s0 name have "st' = st2" by simp
    with False C show ?thesis by (simp add: heap_extends_refl)
  qed
  have ext: "heap_extends ?h (st_heap st')"
    using ext1 C S by (metis heap_extends_trans)
  have "[0..<Suc k] = [0..<k] @ [k]" by simp
  then have final: "(''0'', Norm) # concat (map (expected_block cl sl obs) [0..<Suc k])
      = ((?sk @ [(?name, ?r0)]) @ ?cpart) @ ?spart"
    unfolding block[symmetric] by (simp add: block)
  have "\<forall>j<?n. immutable_part (st_heap st' ! (base + j)) = immutable_part (obs ! j)"
    using imm len ext by (simp add: heap_extends_def)
  moreover have "base + ?n < length (st_heap st')" using len ext by (simp add: heap_extends_def)
  moreover have "st_i st' = length (filter is_conv (take (Suc k) obs))"
    using S by (simp add: convs_seen_def)
  ultimately show ?thesis
    unfolding scan_inv_def final using S by simp
qed

lemma scan_layers_structure:
  assumes "scan_layers F cl sl cimg simg st (map (\<lambda>j. base + j) [k..<length obs]) = Inr st'"
    and "scan_inv base cl sl obs k st" and "k \<le> length obs"
    and "distinct (map fst (expected_model cl sl obs))"
  shows "scan_inv base cl sl obs (length obs) st'"
  using assms
proof (induction "length obs - k" arbitrary: k st)
  case 0
  then show ?case by simp
next
  case (Suc d)
  then have k: "k < length obs" by simp
  then have "[k..<length obs] = k # [Suc k..<length obs]" by (rule upt_conv_Cons)
  with Suc.prems(1) obtain st1 where
    s1: "scan_layer F cl sl cimg simg st (base + k) = Inr st1" and
    s2: "scan_layers F cl sl cimg simg st1 (map (\<lambda>j. base + j) [Suc k..<length obs]) = Inr st'"
    by (auto split: sum.splits)
  have inv1: "scan_inv base cl sl obs (Suc k) st1"
    using Suc.prems(2) k s1 Suc.prems(4) by (rule scan_layer_step)
  have d: "d = length obs - Suc k" using Suc.hyps(2) by simp
  from Suc.hyps(1)[OF d s2 inv1 _ Suc.prems(4)] k show ?case by simp
qed

lemma scan_inv_initial:
  "scan_inv (length h) cl sl (map (\<lambda>a. h ! a) cnn) 0
     \<lparr>st_heap = (h @ map (\<lambda>a. h ! a) cnn) @ [Normalization_init nm ns],
      st_model = [(''0'', length h + length cnn)], st_i = 0,
      st_content_losses = [], st_style_losses = []\<rparr>"
  by (simp add: scan_inv_def model_roles_def role_of_def entries_ok_def nth_append
      Normalization_init_def)

text \<open>
  Claim C1, as amended: \<open>get_style_model_and_losses\<close> is one linear scan over the children
  of the copied network, in order.  Child \<open>k\<close> is named \<open>conv_i\<close>, \<open>relu_i\<close>, \<open>pool_i\<close> or
  \<open>bn_i\<close> with \<open>i\<close> the number of \<open>Conv2d\<close> children seen so far.  Provided the names so
  generated (with the names \<open>content_loss_i\<close> and \<open>style_loss_i\<close> of the loss modules) are
  pairwise distinct, the new model is the normalisation module followed by the children
  in their order, a \<open>ReLU\<close> child being replaced by a fresh out-of-place \<open>ReLU\<close>, with a
  content loss and then a style loss right after every layer whose name is in the
  respective list; finally everything after the last loss module is cut off, which leaves
  the normalisation module alone when no loss module was inserted.  The copies of the
  children keep their class.
\<close>

theorem scan_builds_expected_model:
  assumes run: "get_style_model_and_losses F h cnn nm ns simg cimg cl sl = Inr (h', mdl, sls, cls)"
    and dist: "distinct (map fst (expected_model cl sl (map (\<lambda>a. h ! a) cnn)))"
  shows "model_roles (length h) (length cnn) h' mdl
           = cut_after_last_loss (expected_model cl sl (map (\<lambda>a. h ! a) cnn)) \<and>
         (\<forall>k<length cnn. immutable_part (h' ! (length h + k)) = immutable_part (h ! (cnn ! k)))"
proof -
  let ?obs = "map (\<lambda>a. h ! a) cnn"
  let ?st0 = "\<lparr>st_heap = (h @ ?obs) @ [Normalization_init nm ns],
               st_model = [(''0'', length h + length cnn)], st_i = 0,
               st_content_losses = [], st_style_losses = []\<rparr>"
  from run obtain st where
    scan: "scan_layers F cl sl cimg simg ?st0 (map (\<lambda>k. length h + k) [0..<length cnn]) = Inr st" and
    res: "h' = st_heap st" "mdl = trim (st_heap st) (st_model st)"
    by (auto simp: get_style_model_and_losses_def deepcopy_def alloc_def split: sum.splits)
  have scan': "scan_layers F cl sl cimg simg ?st0 (map (\<lambda>j. length h + j) [0..<length ?obs]) = Inr st"
    using scan by simp
  have inv: "scan_inv (length h) cl sl ?obs (length ?obs) st"
    using scan' scan_inv_initial _ dist by (rule scan_layers_structure) simp
  then have roles: "model_roles (length h) (length cnn) (st_heap st) (st_model st)
        = expected_model cl sl ?obs"
    and ok: "entries_ok (length h) (length cnn) (st_heap st) (st_model st)"
    and imm: "\<forall>j<length cnn. immutable_part (st_heap st ! (length h + j)) = immutable_part (?obs ! j)"
    by (simp_all add: scan_inv_def expected_model_def)
  from model_roles_trim[OF ok] roles res imm show ?thesis by simp
qed

theorem scan_builds_expected_model_witness:
  "\<exists>h' mdl sls cls.
     get_style_model_and_losses sample_framework
        [Layer Conv2d [\<lparr>shape = [1, 1, 1, 1], data = [1]\<rparr>, \<lparr>shape = [1], data = [0]\<rparr>],
         Layer (ReLU True) [],
         Layer Conv2d [\<lparr>shape = [1, 1, 1, 1], data = [1]\<rparr>, \<lparr>shape = [1], data = [0]\<rparr>],
         Layer MaxPool2d []]
        [0, 1, 2, 3]
        \<lparr>shape = [1], data = [0]\<rparr> \<lparr>shape = [1], data = [1]\<rparr>
        \<lparr>shape = [1, 1, 1, 1], data = [1]\<rparr> \<lparr>shape = [1, 1, 1, 1], data = [1]\<rparr>
        content_layers_default style_layers_default = Inr (h', mdl, sls, cls) \<and>
     model_roles 4 4 h' mdl =
       [(''0'', Norm), (''conv_1'', Child 0), (''style_loss_1'', SLoss), (''relu_1'', FreshReLU),
        (''conv_2'', Child 2), (''style_loss_2'', SLoss)]"
proof -
  let ?conv = "Layer Conv2d [\<lparr>shape = [1, 1, 1, 1], data = [1]\<rparr>, \<lparr>shape = [1], data = [0]\<rparr>]"
  let ?h = "[?conv, Layer (ReLU True) [], ?conv, Layer MaxPool2d []]"
  let ?run = "get_style_model_and_losses sample_framework ?h [0, 1, 2, 3]
        \<lparr>shape = [1], data = [0]\<rparr> \<lparr>shape = [1], data = [1]\<rparr>
        \<lparr>shape = [1, 1, 1, 1], data = [1]\<rparr> \<lparr>shape = [1, 1, 1, 1], data = [1]\<rparr>
        content_layers_default style_layers_default"
  have "\<exists>r. ?run = Inr r" by (simp add: eval_defs)
  then obtain h' mdl sls cls where run: "?run = Inr (h', mdl, sls, cls)"
    by (metis prod_cases4)
  have obs: "map (\<lambda>a. ?h ! a) [0, 1, 2, 3] = ?h" by simp
  have em: "expected_model content_layers_default style_layers_default ?h =
       [(''0'', Norm), (''conv_1'', Child 0), (''style_loss_1'', SLoss), (''relu_1'', FreshReLU),
        (''conv_2'', Child 2), (''style_loss_2'', SLoss), (''pool_2'', Child 3)]"
    by (simp add: expected_model_def expected_block_def layer_name_def convs_seen_def
        format_nat.simps digit_def content_layers_default_def style_layers_default_def
        upt_rec[of _ "numeral _"])
  have dist: "distinct (map fst (expected_model content_layers_default style_layers_default
                (map (\<lambda>a. ?h ! a) [0, 1, 2, 3])))"
    unfolding obs em by simp
  have cut: "cut_after_last_loss (expected_model content_layers_default style_layers_default ?h) =
       [(''0'', Norm), (''conv_1'', Child 0), (''style_loss_1'', SLoss), (''relu_1'', FreshReLU),
        (''conv_2'', Child 2), (''style_loss_2'', SLoss)]"
    unfolding em by (simp add: cut_after_last_loss_def)
  have l: "length ?h = 4" "length [0, 1, 2, 3::nat] = 4" by simp_all
  note t = scan_builds_expected_model[OF run dist, unfolded obs cut l]
  from t run show ?thesis by blast
qed

text \<open>
  The claim as written fails when two children get the same name: \<open>add_module\<close> then
  replaces the module registered under the name instead of appending.  Here both pooling
  layers are named \<open>pool_1\<close>; the model holds only the second one, and one content loss
  where the description has two.
\<close>

theorem duplicate_names_overwrite:
  "(case get_style_model_and_losses sample_framework
        [Layer Conv2d [\<lparr>shape = [1, 1, 1, 1], data = [1]\<rparr>, \<lparr>shape = [1], data = [0]\<rparr>],
         Layer MaxPool2d [], Layer MaxPool2d []]
        [0, 1, 2]
        \<lparr>shape = [1], data = [0]\<rparr> \<lparr>shape = [1], data = [1]\<rparr>
        \<lparr>shape = [1, 1, 1, 1], data = [1]\<rparr> \<lparr>shape = [1, 1, 1, 1], data = [1]\<rparr>
        [''pool_1''] [] of
      Inl e \<Rightarrow> []
    | Inr (h', mdl, sls, cls) \<Rightarrow> model_roles 3 3 h' mdl)
   = [(''0'', Norm), (''conv_1'', Child 0), (''pool_1'', Child 2), (''content_loss_1'', CLoss)] \<and>
   cut_after_last_loss (expected_model [''pool_1''] []
        [Layer Conv2d [\<lparr>shape = [1, 1, 1, 1], data = [1]\<rparr>, \<lparr>shape = [1], data = [0]\<rparr>],
         Layer MaxPool2d [], Layer MaxPool2d []])
   = [(''0'', Norm), (''conv_1'', Child 0), (''pool_1'', Child 1), (''content_loss_1'', CLoss),
      (''pool_1'', Child 2), (''content_loss_1'', CLoss)]"
  by (simp add: eval_defs model_roles_def role_of_def expected_model_def expected_block_def
      layer_name_def convs_seen_def cut_after_last_loss_def)

section \<open>The closure and the optimisation\<close>



lemma write_states_frame:
  "length (write_states h as pss) = length h \<and>
   (\<forall>b. b \<notin> set as \<longrightarrow> write_states h as pss ! b = h ! b) \<and>
   (\<forall>b. recorded_loss (write_states h as pss ! b) = recorded_loss (h ! b))"
proof (induction h as pss rule: write_states.induct)
  case (1 h a as ps pss)
  let ?h1 = "case h ! a of Layer k _ \<Rightarrow> h[a := Layer k ps] | _ \<Rightarrow> h"
  have h1: "length ?h1 = length h \<and> (\<forall>b. b \<noteq> a \<longrightarrow> ?h1 ! b = h ! b) \<and>
      (\<forall>b. recorded_loss (?h1 ! b) = recorded_loss (h ! b))"
  proof (cases "h ! a")
    case (Layer k qs)
    show ?thesis
    proof (cases "a < length h")
      case True
      with Layer show ?thesis by (auto simp: nth_list_update)
    next
      case False
      with Layer show ?thesis by (simp add: list_update_beyond)
    qed
  qed simp_all
  with 1 show ?case by auto
qed simp_all

lemma clamp_inplace_frame:
  "clamp_inplace h i = Inr h' \<Longrightarrow>
     length h' = length h \<and> (\<forall>b. b \<noteq> i \<longrightarrow> h' ! b = h ! b) \<and>
     (\<forall>b. recorded_loss (h' ! b) = recorded_loss (h ! b))"
  by (cases "h ! i"; cases "i < length h")
     (auto simp: clamp_inplace_def nth_list_update list_update_beyond)

lemma zero_grad_frame:
  "length (zero_grad h ps) = length h \<and> (\<forall>b. b \<notin> set ps \<longrightarrow> zero_grad h ps ! b = h ! b)"
proof (induction h ps rule: zero_grad.induct)
  case (1 h)
  then show ?case by simp
next
  case (2 h p ps)
  let ?h1 = "case h ! p of Tensor t (Some g) \<Rightarrow> h[p := Tensor t (Some (g\<lparr>data := map (\<lambda>_. 0) (data g)\<rparr>))]
                | _ \<Rightarrow> h"
  have "length ?h1 = length h \<and> (\<forall>b. b \<noteq> p \<longrightarrow> ?h1 ! b = h ! b)"
    by (auto split: obj.splits option.splits)
  with 2 show ?case by auto
qed

lemma backward_frame:
  assumes "backward F h ms i sw cw = Inr h'"
  shows "length h' = length h" and "b \<notin> set ms \<Longrightarrow> b \<noteq> i \<Longrightarrow> h' ! b = h ! b"
    and "recorded_loss (h' ! b) = recorded_loss (h ! b)"
proof -
  from assms obtain t g d states where hi: "h ! i = Tensor t g"
    and h': "h' = (write_states h ms states)[i := Tensor t (Some (add_grad g d))]"
    by (auto simp: backward_def split: obj.splits prod.splits)
  note w = write_states_frame[of h ms states]
  show "length h' = length h" using h' w by simp
  show "b \<notin> set ms \<Longrightarrow> b \<noteq> i \<Longrightarrow> h' ! b = h ! b" using h' w by simp
  have wi: "recorded_loss (write_states h ms states ! i) = None"
    using w hi by simp
  show "recorded_loss (h' ! b) = recorded_loss (h ! b)"
  proof (cases "b = i \<and> i < length h")
    case True
    with h' w hi show ?thesis by simp
  next
    case False
    then have "h' ! b = write_states h ms states ! b"
      using h' w by (auto simp: nth_list_update list_update_beyond)
    with w show ?thesis by simp
  qed
qed

lemma closure_Inr:
  assumes "closure F env h run = Inr (v, h', run')"
  obtains h1 x g h3 y ss cs where
    "clamp_inplace h (env_input_img env) = Inr h1"
    "zero_grad h1 (env_params env) ! env_input_img env = Tensor x g"
    "seq_forward F (zero_grad h1 (env_params env)) (map snd (env_model env)) x = Inr (y, h3)"
    "sum_losses h3 (env_style_losses env) = Inr ss"
    "sum_losses h3 (env_content_losses env) = Inr cs"
    "backward F h3 (map snd (env_model env)) (env_input_img env)
        (env_style_weight env) (env_content_weight env) = Inr h'"
    "v = ss * env_style_weight env + cs * env_content_weight env"
    "run' = run + 1"
  using assms
  by (auto simp: closure_def split: sum.splits obj.splits if_splits prod.splits)

section \<open>What the style transfer writes\<close>

lemma frame_ok_refl: "frame_ok base i h h"
  by (simp add: frame_ok_def)

lemma frame_ok_trans: "frame_ok base i h1 h2 \<Longrightarrow> frame_ok base i h2 h3 \<Longrightarrow> frame_ok base i h1 h3"
  by (simp add: frame_ok_def)

lemma add_module_addrs:
  assumes "\<forall>e\<in>set m. base \<le> snd e" "base \<le> a"
  shows "\<forall>e\<in>set (add_module m name a). base \<le> snd e"
  using assms set_add_module[of m name a] by auto

lemma scan_layer_frame:
  assumes scan: "scan_layer F cl sl cimg simg st a = Inr st'"
    and a: "base \<le> a" and len: "base \<le> length (st_heap st)"
    and m: "\<forall>e\<in>set (st_model st). base \<le> snd e"
  shows "(\<forall>b<base. st_heap st' ! b = st_heap st ! b) \<and> (\<forall>e\<in>set (st_model st'). base \<le> snd e)"
proof -
  from scan obtain i' name la h1 st2 where
    n: "name_layer (st_heap st) (st_i st) a = Inr (i', name, la, h1)" and
    c: "if name \<in> set cl
     then add_content_loss F cimg (st\<lparr>st_heap := h1, st_i := i',
            st_model := add_module (st_model st) name la\<rparr>) = Inr st2
     else st2 = st\<lparr>st_heap := h1, st_i := i', st_model := add_module (st_model st) name la\<rparr>" and
    s: "if name \<in> set sl then add_style_loss F simg st2 = Inr st' else st' = st2"
    by (rule scan_layer_Inr)
  let ?st1 = "st\<lparr>st_heap := h1, st_i := i', st_model := add_module (st_model st) name la\<rparr>"
  have 1: "(\<forall>b<base. st_heap ?st1 ! b = st_heap st ! b) \<and> (\<forall>e\<in>set (st_model ?st1). base \<le> snd e) \<and>
           base \<le> length (st_heap ?st1)"
  proof -
    have la: "base \<le> la" "base \<le> length h1" "\<forall>b<base. h1 ! b = st_heap st ! b"
      using name_layer_Inr(3)[OF n] a len by (auto simp: nth_append split: if_splits)
    have "\<forall>e\<in>set (add_module (st_model st) name la). base \<le> snd e"
      using m la(1) by (rule add_module_addrs)
    with la show ?thesis by simp
  qed
  have step: "(\<forall>b<base. h' ! b = st_heap s0 ! b) \<and> base \<le> length h'"
    if f: "seq_forward F (st_heap s0) (map snd (st_model s0)) x = Inr (y, h')"
      and s0: "\<forall>e\<in>set (st_model s0). base \<le> snd e" "base \<le> length (st_heap s0)"
    for s0 x y h'
  proof -
    have "h' ! b = st_heap s0 ! b" if "b < base" for b
    proof -
      from that s0 have "b \<notin> set (map snd (st_model s0))" by auto
      with seq_forward_frame[OF f] show ?thesis by simp
    qed
    with seq_forward_frame[OF f] s0 show ?thesis by simp
  qed
  have 2: "(\<forall>b<base. st_heap st2 ! b = st_heap st ! b) \<and> (\<forall>e\<in>set (st_model st2). base \<le> snd e) \<and>
           base \<le> length (st_heap st2)"
  proof (cases "name \<in> set cl")
    case True
    with c have add: "add_content_loss F cimg ?st1 = Inr st2" by simp
    from add obtain act hf where
      f: "seq_forward F (st_heap ?st1) (map snd (st_model ?st1)) cimg = Inr (act, hf)" and
      st2: "st2 = ?st1\<lparr>st_heap := hf @ [ContentLoss \<lparr>target = act, loss = None\<rparr>],
             st_model := add_module (st_model ?st1) (''content_loss_'' @ format_nat (st_i ?st1)) (length hf),
             st_content_losses := st_content_losses ?st1 @ [length hf]\<rparr>"
      by (rule add_content_loss_Inr)
    from step[OF f] 1 have hf: "\<forall>b<base. hf ! b = st_heap st ! b" "base \<le> length hf" by simp_all
    have "\<forall>e\<in>set (add_module (st_model ?st1)
              (''content_loss_'' @ format_nat (st_i ?st1)) (length hf)). base \<le> snd e"
      using 1 hf(2) by (intro add_module_addrs) blast+
    then have "\<forall>e\<in>set (st_model st2). base \<le> snd e" unfolding st2 by simp
    with hf st2 show ?thesis by (simp add: nth_append)
  next
    case False
    with c 1 show ?thesis by simp
  qed
  show ?thesis
  proof (cases "name \<in> set sl")
    case True
    with s have add: "add_style_loss F simg st2 = Inr st'" by simp
    from add obtain act hf G where
      f: "seq_forward F (st_heap st2) (map snd (st_model st2)) simg = Inr (act, hf)" and
      st': "st' = st2\<lparr>st_heap := hf @ [StyleLoss \<lparr>target = G, loss = None\<rparr>],
             st_model := add_module (st_model st2) (''style_loss_'' @ format_nat (st_i st2)) (length hf),
             st_style_losses := st_style_losses st2 @ [length hf]\<rparr>"
      by (rule add_style_loss_Inr)
    from step[OF f] 2 have hf: "\<forall>b<base. hf ! b = st_heap st ! b" "base \<le> length hf" by simp_all
    have "\<forall>e\<in>set (add_module (st_model st2)
              (''style_loss_'' @ format_nat (st_i st2)) (length hf)). base \<le> snd e"
      using 2 hf(2) by (intro add_module_addrs) blast+
    then have "\<forall>e\<in>set (st_model st'). base \<le> snd e" unfolding st' by simp
    with hf st' show ?thesis by (simp add: nth_append)
  next
    case False
    with s 2 show ?thesis by simp
  qed
qed

lemma scan_layers_frame:
  assumes "scan_layers F cl sl cimg simg st as = Inr st'"
    and "\<forall>a\<in>set as. base \<le> a" and "base \<le> length (st_heap st)"
    and "\<forall>e\<in>set (st_model st). base \<le> snd e"
  shows "(\<forall>b<base. st_heap st' ! b = st_heap st ! b) \<and> (\<forall>e\<in>set (st_model st'). base \<le> snd e)"
  using assms
proof (induction as arbitrary: st)
  case Nil
  then show ?case by simp
next
  case (Cons a as)
  from Cons.prems(1) obtain st1 where
    s1: "scan_layer F cl sl cimg simg st a = Inr st1" and
    s2: "scan_layers F cl sl cimg simg st1 as = Inr st'"
    by (auto split: sum.splits)
  have f1: "(\<forall>b<base. st_heap st1 ! b = st_heap st ! b) \<and> (\<forall>e\<in>set (st_model st1). base \<le> snd e)"
    using scan_layer_frame[OF s1 _ Cons.prems(3,4)] Cons.prems(2) by simp
  have l1: "base \<le> length (st_heap st1)"
    using scan_layer_extends[OF s1] Cons.prems(3) by (simp add: heap_extends_def)
  from Cons.IH[OF s2 _ l1] Cons.prems(2) f1 show ?case by simp
qed

lemma builder_frame:
  assumes "get_style_model_and_losses F h cnn nm ns simg cimg cl sl = Inr (h1, mdl, sls, cls)"
  shows "length h \<le> length h1" and "\<forall>b<length h. h1 ! b = h ! b"
    and "\<forall>e\<in>set mdl. length h \<le> snd e"
proof -
  let ?st0 = "\<lparr>st_heap = (h @ map (\<lambda>a. h ! a) cnn) @ [Normalization_init nm ns],
               st_model = [(''0'', length h + length cnn)], st_i = 0,
               st_content_losses = [], st_style_losses = []\<rparr>"
  let ?cnn' = "map (\<lambda>k. length h + k) [0..<length cnn]"
  from assms obtain st where
    scan: "scan_layers F cl sl cimg simg ?st0 ?cnn' = Inr st" and
    res: "h1 = st_heap st" "mdl = trim (st_heap st) (st_model st)"
    by (auto simp: get_style_model_and_losses_def deepcopy_def alloc_def split: sum.splits)
  have fr: "(\<forall>b<length h. st_heap st ! b = st_heap ?st0 ! b) \<and> (\<forall>e\<in>set (st_model st). length h \<le> snd e)"
    using scan by (rule scan_layers_frame) auto
  show "length h \<le> length h1"
    using scan_layers_extends[OF scan] res by (simp add: heap_extends_def)
  show "\<forall>b<length h. h1 ! b = h ! b" using fr res by (simp add: nth_append)
  have "set mdl \<subseteq> set (st_model st)" using res by (simp add: trim_def set_take_subset)
  with fr show "\<forall>e\<in>set mdl. length h \<le> snd e" by blast
qed

lemma write_params_frame:
  "length (write_params h ps vs) = length h \<and>
   (\<forall>b. b \<notin> set ps \<longrightarrow> write_params h ps vs ! b = h ! b)"
proof (induction h ps vs rule: write_params.induct)
  case (1 h p ps v vs)
  let ?h1 = "case h ! p of Tensor _ g \<Rightarrow> h[p := Tensor v g] | _ \<Rightarrow> h"
  have "length ?h1 = length h \<and> (\<forall>b. b \<noteq> p \<longrightarrow> ?h1 ! b = h ! b)"
    by (auto split: obj.splits)
  with 1 show ?case by auto
qed simp_all

lemma closure_frame:
  assumes c: "closure F env h run = Inr (v, h', run')"
    and m: "\<forall>e\<in>set (env_model env). base \<le> snd e"
    and p: "env_params env = [env_input_img env]"
  shows "frame_ok base (env_input_img env) h h'"
proof -
  let ?i = "env_input_img env"
  from c obtain h1 x g h3 y ss cs where
    cl: "clamp_inplace h ?i = Inr h1" and
    f: "seq_forward F (zero_grad h1 (env_params env)) (map snd (env_model env)) x = Inr (y, h3)" and
    b: "backward F h3 (map snd (env_model env)) ?i
        (env_style_weight env) (env_content_weight env) = Inr h'"
    by (rule closure_Inr)
  let ?h2 = "zero_grad h1 (env_params env)"
  have notin: "a \<notin> set (map snd (env_model env))" if "a < base" for a
    using m that by auto
  have 1: "length h1 = length h" "\<And>a. a \<noteq> ?i \<Longrightarrow> h1 ! a = h ! a"
    using clamp_inplace_frame[OF cl] by simp_all
  have 2: "length ?h2 = length h1" "\<And>a. a \<noteq> ?i \<Longrightarrow> ?h2 ! a = h1 ! a"
    using zero_grad_frame[of h1 "env_params env"] p by simp_all
  have 3: "length h3 = length ?h2" "\<And>a. a < base \<Longrightarrow> h3 ! a = ?h2 ! a"
    using seq_forward_frame[OF f] notin by simp_all
  have 4: "length h' = length h3" "\<And>a. a < base \<Longrightarrow> a \<noteq> ?i \<Longrightarrow> h' ! a = h3 ! a"
    using backward_frame(1,2)[OF b] notin by simp_all
  show ?thesis
    unfolding frame_ok_def using 1 2 3 4 by simp
qed

lemma lbfgs_iterate_frame:
  assumes "lbfgs_iterate F env k st l h run = Inr (h', run', st')"
    and "\<forall>e\<in>set (env_model env). base \<le> snd e"
    and "env_params env = [env_input_img env]"
  shows "frame_ok base (env_input_img env) h h'"
  using assms
proof (induction k arbitrary: st l h run)
  case 0
  then show ?case by (simp add: frame_ok_refl)
next
  case (Suc k)
  from Suc.prems(1) obtain ps finished vs st1 where
    r: "read_params h (env_params env) = Inr ps" and
    u: "lbfgs F st l ps = (finished, vs, st1)" and
    rest: "if finished \<or> k = 0 then h' = write_params h (env_params env) vs
           else (\<exists>l1 h1 run1. closure F env (write_params h (env_params env) vs) run = Inr (l1, h1, run1) \<and>
                   lbfgs_iterate F env k st1 l1 h1 run1 = Inr (h', run', st'))"
    by (auto split: sum.splits prod.splits if_splits)
  let ?w = "write_params h (env_params env) vs"
  have w: "frame_ok base (env_input_img env) h ?w"
    using write_params_frame[of h "env_params env" vs] Suc.prems(3) by (simp add: frame_ok_def)
  show ?case
  proof (cases "finished \<or> k = 0")
    case True
    with rest w show ?thesis by simp
  next
    case False
    with rest obtain l1 h1 run1 where
      c: "closure F env ?w run = Inr (l1, h1, run1)" and
      it: "lbfgs_iterate F env k st1 l1 h1 run1 = Inr (h', run', st')" by auto
    from closure_frame[OF c Suc.prems(2,3)] Suc.IH[OF it Suc.prems(2,3)] w
    show ?thesis by (metis frame_ok_trans)
  qed
qed

lemma step_frame:
  assumes "step F env st h run = Inr (h', run', st')"
    and "\<forall>e\<in>set (env_model env). base \<le> snd e"
    and "env_params env = [env_input_img env]"
  shows "frame_ok base (env_input_img env) h h'"
proof -
  from assms(1) obtain l h1 run1 where
    c: "closure F env h run = Inr (l, h1, run1)" and
    it: "lbfgs_iterate F env 20 st l h1 run1 = Inr (h', run', st')"
    by (auto simp: step_def split: sum.splits prod.splits)
  from closure_frame[OF c assms(2,3)] lbfgs_iterate_frame[OF it assms(2,3)]
  show ?thesis by (rule frame_ok_trans)
qed

lemma optimize_frame:
  assumes "optimize F env num_steps st h run = Inr (h', run', st')"
    and "\<forall>e\<in>set (env_model env). base \<le> snd e"
    and "env_params env = [env_input_img env]"
  shows "frame_ok base (env_input_img env) h h'"
  using assms
proof (induction F env num_steps st h run rule: optimize.induct)
  case (1 F env num_steps st h run)
  show ?case
  proof (cases "run \<le> num_steps")
    case True
    with "1.prems"(1) obtain h1 run1 st1 where
      s: "step F env st h run = Inr (h1, run1, st1)" and
      o: "optimize F env num_steps st1 h1 run1 = Inr (h', run', st')"
      by (subst (asm) optimize.simps) (auto split: sum.splits prod.splits)
    from step_frame[OF s "1.prems"(2,3)] "1.IH"[OF True s refl refl o "1.prems"(2,3)]
    show ?thesis by (rule frame_ok_trans)
  next
    case False
    with "1.prems"(1) have "h' = h" by (subst (asm) optimize.simps) simp
    then show ?thesis by (simp add: frame_ok_refl)
  qed
qed

text \<open>
  Claim C8: the style transfer optimises only the image.  The optimiser built by
  \<open>get_input_optimizer\<close> holds the image as its sole parameter;
  \<open>get_style_model_and_losses\<close> copies the network before it builds the model, so that
  the model consists of objects created by the call and the caller's objects are as they
  were; and after a complete run of \<open>run_style_transfer\<close> every object that the caller
  had, the pretrained network with its weights among them, is unchanged, the image
  excepted, which is the object returned.
\<close>

theorem only_the_image_is_written:
  "params (get_input_optimizer input_img) = [input_img] \<and>
   (get_style_model_and_losses F h cnn nm ns simg cimg cl sl = Inr (h1, mdl, sls, cls) \<longrightarrow>
      length h \<le> length h1 \<and> (\<forall>a<length h. h1 ! a = h ! a) \<and>
      (\<forall>e\<in>set mdl. length h \<le> snd e)) \<and>
   (run_style_transfer F h cnn nm ns cimg simg input_img num_steps sw cw = Inr (r, h') \<and>
    input_img < length h \<longrightarrow>
      r = input_img \<and> length h \<le> length h' \<and>
      (\<forall>a<length h. a \<noteq> input_img \<longrightarrow> h' ! a = h ! a))"
proof (intro conjI impI)
  show "params (get_input_optimizer input_img) = [input_img]"
    by (simp add: get_input_optimizer_def)
next
  assume b: "get_style_model_and_losses F h cnn nm ns simg cimg cl sl = Inr (h1, mdl, sls, cls)"
  show "length h \<le> length h1" using b by (rule builder_frame(1))
  show "\<forall>a<length h. h1 ! a = h ! a" using b by (rule builder_frame(2))
  show "\<forall>e\<in>set mdl. length h \<le> snd e" using b by (rule builder_frame(3))
next
  assume "run_style_transfer F h cnn nm ns cimg simg input_img num_steps sw cw = Inr (r, h') \<and>
    input_img < length h"
  then have run: "run_style_transfer F h cnn nm ns cimg simg input_img num_steps sw cw = Inr (r, h')"
    and i: "input_img < length h" by simp_all
  let ?env = "\<lambda>model style_losses content_losses.
        \<lparr>env_model = model, env_style_losses = style_losses,
         env_content_losses = content_losses, env_input_img = input_img,
         env_params = params (get_input_optimizer input_img),
         env_style_weight = sw, env_content_weight = cw\<rparr>"
  obtain hb model style_losses content_losses where
    b: "get_style_model_and_losses F h cnn nm ns simg cimg
          content_layers_default style_layers_default = Inr (hb, model, style_losses, content_losses)"
  proof (cases "get_style_model_and_losses F h cnn nm ns simg cimg
          content_layers_default style_layers_default")
    case (Inl e)
    with run show ?thesis by (simp add: run_style_transfer_def)
  next
    case (Inr res)
    then show ?thesis using that by (cases res) auto
  qed
  obtain h2 run' st where
    o: "optimize F (?env model style_losses content_losses) num_steps
          (opt_state (get_input_optimizer input_img)) hb 0 = Inr (h2, run', st)"
  proof (cases "optimize F (?env model style_losses content_losses) num_steps
          (opt_state (get_input_optimizer input_img)) hb 0")
    case (Inl e)
    with run b show ?thesis by (simp add: run_style_transfer_def)
  next
    case (Inr res)
    then show ?thesis using that by (cases res) auto
  qed
  have c: "clamp_inplace h2 input_img = Inr h'" and r: "r = input_img"
    using run b o by (simp_all add: run_style_transfer_def split: sum.splits)
  note fb = builder_frame[OF b]
  have p: "env_params (?env model style_losses content_losses)
         = [env_input_img (?env model style_losses content_losses)]"
    by (simp add: get_input_optimizer_def)
  have m: "\<forall>e\<in>set (env_model (?env model style_losses content_losses)). length h \<le> snd e"
    using fb(3) by simp
  from optimize_frame[OF o m p]
  have fo: "length h2 = length hb" "\<And>a. a < length h \<Longrightarrow> a \<noteq> input_img \<Longrightarrow> h2 ! a = hb ! a"
    by (simp_all add: frame_ok_def)
  note fc = clamp_inplace_frame[OF c]
  show "r = input_img" by (rule r)
  show "length h \<le> length h'" using fb(1) fo(1) fc by simp
  show "\<forall>a<length h. a \<noteq> input_img \<longrightarrow> h' ! a = h ! a"
    using fb(2) fo(2) fc by simp
qed

lemma lbfgs_iterate_numeral:
  "lbfgs_iterate F env (numeral n) st l h run =
     (case read_params h (env_params env) of
        Inl e \<Rightarrow> Inl e
      | Inr ps \<Rightarrow>
          (case lbfgs F st l ps of
             (finished, vs, st') \<Rightarrow>
               if finished \<or> pred_numeral n = 0
               then Inr (write_params h (env_params env) vs, run, st')
               else
                 (case closure F env (write_params h (env_params env) vs) run of
                    Inl e \<Rightarrow> Inl e
                  | Inr (l', h', run') \<Rightarrow> lbfgs_iterate F env (pred_numeral n) st' l' h' run')))"
  by (simp only: numeral_eq_Suc lbfgs_iterate.simps)

theorem only_the_image_is_written_witness:
  "get_style_model_and_losses sample_framework
      [Layer Conv2d [\<lparr>shape = [1, 1, 1, 1], data = [1]\<rparr>, \<lparr>shape = [1], data = [0]\<rparr>],
       Layer (ReLU True) [], Tensor \<lparr>shape = [1, 1, 1, 2], data = [2, 1 / 2]\<rparr> None]
      [0, 1] \<lparr>shape = [1], data = [0]\<rparr> \<lparr>shape = [1], data = [1]\<rparr>
      \<lparr>shape = [1, 1, 1, 2], data = [0, 1]\<rparr> \<lparr>shape = [1, 1, 1, 2], data = [1, 0]\<rparr>
      content_layers_default style_layers_default
    = Inr ([Layer Conv2d [\<lparr>shape = [1, 1, 1, 1], data = [1]\<rparr>, \<lparr>shape = [1], data = [0]\<rparr>],
            Layer (ReLU True) [], Tensor \<lparr>shape = [1, 1, 1, 2], data = [2, 1 / 2]\<rparr> None,
            Layer Conv2d [\<lparr>shape = [1, 1, 1, 1], data = [1]\<rparr>, \<lparr>shape = [1], data = [0]\<rparr>],
            Layer (ReLU True) [],
            Normalization \<lparr>shape = [1, 1, 1], data = [0]\<rparr> \<lparr>shape = [1, 1, 1], data = [1]\<rparr>,
            StyleLoss \<lparr>target = \<lparr>shape = [1, 1], data = [1 / 2]\<rparr>, loss = None\<rparr>,
            Layer (ReLU False) []],
           [(''0'', 5), (''conv_1'', 3), (''style_loss_1'', 6)], [6], []) \<and>
   run_style_transfer sample_framework
      [Layer Conv2d [\<lparr>shape = [1, 1, 1, 1], data = [1]\<rparr>, \<lparr>shape = [1], data = [0]\<rparr>],
       Layer (ReLU True) [], Tensor \<lparr>shape = [1, 1, 1, 2], data = [2, 1 / 2]\<rparr> None]
      [0, 1] \<lparr>shape = [1], data = [0]\<rparr> \<lparr>shape = [1], data = [1]\<rparr>
      \<lparr>shape = [1, 1, 1, 2], data = [1, 0]\<rparr> \<lparr>shape = [1, 1, 1, 2], data = [0, 1]\<rparr>
      2 2 1000000 1
    = Inr (2, [Layer Conv2d [\<lparr>shape = [1, 1, 1, 1], data = [1]\<rparr>, \<lparr>shape = [1], data = [0]\<rparr>],
            Layer (ReLU True) [],
            Tensor \<lparr>shape = [1, 1, 1, 2], data = [1, 1 / 2]\<rparr>
              (Some \<lparr>shape = [1, 1, 1, 2], data = [0, 0]\<rparr>),
            Layer Conv2d [\<lparr>shape = [1, 1, 1, 1], data = [1]\<rparr>, \<lparr>shape = [1], data = [0]\<rparr>],
            Layer (ReLU True) [],
            Normalization \<lparr>shape = [1, 1, 1], data = [0]\<rparr> \<lparr>shape = [1, 1, 1], data = [1]\<rparr>,
            StyleLoss \<lparr>target = \<lparr>shape = [1, 1], data = [1 / 2]\<rparr>, loss = Some (1 / 64)\<rparr>,
            Layer (ReLU False) []])"
proof -
  let ?h = "[Layer Conv2d [\<lparr>shape = [1, 1, 1, 1], data = [1]\<rparr>, \<lparr>shape = [1], data = [0]\<rparr>],
       Layer (ReLU True) [], Tensor \<lparr>shape = [1, 1, 1, 2], data = [2, 1 / 2]\<rparr> None]"
  let ?hb = "[Layer Conv2d [\<lparr>shape = [1, 1, 1, 1], data = [1]\<rparr>, \<lparr>shape = [1], data = [0]\<rparr>],
            Layer (ReLU True) [], Tensor \<lparr>shape = [1, 1, 1, 2], data = [2, 1 / 2]\<rparr> None,
            Layer Conv2d [\<lparr>shape = [1, 1, 1, 1], data = [1]\<rparr>, \<lparr>shape = [1], data = [0]\<rparr>],
            Layer (ReLU True) [],
            Normalization \<lparr>shape = [1, 1, 1], data = [0]\<rparr> \<lparr>shape = [1, 1, 1], data = [1]\<rparr>,
            StyleLoss \<lparr>target = \<lparr>shape = [1, 1], data = [1 / 2]\<rparr>, loss = None\<rparr>,
            Layer (ReLU False) []]"
  let ?h' = "[Layer Conv2d [\<lparr>shape = [1, 1, 1, 1], data = [1]\<rparr>, \<lparr>shape = [1], data = [0]\<rparr>],
            Layer (ReLU True) [],
            Tensor \<lparr>shape = [1, 1, 1, 2], data = [1, 1 / 2]\<rparr>
              (Some \<lparr>shape = [1, 1, 1, 2], data = [0, 0]\<rparr>),
            Layer Conv2d [\<lparr>shape = [1, 1, 1, 1], data = [1]\<rparr>, \<lparr>shape = [1], data = [0]\<rparr>],
            Layer (ReLU True) [],
            Normalization \<lparr>shape = [1, 1, 1], data = [0]\<rparr> \<lparr>shape = [1, 1, 1], data = [1]\<rparr>,
            StyleLoss \<lparr>target = \<lparr>shape = [1, 1], data = [1 / 2]\<rparr>, loss = Some (1 / 64)\<rparr>,
            Layer (ReLU False) []]"
  let ?mean = "\<lparr>shape = [1], data = [0]\<rparr>" and ?std = "\<lparr>shape = [1], data = [1]\<rparr>"
  let ?c = "\<lparr>shape = [1, 1, 1, 2], data = [1, 0]\<rparr>" and ?s = "\<lparr>shape = [1, 1, 1, 2], data = [0, 1]\<rparr>"
  have b: "get_style_model_and_losses sample_framework ?h [0, 1] ?mean ?std ?s ?c
      content_layers_default style_layers_default
    = Inr (?hb, [(''0'', 5), (''conv_1'', 3), (''style_loss_1'', 6)], [6], [])"
    by (simp add: eval_defs)
  let ?env = "\<lparr>env_model = [(''0'', 5), (''conv_1'', 3), (''style_loss_1'', 6)],
       env_style_losses = [6], env_content_losses = [], env_input_img = 2, env_params = [2],
       env_style_weight = 1000000, env_content_weight = 1\<rparr>"
  note closure_eval = step_def lbfgs_iterate_numeral
        closure_def clamp_inplace_def backward_def add_grad_def module_forward_def
        sample_framework_def sample_sub_div_def sample_apply_layer_def conv2d_def numel_def
        StyleLoss_forward_def mse_loss_def gram_matrix_4d upt_rec[of _ "numeral _"]
        power2_eq_square
  have s0: "step sample_framework ?env [] ?hb 0 = Inr (?h', 1, [])"
    by (simp add: closure_eval)
  have s1: "step sample_framework ?env [] ?h' 1 = Inr (?h', 2, [])"
    by (simp add: closure_eval)
  have s2: "step sample_framework ?env [] ?h' 2 = Inr (?h', 3, [])"
    by (simp add: closure_eval)
  have o3: "optimize sample_framework ?env 2 [] ?h' 3 = Inr (?h', 3, [])"
    by (subst optimize.simps) simp
  have o2: "optimize sample_framework ?env 2 [] ?h' 2 = Inr (?h', 3, [])"
    by (subst optimize.simps, subst s2, simp only: sum.case prod.case o3, simp)
  have o1: "optimize sample_framework ?env 2 [] ?h' 1 = Inr (?h', 3, [])"
    by (subst optimize.simps, subst s1, simp only: sum.case prod.case o2, simp)
  have o0: "optimize sample_framework ?env 2 [] ?hb 0 = Inr (?h', 3, [])"
    by (subst optimize.simps, subst s0, simp only: sum.case prod.case o1, simp)
  have r: "run_style_transfer sample_framework ?h [0, 1] ?mean ?std ?c ?s 2 2 1000000 1 = Inr (2, ?h')"
    unfolding run_style_transfer_def b get_input_optimizer_def
    by (simp only: sum.case prod.case optimizer.simps o0) (simp add: clamp_inplace_def)
  note t = only_the_image_is_written[where input_img = 2 and F = sample_framework and h = ?h
      and cnn = "[0, 1]" and nm = ?mean and ns = ?std and simg = ?s and cimg = ?c
      and cl = content_layers_default and sl = style_layers_default and ?h1.0 = ?hb
      and mdl = "[(''0'', 5), (''conv_1'', 3), (''style_loss_1'', 6)]" and sls = "[6]"
      and cls = "[]" and num_steps = 2 and sw = 1000000 and cw = 1 and r = 2 and h' = ?h']
  from t b r show ?thesis by simp
qed

section \<open>The objective of the optimisation\<close>








































section \<open>The classifier\<close>

lemma Net_forward_ops:
  "Net_forward ap size_of (Net_init\<lparr>training := mode\<rparr>) s x =
     (case run_ops ap (conv_block 1 64 @ conv_block 64 128 @ conv_block 128 128) s x of
        Inl e \<Rightarrow> Inl e
      | Inr (x3, s3) \<Rightarrow>
          run_ops ap [view_rows (num_flat_features (size_of x3)), Linear_op 128 52, BatchNorm1d_op 52,
                      relu, dropout mode, Linear_op 52 10] s3 x3)"
  by (simp add: Net_forward_def Net_init_def conv_block_def call_def split: sum.splits prod.splits)

lemma train_batch_sgd:
  assumes "train_batch T epoch n i batch (g, loc, out) = Inr (g', loc', out')"
  shows "sgd_update T (model_net g) (torch_state g) batch = Inr (torch_state g') \<and>
         model_net g' = (model_net g)\<lparr>training := True\<rparr>"
  using assms
  by (cases batch)
     (auto simp: train_batch_def sgd_update_def Net_call_def Net_train_def Let_def criterion_def
        optimizer_alg_def split: sum.splits prod.splits if_splits)

lemma sgd_update_mode:
  "sgd_update T (m\<lparr>training := True\<rparr>) s batch = sgd_update T m s batch"
  by (simp add: sgd_update_def)

lemma sgd_epoch_mode:
  "sgd_epoch T (m\<lparr>training := True\<rparr>) s bs = sgd_epoch T m s bs"
  by (induction bs arbitrary: s) (simp_all add: sgd_update_mode split: sum.splits)

text \<open>
  Once the model is in training mode, the loop over the batches leaves the model as it is
  and moves the framework through the updates of \<^const>\<open>sgd_epoch\<close>, batch by batch.
\<close>

lemma train_batches_sgd:
  assumes "train_batches T epoch n i bs (g, loc, out) = Inr (g', loc', out')"
    and "training (model_net g)"
  shows "sgd_epoch T (model_net g) (torch_state g) bs = Inr (torch_state g') \<and>
         model_net g' = model_net g"
  using assms
proof (induction bs arbitrary: i g loc out)
  case Nil
  then show ?case by simp
next
  case (Cons b bs)
  from Cons.prems obtain g1 loc1 out1 where
    b: "train_batch T epoch n i b (g, loc, out) = Inr (g1, loc1, out1)" and
    r: "train_batches T epoch n (i + 1) bs (g1, loc1, out1) = Inr (g', loc', out')"
    by (auto split: sum.splits)
  note 1 = train_batch_sgd[OF b]
  with Cons.prems(2) have m: "model_net g1 = model_net g" by (cases "model_net g") simp
  with Cons.prems(2) have "training (model_net g1)" by simp
  from Cons.IH[OF r this] 1 m show ?case by simp
qed

text \<open>
  Claim C4.  The network of the classifier notebook is sequential with three convolution
  blocks: \<open>Net.forward\<close> applies a convolution, a batch normalisation, a ReLU and a max
  pooling, three times over (1 to 64, 64 to 128 and 128 to 128 channels), and only then
  the flattening and the fully connected layers.  The criterion is the cross-entropy loss
  and the optimiser is \<open>optim.SGD\<close> with learning rate 0.001 and momentum 0.9.  An epoch
  of \<open>train\<close> that completes has, for every batch of the loader in turn, cleared the
  gradients, applied the network in training mode, differentiated the cross-entropy loss
  of the outputs and taken one step of the optimiser; the model is left in training mode.
\<close>

theorem classifier_three_blocks_sgd:
  "Net_forward ap size_of (Net_init\<lparr>training := mode\<rparr>) s x =
     (case run_ops ap (conv_block 1 64 @ conv_block 64 128 @ conv_block 128 128) s x of
        Inl e \<Rightarrow> Inl e
      | Inr (x3, s3) \<Rightarrow>
          run_ops ap [view_rows (num_flat_features (size_of x3)), Linear_op 128 52, BatchNorm1d_op 52,
                      relu, dropout mode, Linear_op 52 10] s3 x3) \<and>
   criterion = CrossEntropyLoss \<and> optimizer_alg = SGD (1 / 1000) (9 / 10) \<and>
   (train T g testloader epoch = Inr (g', out) \<longrightarrow>
      sgd_epoch T (model_net g) (module_train T True (torch_state g)) testloader = Inr (torch_state g') \<and>
      model_net g' = (model_net g)\<lparr>training := True\<rparr>)"
proof (intro conjI impI)
  assume "train T g testloader epoch = Inr (g', out)"
  then obtain loc where
    "train_batches T epoch (dataset_len testloader) 0 testloader
       (Net_train T True g, \<lparr>running_loss = 0, total = 0, correct = 0\<rparr>, []) = Inr (g', loc, out)"
    by (auto simp: train_def split: sum.splits prod.splits)
  from train_batches_sgd[OF this]
  have "sgd_epoch T (model_net g) (module_train T True (torch_state g)) testloader = Inr (torch_state g') \<and>
      model_net g' = (model_net g)\<lparr>training := True\<rparr>"
    by (simp add: Net_train_def sgd_epoch_mode)
  then show "sgd_epoch T (model_net g) (module_train T True (torch_state g)) testloader = Inr (torch_state g')"
    and "model_net g' = (model_net g)\<lparr>training := True\<rparr>" by simp_all
qed (simp_all add: Net_forward_ops criterion_def optimizer_alg_def)

text \<open>
  An epoch over three batches of 16, 16 and 8 images of 28 by 28 pixels, in the framework
  that computes shapes and counts the steps: the epoch completes, one line is printed
  (at the first batch), and the optimiser has taken three steps.
\<close>

theorem classifier_three_blocks_sgd_witness:
  "train shape_torch \<lparr>model_net = Net_init\<lparr>training := False\<rparr>, torch_state = 0\<rparr>
     [([16, 1, 28, 28], replicate 16 0), ([16, 1, 28, 28], replicate 16 0), ([8, 1, 28, 28], replicate 8 0)] 3
     = Inr (\<lparr>model_net = Net_init, torch_state = 3\<rparr>, [(3, 16, 40, 0, 1)]) \<and>
   sgd_epoch shape_torch (Net_init\<lparr>training := False\<rparr>) 0
     [([16, 1, 28, 28], replicate 16 0), ([16, 1, 28, 28], replicate 16 0), ([8, 1, 28, 28], replicate 8 0)]
     = Inr 3"
proof -
  let ?g = "\<lparr>model_net = Net_init\<lparr>training := False\<rparr>, torch_state = 0\<rparr> :: nat notebook"
  let ?bs = "[([16, 1, 28, 28], replicate 16 0), ([16, 1, 28, 28], replicate 16 0),
              ([8, 1, 28, 28], replicate 8 0)] :: (nat list \<times> nat list) list"
  have t: "train shape_torch ?g ?bs 3 = Inr (\<lparr>model_net = Net_init, torch_state = 3\<rparr>, [(3, 16, 40, 0, 1)])"
    by code_simp
  have m: "module_train shape_torch True (0 :: nat) = 0"
    by (simp add: shape_torch_def)
  note c = classifier_three_blocks_sgd[where T = shape_torch and g = ?g and testloader = ?bs and epoch = 3
      and g' = "\<lparr>model_net = Net_init, torch_state = 3\<rparr>" and out = "[(3, 16, 40, 0, 1)]",
      THEN conjunct2, THEN conjunct2, THEN conjunct2, THEN mp, OF t, THEN conjunct1]
  have "sgd_epoch shape_torch (Net_init\<lparr>training := False\<rparr>) 0 ?bs = Inr 3"
    using c by (simp only: notebook.select_convs m)
  with t show ?thesis by (simp only: simp_thms)
qed

text \<open>
  Claim C7.  The model that the evaluation loop applies to the test images is the whole
  network, not a truncated one: on a batch of \<open>n\<close> images of 28 by 28 pixels it returns
  the output of the last fully connected layer, of shape \<open>[n, 10]\<close>, one score for each
  class.  The representation with 128 features is the value after the three convolution
  blocks and the flattening, of shape \<open>[n, 128]\<close>, which \<open>forward\<close> passes on to the fully
  connected layers and does not return.
\<close>

theorem evaluation_outputs_class_scores:
  "evaluation_loop shape_torch \<lparr>model_net = Net_init, torch_state = 0\<rparr> [([16, 1, 28, 28], replicate 16 0)]
     = Inr (Some [16, 10], \<lparr>model_net = Net_init\<lparr>training := False\<rparr>, torch_state = 0\<rparr>) \<and>
   Net_forward op_shape (\<lambda>x. x) (Net_init\<lparr>training := mode\<rparr>) s [n, 1, 28, 28] = Inr ([n, 10], s) \<and>
   run_ops op_shape (conv_block 1 64 @ conv_block 64 128 @ conv_block 128 128 @ [view_rows 128]) s [n, 1, 28, 28]
     = Inr ([n, 128], s)"
proof (intro conjI)
  show "evaluation_loop shape_torch \<lparr>model_net = Net_init, torch_state = 0\<rparr> [([16, 1, 28, 28], replicate 16 0)]
     = Inr (Some [16, 10], \<lparr>model_net = Net_init\<lparr>training := False\<rparr>, torch_state = 0\<rparr>)"
    by code_simp
qed (simp_all add: Net_forward_def Net_init_def call_def op_shape_def num_flat_features_def conv_block_def)

end
